theory Spec2Isabelle
  imports Complex_Main "HOL-Library.AList"
begin

section \<open>JavaScript values and the object store\<close>

text \<open>
  The style helpers of vuelayers work on plain JavaScript objects (the flat \<open>VlStyle\<close>
  record) and on instances of the rendering library's style classes. Objects have
  identity and are mutated in place, so they live in a store: a list of objects, an
  address being an index into it. Allocation appends, so the address of a new object is
  the length of the store before the allocation.

  Numbers are IEEE doubles in the source. The helpers never compute with them (they are
  only tested and copied), so a finite number is carried as a rational and the three
  special values are constructors of their own.
\<close>

datatype jsnum = Finite rat | PosInfinity | NegInfinity | NaN

type_synonym addr = nat

text \<open>
  A function value is either a function of the host program (known by a number only) or
  the closure \<open>__styleGeomFunc\<close> that \<open>createGeomStyle\<close> returns, which captures the
  record it was built from.
\<close>

datatype jsfun = HostFunction nat | StyleGeomFunc addr

datatype jsval =
    JUndefined
  | JNull
  | JBool bool
  | JNum jsnum
  | JStr string
  | JArr "jsval list"
  | JFun jsfun
  | JRef addr

text \<open>
  The classes the module tests with \<open>instanceof\<close> or constructs with \<open>new\<close>.
  \<open>Icon\<close>, \<open>RegularShape\<close> and \<open>Circle\<close> extend \<open>ImageStyle\<close> in the rendering
  library (\<open>RegularShape\<close> directly, \<open>Circle\<close> through \<open>RegularShape\<close>).
\<close>

datatype klass = Object | Fill | Stroke | ImageStyle | Icon | RegularShape | Circle | Text | Style

text \<open>
  An object is its class and its own enumerable properties in the order \<open>Object.keys\<close>
  lists them. An instance of a library class is represented by the options object its
  constructor received: its \<open>props\<close> are a copy of those options.
\<close>

record obj =
  klass :: klass
  props :: "(string \<times> jsval) list"

type_synonym heap = "obj list"

text \<open>
  \<open>Error m\<close> is the JavaScript \<open>Error\<close> the module throws with message \<open>m\<close>,
  \<open>SyntaxError p\<close> the one the \<open>RegExp\<close> constructor throws on a pattern \<open>p\<close> it
  rejects, \<open>AssertionError c\<close> the one with code \<open>c\<close> that a constructor of the
  rendering library throws on options it rejects. \<open>OutsideModel\<close> marks an argument this
  embedding does not describe (a value given to \<open>createStyle\<close> that is neither \<open>null\<close>,
  \<open>undefined\<close> nor an object); it is no behaviour of the program.
\<close>

datatype error = Error string | SyntaxError string | AssertionError nat | OutsideModel

text \<open>
  A call that may throw and may write to the store returns its outcome together with
  the store it leaves behind; the store survives a throw.
\<close>

type_synonym 'a outcome = "(error + 'a) \<times> heap"

definition obj_at :: "heap \<Rightarrow> addr \<Rightarrow> obj option" where
  "obj_at h a = (if a < length h then Some (h ! a) else None)"

text \<open>An address beyond the store denotes no object; it reads as having no property.\<close>

definition props_at :: "heap \<Rightarrow> addr \<Rightarrow> (string \<times> jsval) list" where
  "props_at h a = (case obj_at h a of Some ob \<Rightarrow> props ob | None \<Rightarrow> [])"

definition keys_at :: "heap \<Rightarrow> addr \<Rightarrow> string list" where
  "keys_at h a = map fst (props_at h a)"

text \<open>\<open>o[k]\<close>: the value of an own property, \<open>undefined\<close> when there is none.\<close>

definition get_prop :: "heap \<Rightarrow> addr \<Rightarrow> string \<Rightarrow> jsval" where
  "get_prop h a k = (case map_of (props_at h a) k of Some v \<Rightarrow> v | None \<Rightarrow> JUndefined)"

text \<open>
  \<open>o[k] = v\<close>: an existing property keeps its place in the key order, a new one goes
  last.
\<close>

definition set_prop :: "heap \<Rightarrow> addr \<Rightarrow> string \<Rightarrow> jsval \<Rightarrow> heap" where
  "set_prop h a k v =
     (if a < length h then h[a := (h ! a)\<lparr>props := AList.update k v (props (h ! a))\<rparr>] else h)"

definition alloc :: "heap \<Rightarrow> obj \<Rightarrow> addr \<times> heap" where
  "alloc h ob = (length h, h @ [ob])"

definition object_literal :: "(string \<times> jsval) list \<Rightarrow> obj" where
  "object_literal ps = \<lparr>klass = Object, props = ps\<rparr>"

text \<open>\<open>v instanceof C\<close> for a class without subclasses in the module.\<close>

definition instance_of :: "heap \<Rightarrow> jsval \<Rightarrow> klass \<Rightarrow> bool" where
  "instance_of h v c =
     (case v of
        JRef r \<Rightarrow> (case obj_at h r of Some ob \<Rightarrow> klass ob = c | None \<Rightarrow> False)
      | _ \<Rightarrow> False)"

text \<open>\<open>v instanceof ImageStyle\<close>: the class itself or one of its three subclasses.\<close>

definition instance_of_ImageStyle :: "heap \<Rightarrow> jsval \<Rightarrow> bool" where
  "instance_of_ImageStyle h v =
     (instance_of h v ImageStyle \<or> instance_of h v Icon \<or>
      instance_of h v RegularShape \<or> instance_of h v Circle)"

text \<open>JavaScript truthiness, as \<open>||\<close>, \<open>?:\<close> and \<open>!!x\<close> test it.\<close>

fun truthy :: "jsval \<Rightarrow> bool" where
  "truthy JUndefined = False"
| "truthy JNull = False"
| "truthy (JBool b) = b"
| "truthy (JNum n) = (n \<noteq> Finite 0 \<and> n \<noteq> NaN)"
| "truthy (JStr s) = (s \<noteq> [])"
| "truthy (JArr xs) = True"
| "truthy (JFun f) = True"
| "truthy (JRef r) = True"

text \<open>\<open>x == null\<close>: true of \<open>null\<close> and \<open>undefined\<close> only.\<close>

definition is_nullish :: "jsval \<Rightarrow> bool" where
  "is_nullish v = (v = JNull \<or> v = JUndefined)"

section \<open>Style identity\<close>

text \<open>
  Modelled from the spec: \<open>hasProp\<close> of \<open>util/minilo\<close> is not among the sources. The
  spec speaks of "an object lacking the expected identity field", so \<open>hasProp o k\<close> is
  taken to hold exactly when the object has a property named \<open>k\<close>, whatever its value.
\<close>

definition hasProp :: "heap \<Rightarrow> addr \<Rightarrow> string \<Rightarrow> bool" where
  "hasProp h a k = (k \<in> set (keys_at h a))"

definition getStyleId :: "heap \<Rightarrow> addr \<Rightarrow> error + jsval" where
  "getStyleId h style =
     (if hasProp h style ''id'' then Inr (get_prop h style ''id'')
      else Inl (Error ''Illegal style argument''))"

definition setStyleId :: "heap \<Rightarrow> addr \<Rightarrow> jsval \<Rightarrow> jsval outcome" where
  "setStyleId h style styleId =
     (if hasProp h style ''id'' then (Inr (JRef style), set_prop h style ''id'' styleId)
      else (Inl (Error ''Illegal style argument''), h))"

text \<open>
  \<open>uuid()\<close> is the external generator; \<open>uuid\<close> below is the string it yields at this
  call. It is consulted only when \<open>defaultStyleId\<close> is falsy, as \<open>||\<close> evaluates its
  right operand only then.
\<close>

definition initializeStyle :: "string \<Rightarrow> heap \<Rightarrow> addr \<Rightarrow> jsval \<Rightarrow> jsval outcome" where
  "initializeStyle uuid h style defaultStyleId =
     (case getStyleId h style of
        Inl e \<Rightarrow> (Inl e, h)
      | Inr i \<Rightarrow>
          if is_nullish i then
            (case setStyleId h style (if truthy defaultStyleId then defaultStyleId else JStr uuid) of
               (Inl e, h') \<Rightarrow> (Inl e, h')
             | (Inr _, h') \<Rightarrow> (Inr (JRef style), h'))
          else (Inr (JRef style), h))"

section \<open>Strings and regular expressions\<close>

definition toUpperCase_char :: "char \<Rightarrow> char" where
  "toUpperCase_char c =
     (case map_of (zip ''abcdefghijklmnopqrstuvwxyz'' ''ABCDEFGHIJKLMNOPQRSTUVWXYZ'') c of
        Some u \<Rightarrow> u | None \<Rightarrow> c)"

definition toLowerCase_char :: "char \<Rightarrow> char" where
  "toLowerCase_char c =
     (case map_of (zip ''ABCDEFGHIJKLMNOPQRSTUVWXYZ'' ''abcdefghijklmnopqrstuvwxyz'') c of
        Some l \<Rightarrow> l | None \<Rightarrow> c)"

text \<open>
  Modelled from the spec: \<open>upperFirst\<close> and \<open>lowerFirst\<close> of \<open>util/minilo\<close> are not
  among the sources and the spec does not describe them; they are taken by their names:
  the first character in upper (lower) case, the rest unchanged, over ASCII letters.
\<close>

definition upperFirst :: "string \<Rightarrow> string" where
  "upperFirst s = (case s of [] \<Rightarrow> [] | c # cs \<Rightarrow> toUpperCase_char c # cs)"

definition lowerFirst :: "string \<Rightarrow> string" where
  "lowerFirst s = (case s of [] \<Rightarrow> [] | c # cs \<Rightarrow> toLowerCase_char c # cs)"

text \<open>
  \<open>name.replace(new RegExp(pattern), '')\<close> removes the leftmost match of the pattern.
  The fragment of the pattern language modelled here: ordinary characters, which match
  themselves, and the assertions \<open>^\<close> (start of input) and \<open>$\<close> (end of input).
  A pattern that uses any other syntax character is outside the fragment; what the
  language's engine does with it is a parameter of the embedding (see \<open>runtime\<close> below).
\<close>

definition regexp_syntax_chars :: "char list" where
  "regexp_syntax_chars =
     [CHR ''^'', CHR ''$'', CHR 0x5C, CHR ''.'', CHR ''*'', CHR ''+'', CHR ''?'',
      CHR ''('', CHR '')'', CHR ''['', CHR '']'', CHR ''{'', CHR ''}'', CHR ''|'']"

datatype rx_atom = Lit char | AssertStart | AssertEnd

definition rx_atom_of :: "char \<Rightarrow> rx_atom option" where
  "rx_atom_of c =
     (if c = CHR ''^'' then Some AssertStart
      else if c = CHR ''$'' then Some AssertEnd
      else if c \<in> set regexp_syntax_chars then None
      else Some (Lit c))"

fun rx_parse :: "string \<Rightarrow> rx_atom list option" where
  "rx_parse [] = Some []"
| "rx_parse (c # cs) =
     (case rx_atom_of c of
        None \<Rightarrow> None
      | Some a \<Rightarrow> (case rx_parse cs of None \<Rightarrow> None | Some as \<Rightarrow> Some (a # as)))"

text \<open>
  \<open>rx_match_here as at_start s\<close>: the atoms matched against the input from its current
  position, \<open>s\<close> being what is left of the input there; the result is what is left after
  the match.
\<close>

fun rx_match_here :: "rx_atom list \<Rightarrow> bool \<Rightarrow> string \<Rightarrow> string option" where
  "rx_match_here [] at_start s = Some s"
| "rx_match_here (Lit c # as) at_start [] = None"
| "rx_match_here (Lit c # as) at_start (x # xs) =
     (if x = c then rx_match_here as False xs else None)"
| "rx_match_here (AssertStart # as) at_start s =
     (if at_start then rx_match_here as at_start s else None)"
| "rx_match_here (AssertEnd # as) at_start s =
     (if s = [] then rx_match_here as at_start s else None)"

fun rx_remove_first :: "rx_atom list \<Rightarrow> bool \<Rightarrow> string \<Rightarrow> string" where
  "rx_remove_first as at_start [] =
     (case rx_match_here as at_start [] of Some rest \<Rightarrow> rest | None \<Rightarrow> [])"
| "rx_remove_first as at_start (x # xs) =
     (case rx_match_here as at_start (x # xs) of
        Some rest \<Rightarrow> rest
      | None \<Rightarrow> x # rx_remove_first as False xs)"

fun join :: "string \<Rightarrow> string list \<Rightarrow> string" where
  "join sep [] = []"
| "join sep [x] = x"
| "join sep (x # y # ys) = x @ sep @ join sep (y # ys)"

section \<open>The environment of the module\<close>

text \<open>
  What the module imports and the sources do not hold is a parameter of the embedding:
  \<^item> \<open>parseColor_rgba s\<close> is \<open>parseColor(s).rgba\<close> of the package \<open>parse-color\<close>;
  \<^item> \<open>isNumeric\<close> is the helper of \<open>util/minilo\<close>;
  \<^item> \<open>toString\<close> is the language's conversion of a value to a string, as \<open>+\<close> with a
    string operand and \<open>Array.prototype.join\<close> apply it;
  \<^item> \<open>regexp_engine p s\<close> is \<open>s.replace(new RegExp(p), '')\<close> for a pattern \<open>p\<close> outside
    the fragment modelled above: the string without the leftmost match, or the error the
    constructor throws;
  \<^item> \<open>image_constructor_throws h C options\<close> is what \<open>new C(options)\<close> throws, if it
    throws, for an image class \<open>C\<close> of the rendering library (\<open>Icon\<close>, \<open>RegularShape\<close>,
    \<open>Circle\<close>) and the options object at the address \<open>options\<close> of the store \<open>h\<close>.
    These constructors check their options and render the image, and either can fail.
\<close>

record runtime =
  parseColor_rgba :: "string \<Rightarrow> jsval"
  isNumeric :: "jsval \<Rightarrow> bool"
  toString :: "jsval \<Rightarrow> string"
  regexp_engine :: "string \<Rightarrow> string \<Rightarrow> error + string"
  image_constructor_throws :: "heap \<Rightarrow> klass \<Rightarrow> addr \<Rightarrow> error option"

definition replace_RegExp_empty :: "runtime \<Rightarrow> string \<Rightarrow> string \<Rightarrow> error + string" where
  "replace_RegExp_empty rt pattern name =
     (case rx_parse pattern of
        None \<Rightarrow> regexp_engine rt pattern name
      | Some as \<Rightarrow> Inr (rx_remove_first as True name))"

text \<open>
  One environment, at which the theorems below are instantiated on concrete inputs. It
  answers as the real functions do on the values those inputs hold: the colour keyword
  \<open>red\<close>, finite numbers, \<open>undefined\<close> and strings. The patterns of those inputs are
  all in the modelled fragment, so its engine is never asked. Its \<open>Icon\<close> constructor
  makes the three assertions of the rendering library's: not both \<open>src\<close> and \<open>img\<close>
  (code 4), an \<open>imgSize\<close> with every \<open>img\<close> (code 5), and one of \<open>src\<close> and \<open>img\<close>
  (code 6), \<open>src\<close> being a string or \<open>undefined\<close> in those inputs; its \<open>RegularShape\<close>
  and \<open>Circle\<close> constructors do not throw.
\<close>

definition sample_runtime :: runtime where
  "sample_runtime =
     \<lparr>parseColor_rgba =
        (\<lambda>s. if s = ''red''
             then JArr [JNum (Finite 255), JNum (Finite 0), JNum (Finite 0), JNum (Finite 1)]
             else JUndefined),
      isNumeric = (\<lambda>v. case v of JNum (Finite q) \<Rightarrow> True | _ \<Rightarrow> False),
      toString = (\<lambda>v. case v of JStr s \<Rightarrow> s | _ \<Rightarrow> ''undefined''),
      regexp_engine = (\<lambda>p s. Inl (SyntaxError p)),
      image_constructor_throws =
        (\<lambda>h C options.
           if C \<noteq> Icon then None
           else if get_prop h options ''src'' \<noteq> JUndefined \<and> truthy (get_prop h options ''img'')
           then Some (AssertionError 4)
           else if truthy (get_prop h options ''img'') \<and> \<not> truthy (get_prop h options ''imgSize'')
           then Some (AssertionError 5)
           else if \<not> truthy (get_prop h options ''src'') \<and> \<not> truthy (get_prop h options ''img'')
           then Some (AssertionError 6)
           else None)\<rparr>"

definition to_string :: "runtime \<Rightarrow> jsval \<Rightarrow> string" where
  "to_string rt v = (case v of JStr s \<Rightarrow> s | _ \<Rightarrow> toString rt v)"

section \<open>Emptiness\<close>

text \<open>
  \<open>!Object.keys(x).length\<close>. The keys of a string or an array are its indices; a
  boolean and a function have none. An instance of a library class always has own
  properties, since each of the library's style constructors assigns its fields
  unconditionally; a plain object has the properties it was given.
\<close>

definition no_own_keys :: "heap \<Rightarrow> jsval \<Rightarrow> bool" where
  "no_own_keys h x =
     (case x of
        JStr s \<Rightarrow> s = []
      | JArr xs \<Rightarrow> xs = []
      | JRef r \<Rightarrow>
          (case obj_at h r of
             Some ob \<Rightarrow> klass ob = Object \<and> props ob = []
           | None \<Rightarrow> True)
      | _ \<Rightarrow> True)"

definition is_number :: "jsval \<Rightarrow> bool" where
  "is_number x = (case x of JNum n \<Rightarrow> True | _ \<Rightarrow> False)"

definition has_zero_length :: "jsval \<Rightarrow> bool" where
  "has_zero_length x = (case x of JStr s \<Rightarrow> s = [] | JArr xs \<Rightarrow> xs = [] | _ \<Rightarrow> False)"

definition isEmpty :: "heap \<Rightarrow> jsval \<Rightarrow> bool" where
  "isEmpty h x =
     (if is_nullish x then True
      else if is_number x then False
      else has_zero_length x \<or> no_own_keys h x)"

section \<open>Helpers of the compilers\<close>

text \<open>
  Modelled from the spec: \<open>reduce\<close> and \<open>pick\<close> of \<open>util/minilo\<close> are not among the
  sources and the spec does not describe them. \<open>reduce(collection, iteratee, initial)\<close>
  is taken to visit the keys \<open>Object.keys(collection)\<close> lists when it starts, in that
  order, calling \<open>iteratee(accumulator, collection[key], key)\<close> and carrying the value
  returned on; \<open>pick(object, keys)\<close> to build a new object holding \<open>object[key]\<close> under
  each of the keys.
\<close>

fun reduce_keys ::
  "('acc \<Rightarrow> jsval \<Rightarrow> string \<Rightarrow> heap \<Rightarrow> 'acc outcome) \<Rightarrow> addr \<Rightarrow> string list \<Rightarrow> 'acc \<Rightarrow> heap \<Rightarrow>
     'acc outcome" where
  "reduce_keys iteratee collection [] acc h = (Inr acc, h)"
| "reduce_keys iteratee collection (key # keys) acc h =
     (case iteratee acc (get_prop h collection key) key h of
        (Inl e, h') \<Rightarrow> (Inl e, h')
      | (Inr acc', h') \<Rightarrow> reduce_keys iteratee collection keys acc' h')"

definition reduce ::
  "addr \<Rightarrow> ('acc \<Rightarrow> jsval \<Rightarrow> string \<Rightarrow> heap \<Rightarrow> 'acc outcome) \<Rightarrow> 'acc \<Rightarrow> heap \<Rightarrow> 'acc outcome" where
  "reduce collection iteratee initial h =
     reduce_keys iteratee collection (keys_at h collection) initial h"

definition pick :: "heap \<Rightarrow> addr \<Rightarrow> string list \<Rightarrow> addr \<times> heap" where
  "pick h object keys =
     (let (picked, h1) = alloc h (object_literal [])
      in (picked, foldl (\<lambda>h' key. set_prop h' picked key (get_prop h' object key)) h1 keys))"

text \<open>\<open>Object.assign(target, source)\<close>: each own property of the source is set on the target.\<close>

definition assign :: "heap \<Rightarrow> addr \<Rightarrow> addr \<Rightarrow> heap" where
  "assign h target source =
     foldl (\<lambda>h' key. set_prop h' target key (get_prop h' source key)) h (keys_at h source)"

text \<open>
  The properties of an object literal \<open>{...o, k1: v1, k2: v2}\<close>: those of \<open>o\<close>, then each
  listed key defined in turn.
\<close>

definition spread :: "(string \<times> jsval) list \<Rightarrow> (string \<times> jsval) list \<Rightarrow> (string \<times> jsval) list" where
  "spread ps entries = foldl (\<lambda>acc (k, v). AList.update k v acc) ps entries"

text \<open>
  \<open>new C(options)\<close> for \<open>Fill\<close>, \<open>Stroke\<close>, \<open>Text\<close> and \<open>Style\<close>: a new object of
  that class, holding a copy of the options. The constructors belong to the rendering
  library, not to the module. These four store the options they are given and do not
  fail. No constructor of the library is taken to modify an object that exists when it
  is called: they read their options.
\<close>

definition construct :: "klass \<Rightarrow> addr \<Rightarrow> heap \<Rightarrow> jsval outcome" where
  "construct c options h =
     (let (r, h') = alloc h \<lparr>klass = c, props = props_at h options\<rparr> in (Inr (JRef r), h'))"

text \<open>
  \<open>new Ctor(options)\<close> for an image class: the constructor throws what the environment
  says it throws on these options, and nothing is allocated then; otherwise the new
  object holds a copy of the options.
\<close>

definition construct_image :: "runtime \<Rightarrow> klass \<Rightarrow> addr \<Rightarrow> heap \<Rightarrow> jsval outcome" where
  "construct_image rt Ctor options h =
     (case image_constructor_throws rt h Ctor options of
        Some e \<Rightarrow> (Inl e, h)
      | None \<Rightarrow> construct Ctor options h)"

text \<open>\<open>a || b\<close>, where \<open>a\<close> has been evaluated and \<open>b\<close> is evaluated only if \<open>a\<close> is falsy.\<close>

definition or_else :: "jsval outcome \<Rightarrow> (heap \<Rightarrow> jsval outcome) \<Rightarrow> jsval outcome" where
  "or_else a b =
     (case a of
        (Inl e, h) \<Rightarrow> (Inl e, h)
      | (Inr v, h) \<Rightarrow> if truthy v then (Inr v, h) else b h)"

text \<open>Sequencing: the second computation runs in the store the first one left, unless
  the first one threw.\<close>

definition bind_outcome :: "'a outcome \<Rightarrow> ('a \<Rightarrow> heap \<Rightarrow> 'b outcome) \<Rightarrow> 'b outcome" where
  "bind_outcome m f = (case m of (Inl e, h) \<Rightarrow> (Inl e, h) | (Inr x, h) \<Rightarrow> f x h)"

definition isFunction :: "jsval \<Rightarrow> bool" where
  "isFunction v = (case v of JFun f \<Rightarrow> True | _ \<Rightarrow> False)"

section \<open>The style compilers\<close>

definition addPrefix :: "string \<Rightarrow> string \<Rightarrow> string" where
  "addPrefix prefix str = prefix @ (if prefix \<noteq> [] then upperFirst str else str)"

definition normalizeColor :: "runtime \<Rightarrow> jsval \<Rightarrow> jsval" where
  "normalizeColor rt color = (case color of JStr s \<Rightarrow> parseColor_rgba rt s | _ \<Rightarrow> color)"

subsection \<open>Fill\<close>

definition fill_keys :: "string \<Rightarrow> string list" where
  "fill_keys prefix = map (addPrefix prefix) [''fillColor'']"

text \<open>The callback \<open>createFillStyle\<close> hands to \<open>reduce\<close>.\<close>

definition fill_iteratee :: "runtime \<Rightarrow> string \<Rightarrow> addr \<Rightarrow> jsval \<Rightarrow> string \<Rightarrow> heap \<Rightarrow> addr outcome" where
  "fill_iteratee rt prefix style value name h =
     (if name \<notin> set (fill_keys prefix) then (Inr style, h)
      else
        (case replace_RegExp_empty rt (addPrefix prefix ''fill'') name of
           Inl e \<Rightarrow> (Inl e, h)
         | Inr stripped \<Rightarrow>
             (let name' = lowerFirst stripped;
                  value' = (if name' = ''color'' then normalizeColor rt value else value)
              in (Inr style, set_prop h style name' value'))))"

definition createFillStyle :: "runtime \<Rightarrow> heap \<Rightarrow> addr \<Rightarrow> string \<Rightarrow> jsval outcome" where
  "createFillStyle rt h vlStyle prefix =
     (let compiledKey = addPrefix prefix ''fill'' in
      if instance_of h (get_prop h vlStyle compiledKey) Fill
      then (Inr (get_prop h vlStyle compiledKey), h)
      else
        (let (acc, h1) = alloc h (object_literal []) in
         case reduce vlStyle (fill_iteratee rt prefix) acc h1 of
           (Inl e, h2) \<Rightarrow> (Inl e, h2)
         | (Inr fillStyle, h2) \<Rightarrow>
             if \<not> isEmpty h2 (JRef fillStyle) then construct Fill fillStyle h2
             else (Inr JUndefined, h2)))"

subsection \<open>Stroke\<close>

definition stroke_keys :: "string \<Rightarrow> string list" where
  "stroke_keys prefix =
     map (addPrefix prefix)
       [''strokeColor'', ''strokeWidth'', ''strokeMiterLimit'', ''strokeCap'', ''strokeJoin'',
        ''strokeDash'', ''strokeDashOffset'']"

text \<open>The \<open>switch\<close> of the callback: the name under which a key is stored.\<close>

definition stroke_option_name :: "runtime \<Rightarrow> string \<Rightarrow> string \<Rightarrow> error + string" where
  "stroke_option_name rt prefix name =
     (if name = addPrefix prefix ''strokeColor'' \<or> name = addPrefix prefix ''strokeWidth'' \<or>
         name = addPrefix prefix ''strokeMiterLimit''
      then
        (case replace_RegExp_empty rt (addPrefix prefix ''stroke'') name of
           Inl e \<Rightarrow> Inl e
         | Inr stripped \<Rightarrow> Inr (lowerFirst stripped))
      else if name = addPrefix prefix ''strokeCap'' \<or> name = addPrefix prefix ''strokeJoin'' \<or>
         name = addPrefix prefix ''strokeDash'' \<or> name = addPrefix prefix ''strokeDashOffset''
      then
        (case replace_RegExp_empty rt (addPrefix prefix ''stroke'') name of
           Inl e \<Rightarrow> Inl e
         | Inr stripped \<Rightarrow> Inr (''line'' @ stripped))
      else Inr name)"

definition stroke_iteratee :: "runtime \<Rightarrow> string \<Rightarrow> addr \<Rightarrow> jsval \<Rightarrow> string \<Rightarrow> heap \<Rightarrow> addr outcome" where
  "stroke_iteratee rt prefix style value name h =
     (if name \<notin> set (stroke_keys prefix) then (Inr style, h)
      else
        (case stroke_option_name rt prefix name of
           Inl e \<Rightarrow> (Inl e, h)
         | Inr name' \<Rightarrow>
             (let value' = (if name' = ''color'' then normalizeColor rt value else value)
              in (Inr style, set_prop h style name' value'))))"

definition createStrokeStyle :: "runtime \<Rightarrow> heap \<Rightarrow> addr \<Rightarrow> string \<Rightarrow> jsval outcome" where
  "createStrokeStyle rt h vlStyle prefix =
     (let compiledKey = addPrefix prefix ''stroke'' in
      if instance_of h (get_prop h vlStyle compiledKey) Stroke
      then (Inr (get_prop h vlStyle compiledKey), h)
      else
        (let (acc, h1) = alloc h (object_literal []) in
         case reduce vlStyle (stroke_iteratee rt prefix) acc h1 of
           (Inl e, h2) \<Rightarrow> (Inl e, h2)
         | (Inr strokeStyle, h2) \<Rightarrow>
             if \<not> isEmpty h2 (JRef strokeStyle) then construct Stroke strokeStyle h2
             else (Inr JUndefined, h2)))"

subsection \<open>Image\<close>

definition icon_options :: "heap \<Rightarrow> addr \<Rightarrow> (string \<times> jsval) list" where
  "icon_options h vlStyle =
     spread (props_at h vlStyle)
       [(''anchor'', get_prop h vlStyle ''imageAnchor''),
        (''anchorOrigin'', get_prop h vlStyle ''imageAnchorOrigin''),
        (''color'', get_prop h vlStyle ''imageColor''),
        (''offset'', get_prop h vlStyle ''imageOffset''),
        (''offsetOrigin'', get_prop h vlStyle ''imageOffsetOrigin''),
        (''opacity'', get_prop h vlStyle ''imageOpacity''),
        (''scale'', get_prop h vlStyle ''imageScale''),
        (''rotation'', get_prop h vlStyle ''imageRotation''),
        (''size'', get_prop h vlStyle ''imageSize''),
        (''img'', get_prop h vlStyle ''image''),
        (''imgSize'', get_prop h vlStyle ''imageImgSize''),
        (''src'', get_prop h vlStyle ''imageSrc''),
        (''crossOrigin'', get_prop h vlStyle ''imageCrossOrigin'')]"

definition regular_shape_options :: "heap \<Rightarrow> addr \<Rightarrow> (string \<times> jsval) list" where
  "regular_shape_options h vlStyle =
     spread (props_at h vlStyle)
       [(''points'', get_prop h vlStyle ''imagePoints''),
        (''radius'', get_prop h vlStyle ''imageRadius''),
        (''radius1'', get_prop h vlStyle ''imageRadius1''),
        (''radius2'', get_prop h vlStyle ''imageRadius2''),
        (''angle'', get_prop h vlStyle ''imageAngle''),
        (''rotation'', get_prop h vlStyle ''imageRotation'')]"

definition circle_options :: "heap \<Rightarrow> addr \<Rightarrow> (string \<times> jsval) list" where
  "circle_options h vlStyle =
     spread (props_at h vlStyle) [(''radius'', get_prop h vlStyle ''imageRadius'')]"

text \<open>The branch that picks the constructor and the first options object.\<close>

definition image_ctor :: "heap \<Rightarrow> addr \<Rightarrow> klass \<times> (string \<times> jsval) list" where
  "image_ctor h vlStyle =
     (if \<not> isEmpty h (get_prop h vlStyle ''imageSrc'') \<or> \<not> isEmpty h (get_prop h vlStyle ''image'')
      then (Icon, icon_options h vlStyle)
      else if \<not> is_nullish (get_prop h vlStyle ''imagePoints'')
      then (RegularShape, regular_shape_options h vlStyle)
      else (Circle, circle_options h vlStyle))"

definition createImageStyle :: "runtime \<Rightarrow> heap \<Rightarrow> addr \<Rightarrow> jsval outcome" where
  "createImageStyle rt h vlStyle =
     (if isEmpty h (get_prop h vlStyle ''imageSrc'') \<and> isEmpty h (get_prop h vlStyle ''image'') \<and>
         isEmpty h (get_prop h vlStyle ''imagePoints'') \<and>
         \<not> isNumeric rt (get_prop h vlStyle ''imageRadius'')
      then (Inr JUndefined, h)
      else if instance_of_ImageStyle h (get_prop h vlStyle ''image'')
      then (Inr (get_prop h vlStyle ''image''), h)
      else
        (let (Ctor, options) = image_ctor h vlStyle;
             (first, h1) = alloc h (object_literal options);
             (imageStyle, h2) = alloc h1 (object_literal (props_at h1 first))
         in bind_outcome
              (or_else (createFillStyle rt h2 vlStyle ''image'')
                 (\<lambda>h'. createFillStyle rt h' vlStyle ''''))
              (\<lambda>fill h3.
                 bind_outcome
                   (or_else (createStrokeStyle rt (set_prop h3 imageStyle ''fill'' fill) vlStyle ''image'')
                      (\<lambda>h'. createStrokeStyle rt h' vlStyle ''''))
                   (\<lambda>stroke h4.
                      (let h5 = set_prop (set_prop h4 imageStyle ''stroke'' stroke) imageStyle
                                  ''snapToPixel'' (JBool True)
                       in if \<not> isEmpty h5 (JRef imageStyle)
                          then construct_image rt Ctor imageStyle h5
                          else (Inr JUndefined, h5))))))"

subsection \<open>Text\<close>

text \<open>The \<open>font\<close> string: \<open>normal\<close>, the size in pixels and the font family, the
  falsy ones left out.\<close>

definition text_font :: "runtime \<Rightarrow> heap \<Rightarrow> addr \<Rightarrow> string" where
  "text_font rt h vlStyle =
     (let fontSize =
            (if truthy (get_prop h vlStyle ''textFontSize'')
             then JStr (to_string rt (get_prop h vlStyle ''textFontSize'') @ ''px'')
             else JUndefined)
      in join '' ''
           (map (to_string rt)
              (filter truthy [JStr ''normal'', fontSize, get_prop h vlStyle ''textFont''])))"

text \<open>The properties of the text options written after \<open>stroke\<close> and before
  \<open>backgroundFill\<close>, each read from the record.\<close>

definition text_plain_options :: "(string \<times> string) list" where
  "text_plain_options =
     [(''scale'', ''textScale''), (''rotation'', ''textRotation''),
      (''offsetX'', ''textOffsetX''), (''offsetY'', ''textOffsetY''),
      (''rotateWithView'', ''textRotateWithView''), (''padding'', ''textPadding''),
      (''maxAngle'', ''textMaxAngle''), (''overflow'', ''textOverflow''),
      (''placement'', ''textPlacement'')]"

definition set_text_plain_options :: "heap \<Rightarrow> addr \<Rightarrow> addr \<Rightarrow> heap" where
  "set_text_plain_options h options vlStyle =
     foldl (\<lambda>h' (k, src). set_prop h' options k (get_prop h' vlStyle src)) h text_plain_options"

definition createTextStyle :: "runtime \<Rightarrow> heap \<Rightarrow> addr \<Rightarrow> jsval outcome" where
  "createTextStyle rt h vlStyle =
     (if is_nullish (get_prop h vlStyle ''text'') then (Inr JUndefined, h)
      else if instance_of h (get_prop h vlStyle ''text'') Text
      then (Inr (get_prop h vlStyle ''text''), h)
      else
        (let (textStyle, h1) = alloc h (object_literal [(''text'', get_prop h vlStyle ''text'')]);
             font = text_font rt h1 vlStyle;
             (picked, h2) = pick h1 vlStyle [''textAlign'', ''textBaseline''];
             (options, h3) = alloc h2 (object_literal [(''font'', JStr font)])
         in bind_outcome
              (or_else (createFillStyle rt h3 vlStyle ''text'')
                 (\<lambda>h'. createFillStyle rt h' vlStyle ''''))
              (\<lambda>fill h4.
                 bind_outcome
                   (or_else (createStrokeStyle rt (set_prop h4 options ''fill'' fill) vlStyle ''text'')
                      (\<lambda>h'. createStrokeStyle rt h' vlStyle ''''))
                   (\<lambda>stroke h5.
                      bind_outcome
                        (createFillStyle rt
                           (set_text_plain_options (set_prop h5 options ''stroke'' stroke) options vlStyle)
                           vlStyle ''textBackground'')
                        (\<lambda>backgroundFill h6.
                           bind_outcome
                             (createStrokeStyle rt (set_prop h6 options ''backgroundFill'' backgroundFill)
                                vlStyle ''textBackground'')
                             (\<lambda>backgroundStroke h7.
                                (let h8 = set_prop h7 options ''backgroundStroke'' backgroundStroke;
                                     h9 = assign (assign h8 textStyle picked) textStyle options
                                 in if \<not> isEmpty h9 (JRef textStyle) then construct Text textStyle h9
                                    else (Inr JUndefined, h9))))))))"

subsection \<open>Geometry and the whole style\<close>

definition createGeomStyle :: "heap \<Rightarrow> addr \<Rightarrow> jsval" where
  "createGeomStyle h vlStyle =
     (if isFunction (get_prop h vlStyle ''geom'') then JFun (StyleGeomFunc vlStyle)
      else get_prop h vlStyle ''geom'')"

text \<open>
  \<open>createStyle\<close> is given \<open>null\<close>, \<open>undefined\<close> or a record. The object literal
  \<open>olStyle\<close> is created first and its seven properties are defined in the order written,
  each after its value has been computed. The sub-style compilers are called with their
  default prefix, the empty string.
\<close>

definition createStyle :: "runtime \<Rightarrow> heap \<Rightarrow> jsval \<Rightarrow> jsval outcome" where
  "createStyle rt h vlStyle =
     (if isEmpty h vlStyle then (Inr JUndefined, h)
      else
        (case vlStyle of
           JRef v \<Rightarrow>
             (let (olStyle, h0) = alloc h (object_literal []) in
              bind_outcome (createTextStyle rt h0 v)
                (\<lambda>text h1.
                   bind_outcome (createFillStyle rt (set_prop h1 olStyle ''text'' text) v '''')
                     (\<lambda>fill h2.
                        bind_outcome (createStrokeStyle rt (set_prop h2 olStyle ''fill'' fill) v '''')
                          (\<lambda>stroke h3.
                             bind_outcome (createImageStyle rt (set_prop h3 olStyle ''stroke'' stroke) v)
                               (\<lambda>image h4.
                                  (let h5 = set_prop h4 olStyle ''image'' image;
                                       h6 = set_prop h5 olStyle ''geometry'' (createGeomStyle h5 v);
                                       h7 = set_prop h6 olStyle ''zIndex'' (get_prop h6 v ''zIndex'');
                                       h8 = set_prop h7 olStyle ''renderer'' (get_prop h7 v ''renderer'')
                                   in if \<not> isEmpty h8 (JRef olStyle) then construct Style olStyle h8
                                      else (Inr JUndefined, h8)))))))
         | _ \<Rightarrow> (Inl OutsideModel, h)))"

section \<open>The compilers in closed form\<close>

text \<open>
  The definitions of this section are not part of the program: they describe, without a
  store, what the two \<open>reduce\<close> loops compute, and the results below relate them to the
  compilers.

  Both callbacks either leave the accumulator alone or set one property of it. What a
  callback does with a value and its key is an \<open>entry\<close>: an error, nothing
  (\<open>None\<close>), or the name and value it stores.
\<close>

definition entry_iteratee ::
  "(jsval \<Rightarrow> string \<Rightarrow> error + (string \<times> jsval) option) \<Rightarrow> addr \<Rightarrow> jsval \<Rightarrow> string \<Rightarrow> heap \<Rightarrow>
     addr outcome" where
  "entry_iteratee g style value name h =
     (case g value name of
        Inl e \<Rightarrow> (Inl e, h)
      | Inr None \<Rightarrow> (Inr style, h)
      | Inr (Some (n, w)) \<Rightarrow> (Inr style, set_prop h style n w))"

definition fill_entry :: "runtime \<Rightarrow> string \<Rightarrow> jsval \<Rightarrow> string \<Rightarrow> error + (string \<times> jsval) option" where
  "fill_entry rt prefix value name =
     (if name \<notin> set (fill_keys prefix) then Inr None
      else
        (case replace_RegExp_empty rt (addPrefix prefix ''fill'') name of
           Inl e \<Rightarrow> Inl e
         | Inr stripped \<Rightarrow>
             Inr (Some (lowerFirst stripped,
                        if lowerFirst stripped = ''color'' then normalizeColor rt value else value))))"

definition stroke_entry :: "runtime \<Rightarrow> string \<Rightarrow> jsval \<Rightarrow> string \<Rightarrow> error + (string \<times> jsval) option" where
  "stroke_entry rt prefix value name =
     (if name \<notin> set (stroke_keys prefix) then Inr None
      else
        (case stroke_option_name rt prefix name of
           Inl e \<Rightarrow> Inl e
         | Inr name' \<Rightarrow>
             Inr (Some (name', if name' = ''color'' then normalizeColor rt value else value))))"

text \<open>
  The options a loop has gathered after visiting the keys, starting from \<open>ps\<close> and
  reading the record through \<open>look\<close>; with the error, if an entry was one.
\<close>

fun collect ::
  "(jsval \<Rightarrow> string \<Rightarrow> error + (string \<times> jsval) option) \<Rightarrow> (string \<Rightarrow> jsval) \<Rightarrow> string list \<Rightarrow>
     (string \<times> jsval) list \<Rightarrow> error option \<times> (string \<times> jsval) list" where
  "collect g look [] ps = (None, ps)"
| "collect g look (k # ks) ps =
     (case g (look k) k of
        Inl e \<Rightarrow> (Some e, ps)
      | Inr None \<Rightarrow> collect g look ks ps
      | Inr (Some (n, w)) \<Rightarrow> collect g look ks (AList.update n w ps))"

text \<open>A prefix without syntax characters of the pattern language: as a pattern it
  matches itself and nothing else.\<close>

definition literal_pattern :: "string \<Rightarrow> bool" where
  "literal_pattern p = list_all (\<lambda>c. c \<notin> set regexp_syntax_chars) p"

text \<open>
  What a compiler returned, looked at through the store it left: the object a returned
  reference points to, \<open>None\<close> for \<open>undefined\<close> (and for a throw).
\<close>

definition pointee :: "heap \<Rightarrow> jsval \<Rightarrow> obj option" where
  "pointee h v = (case v of JRef r \<Rightarrow> obj_at h r | _ \<Rightarrow> None)"

definition compiled :: "jsval outcome \<Rightarrow> obj option" where
  "compiled m = (case m of (Inr v, h) \<Rightarrow> pointee h v | (Inl e, h) \<Rightarrow> None)"

text \<open>
  \<open>extends h h'\<close>: the store \<open>h'\<close> is the store \<open>h\<close> followed by further objects. Every
  object of \<open>h\<close> is then unchanged in \<open>h'\<close>, and at the same address.
\<close>

definition extends :: "heap \<Rightarrow> heap \<Rightarrow> bool" where
  "extends h h' = (take (length h) h' = h)"

text \<open>
  \<open>newly_allocated h m\<close>: the outcome \<open>m\<close> of a call made in the store \<open>h\<close> is a throw,
  \<open>undefined\<close>, or a reference to an object of the store the call has left that was not
  in \<open>h\<close>.
\<close>

definition newly_allocated :: "heap \<Rightarrow> jsval outcome \<Rightarrow> bool" where
  "newly_allocated h m =
     (case m of
        (Inl e, h') \<Rightarrow> True
      | (Inr v, h') \<Rightarrow>
          (case v of
             JUndefined \<Rightarrow> True
           | JRef r \<Rightarrow> length h \<le> r \<and> r < length h'
           | _ \<Rightarrow> False))"

text \<open>
  The table \<open>createStrokeStyle\<close> implements under a prefix free of syntax characters:
  the option a key is stored as, the value being read through \<open>look\<close>.
\<close>

definition stroke_table :: "runtime \<Rightarrow> string \<Rightarrow> (string \<Rightarrow> jsval) \<Rightarrow> string \<Rightarrow> (string \<times> jsval) option" where
  "stroke_table rt p look k =
     (if k = addPrefix p ''strokeColor'' then Some (''color'', normalizeColor rt (look k))
      else if k = addPrefix p ''strokeWidth'' then Some (''width'', look k)
      else if k = addPrefix p ''strokeMiterLimit'' then Some (''miterLimit'', look k)
      else if k = addPrefix p ''strokeCap'' then Some (''lineCap'', look k)
      else if k = addPrefix p ''strokeJoin'' then Some (''lineJoin'', look k)
      else if k = addPrefix p ''strokeDash'' then Some (''lineDash'', look k)
      else if k = addPrefix p ''strokeDashOffset'' then Some (''lineDashOffset'', look k)
      else None)"

text \<open>
  \<open>closed_record h a\<close>: every reference the record at \<open>a\<close> holds points to an object of
  the store \<open>h\<close>. In a running program every reference does.
\<close>

definition closed_record :: "heap \<Rightarrow> addr \<Rightarrow> bool" where
  "closed_record h a =
     list_all (\<lambda>(k, v). case v of JRef r \<Rightarrow> r < length h | _ \<Rightarrow> True) (props_at h a)"

text \<open>
  \<open>apart S n v\<close>: the value \<open>v\<close>, if it is a reference, points to an object below \<open>n\<close>
  that is none of those in \<open>S\<close>.
\<close>

definition apart :: "addr set \<Rightarrow> nat \<Rightarrow> jsval \<Rightarrow> bool" where
  "apart S n v = (case v of JRef r \<Rightarrow> r \<notin> S \<and> r < n | _ \<Rightarrow> True)"

text \<open>The first compiled style if there is one, the second otherwise.\<close>

definition first_of :: "obj option \<Rightarrow> obj option \<Rightarrow> obj option" where
  "first_of x y = (case x of Some ob \<Rightarrow> Some ob | None \<Rightarrow> y)"

text \<open>\<open>has_value h a k v\<close>: the object at \<open>a\<close> has the property \<open>k\<close>, with value \<open>v\<close>.\<close>

definition has_value :: "heap \<Rightarrow> addr \<Rightarrow> string \<Rightarrow> jsval \<Rightarrow> bool" where
  "has_value h a k v = (hasProp h a k \<and> get_prop h a k = v)"

section \<open>Sample stores\<close>

text \<open>Concrete stores at which the theorems below are instantiated.\<close>

definition sample_heap :: heap where
  "sample_heap = [object_literal [(''fillColor'', JStr ''red''), (''strokeWidth'', JNum (Finite 2))]]"

definition compiled_heap :: heap where
  "compiled_heap =
     [\<lparr>klass = Fill, props = [(''color'', JStr ''red'')]\<rparr>,
      \<lparr>klass = Stroke, props = [(''width'', JNum (Finite 1))]\<rparr>,
      \<lparr>klass = Circle, props = [(''radius'', JNum (Finite 5))]\<rparr>,
      \<lparr>klass = Text, props = [(''text'', JStr ''A'')]\<rparr>,
      object_literal
        [(''textFill'', JRef 0), (''textStroke'', JRef 1), (''image'', JRef 2), (''text'', JRef 3),
         (''fillColor'', JStr ''red'')]]"

definition irrelevant_heap :: heap where
  "irrelevant_heap = [object_literal [(''foo'', JNum (Finite 1))]]"

definition styled_heap :: heap where
  "styled_heap =
     [object_literal
        [(''text'', JStr ''A''), (''textFillColor'', JStr ''red''),
         (''fillColor'', JArr [JNum (Finite 0), JNum (Finite 0), JNum (Finite 0), JNum (Finite 1)]),
         (''strokeWidth'', JNum (Finite 2)), (''imageRadius'', JNum (Finite 5))]]"

text \<open>The record \<open>{strokeColor: 'red', strokeCap: 'round'}\<close>.\<close>

definition stroked_heap :: heap where
  "stroked_heap = [object_literal [(''strokeColor'', JStr ''red''), (''strokeCap'', JStr ''round'')]]"

text \<open>The records \<open>{imageSrc: 'marker.png'}\<close> and \<open>{image: 'abc'}\<close>.\<close>

definition icon_heap :: heap where
  "icon_heap = [object_literal [(''imageSrc'', JStr ''marker.png'')]]"

definition bare_image_heap :: heap where
  "bare_image_heap = [object_literal [(''image'', JStr ''abc'')]]"

section \<open>Properties\<close>

lemma hasProp_valid: "hasProp h a k \<Longrightarrow> a < length h"
  by (auto simp: hasProp_def keys_at_def props_at_def obj_at_def split: if_splits)

subsection \<open>The store\<close>

lemma obj_at_append:
  "a < length h \<Longrightarrow> obj_at (h @ xs) a = obj_at h a"
  by (simp add: obj_at_def nth_append)

lemma extends_iff: "extends h h' = (\<exists>xs. h' = h @ xs)"
  unfolding extends_def
proof
  assume "take (length h) h' = h"
  then have "h' = h @ drop (length h) h'" by (metis append_take_drop_id)
  then show "\<exists>xs. h' = h @ xs" ..
next
  assume "\<exists>xs. h' = h @ xs"
  then show "take (length h) h' = h" by auto
qed

lemma extends_refl [simp]: "extends h h"
  by (simp add: extends_def)

lemma extends_append [simp]: "extends h (h @ xs)"
  by (simp add: extends_def)

lemma extends_trans: "extends h h1 \<Longrightarrow> extends h1 h2 \<Longrightarrow> extends h h2"
  by (auto simp: extends_iff)

lemma extends_length: "extends h h' \<Longrightarrow> length h \<le> length h'"
  by (auto simp: extends_iff)

lemma obj_at_prefix:
  "extends h h' \<Longrightarrow> a < length h \<Longrightarrow> obj_at h' a = obj_at h a"
  by (auto simp: extends_iff obj_at_append)

lemma props_at_prefix:
  "extends h h' \<Longrightarrow> a < length h \<Longrightarrow> props_at h' a = props_at h a"
  by (simp add: props_at_def obj_at_prefix)

lemma get_prop_prefix:
  "extends h h' \<Longrightarrow> a < length h \<Longrightarrow> get_prop h' a k = get_prop h a k"
  by (simp add: get_prop_def props_at_prefix)

lemma keys_at_prefix:
  "extends h h' \<Longrightarrow> a < length h \<Longrightarrow> keys_at h' a = keys_at h a"
  by (simp add: keys_at_def props_at_prefix)

lemma props_at_dangling: "\<not> a < length h \<Longrightarrow> props_at h a = []"
  by (simp add: props_at_def obj_at_def)

lemma props_at_fresh [simp]: "props_at (h @ [ob]) (length h) = props ob"
  by (simp add: props_at_def obj_at_def)

lemma length_set_prop [simp]: "length (set_prop h a k v) = length h"
  by (simp add: set_prop_def)

lemma props_at_set_prop_other:
  "b \<noteq> a \<Longrightarrow> props_at (set_prop h a k v) b = props_at h b"
  by (simp add: props_at_def obj_at_def set_prop_def)

lemma get_prop_set_prop_other:
  "b \<noteq> a \<Longrightarrow> get_prop (set_prop h a k v) b = get_prop h b"
  by (rule ext) (simp add: get_prop_def props_at_set_prop_other)

lemma get_prop_set_prop_same:
  "a < length h \<Longrightarrow> get_prop (set_prop h a k v) a k = v"
  by (simp add: get_prop_def set_prop_def props_at_def obj_at_def update_conv')

lemma get_prop_set_prop_other_key:
  "k' \<noteq> k \<Longrightarrow> get_prop (set_prop h a k v) a k' = get_prop h a k'"
  by (simp add: get_prop_def set_prop_def props_at_def obj_at_def update_conv')

lemma obj_at_set_prop_other:
  "b \<noteq> a \<Longrightarrow> obj_at (set_prop h a k v) b = obj_at h b"
  by (simp add: set_prop_def obj_at_def)

lemma keys_at_set_prop_present:
  "hasProp h a k \<Longrightarrow> keys_at (set_prop h a k v) a = keys_at h a"
  by (auto simp: hasProp_def keys_at_def set_prop_def props_at_def obj_at_def update_keys
      split: if_splits)

lemma prefix_set_prop:
  "extends h h1 \<Longrightarrow> length h \<le> a \<Longrightarrow> extends h (set_prop h1 a k v)"
  by (auto simp: extends_iff set_prop_def list_update_append)

subsection \<open>The loops\<close>

lemma fill_iteratee_entry: "fill_iteratee rt p = entry_iteratee (fill_entry rt p)"
  by (intro ext)
    (simp add: fill_iteratee_def entry_iteratee_def fill_entry_def Let_def split: sum.splits)

lemma stroke_iteratee_entry: "stroke_iteratee rt p = entry_iteratee (stroke_entry rt p)"
  by (intro ext)
    (simp add: stroke_iteratee_def entry_iteratee_def stroke_entry_def Let_def split: sum.splits)

lemma entry_iteratee_Inl:
  "g v k = Inl e \<Longrightarrow> entry_iteratee g s v k h = (Inl e, h)"
  by (simp add: entry_iteratee_def)

lemma entry_iteratee_None:
  "g v k = Inr None \<Longrightarrow> entry_iteratee g s v k h = (Inr s, h)"
  by (simp add: entry_iteratee_def)

lemma entry_iteratee_Some:
  "g v k = Inr (Some (n, w)) \<Longrightarrow> entry_iteratee g s v k h = (Inr s, set_prop h s n w)"
  by (simp add: entry_iteratee_def)

lemma reduce_keys_entry:
  "acc < length h \<Longrightarrow> acc \<noteq> a \<Longrightarrow>
   reduce_keys (entry_iteratee g) a ks acc h =
     (case collect g (get_prop h a) ks (props (h ! acc)) of
        (None, ps) \<Rightarrow> (Inr acc, h[acc := (h ! acc)\<lparr>props := ps\<rparr>])
      | (Some e, ps) \<Rightarrow> (Inl e, h[acc := (h ! acc)\<lparr>props := ps\<rparr>]))"
proof (induction ks arbitrary: h)
  case Nil
  then show ?case by simp
next
  case (Cons k ks)
  show ?case
  proof (cases "g (get_prop h a k) k")
    case (Inl e)
    then show ?thesis by (simp add: entry_iteratee_Inl)
  next
    case (Inr r)
    show ?thesis
    proof (cases r)
      case None
      with Inr Cons show ?thesis by (simp add: entry_iteratee_None)
    next
      case (Some nw)
      obtain n w where nw: "nw = (n, w)" by (cases nw)
      let ?h = "set_prop h acc n w"
      have len: "acc < length ?h" using Cons.prems by simp
      have look: "get_prop ?h a = get_prop h a"
        using Cons.prems by (simp add: get_prop_set_prop_other)
      have at: "props (?h ! acc) = AList.update n w (props (h ! acc))"
        using Cons.prems by (simp add: set_prop_def)
      have upd: "?h[acc := (?h ! acc)\<lparr>props := ps\<rparr>] = h[acc := (h ! acc)\<lparr>props := ps\<rparr>]" for ps
        using Cons.prems by (simp add: set_prop_def)
      obtain eo ps where c:
        "collect g (get_prop h a) ks (AList.update n w (props (h ! acc))) = (eo, ps)"
        by (cases "collect g (get_prop h a) ks (AList.update n w (props (h ! acc)))")
      have step: "g (get_prop h a k) k = Inr (Some (n, w))" using Inr Some nw by simp
      have it: "entry_iteratee g acc (get_prop h a k) k h = (Inr acc, ?h)"
        using step by (rule entry_iteratee_Some)
      show ?thesis
        using Cons.IH [OF len Cons.prems(2)] c
        by (cases eo) (simp_all add: it step look at upd)
    qed
  qed
qed

lemma reduce_fresh:
  "reduce a (entry_iteratee g) (length h) (h @ [object_literal []]) =
     (case collect g (get_prop h a) (keys_at h a) [] of
        (None, ps) \<Rightarrow> (Inr (length h), h @ [object_literal ps])
      | (Some e, ps) \<Rightarrow> (Inl e, h @ [object_literal ps]))"
proof (cases "a < length h")
  case True
  let ?h1 = "h @ [object_literal []]"
  have pre: "extends h ?h1" by simp
  have look: "get_prop ?h1 a = get_prop h a"
    using True by (intro ext) (simp add: get_prop_prefix [OF pre])
  have keys: "keys_at ?h1 a = keys_at h a"
    using True by (simp add: keys_at_prefix [OF pre])
  have neq: "length h \<noteq> a" using True by simp
  have len: "length h < length ?h1" by simp
  have at: "props (?h1 ! length h) = []" by (simp add: object_literal_def)
  have upd: "?h1[length h := (?h1 ! length h)\<lparr>props := ps\<rparr>] = h @ [object_literal ps]" for ps
    by (simp add: object_literal_def)
  obtain eo ps where c: "collect g (get_prop h a) (keys_at h a) [] = (eo, ps)"
    by (cases "collect g (get_prop h a) (keys_at h a) []")
  show ?thesis
    unfolding reduce_def keys reduce_keys_entry [OF len neq] look at
    using c by (cases eo) (simp_all only: upd prod.case option.case)
next
  case False
  then have k1: "keys_at h a = []" by (simp add: keys_at_def props_at_dangling)
  have k2: "keys_at (h @ [object_literal []]) a = []"
  proof (cases "a = length h")
    case True
    then show ?thesis by (simp add: keys_at_def object_literal_def)
  next
    case ne: False
    with False have "\<not> a < length (h @ [object_literal []])" by simp
    then show ?thesis by (simp add: keys_at_def props_at_dangling del: length_append)
  qed
  show ?thesis by (simp add: reduce_def k1 k2)
qed

lemma isEmpty_fresh_object [simp]:
  "isEmpty (h @ [object_literal ps]) (JRef (length h)) = (ps = [])"
  by (simp add: isEmpty_def is_nullish_def is_number_def has_zero_length_def no_own_keys_def
      obj_at_def object_literal_def)

lemma construct_fresh:
  "construct c (length h) (h @ [object_literal ps]) =
     (Inr (JRef (Suc (length h))), h @ [object_literal ps, \<lparr>klass = c, props = ps\<rparr>])"
  by (simp add: construct_def alloc_def object_literal_def)

lemma createFillStyle_closed:
  "createFillStyle rt h a p =
     (if instance_of h (get_prop h a (addPrefix p ''fill'')) Fill
      then (Inr (get_prop h a (addPrefix p ''fill'')), h)
      else
        (case collect (fill_entry rt p) (get_prop h a) (keys_at h a) [] of
           (Some e, ps) \<Rightarrow> (Inl e, h @ [object_literal ps])
         | (None, ps) \<Rightarrow>
             if ps = [] then (Inr JUndefined, h @ [object_literal []])
             else (Inr (JRef (Suc (length h))), h @ [object_literal ps, \<lparr>klass = Fill, props = ps\<rparr>])))"
  by (simp add: createFillStyle_def alloc_def fill_iteratee_entry reduce_fresh construct_fresh
      split: prod.splits option.splits)

lemma createStrokeStyle_closed:
  "createStrokeStyle rt h a p =
     (if instance_of h (get_prop h a (addPrefix p ''stroke'')) Stroke
      then (Inr (get_prop h a (addPrefix p ''stroke'')), h)
      else
        (case collect (stroke_entry rt p) (get_prop h a) (keys_at h a) [] of
           (Some e, ps) \<Rightarrow> (Inl e, h @ [object_literal ps])
         | (None, ps) \<Rightarrow>
             if ps = [] then (Inr JUndefined, h @ [object_literal []])
             else (Inr (JRef (Suc (length h))), h @ [object_literal ps, \<lparr>klass = Stroke, props = ps\<rparr>])))"
  by (simp add: createStrokeStyle_def alloc_def stroke_iteratee_entry reduce_fresh construct_fresh
      split: prod.splits option.splits)

subsection \<open>Patterns without syntax characters\<close>

lemma rx_parse_literal: "literal_pattern p \<Longrightarrow> rx_parse p = Some (map Lit p)"
  by (induction p) (auto simp: literal_pattern_def rx_atom_of_def regexp_syntax_chars_def)

lemma rx_match_here_literal: "rx_match_here (map Lit p) b (p @ s) = Some s"
  by (induction p arbitrary: b) auto

lemma rx_remove_first_match:
  "rx_match_here as b s = Some rest \<Longrightarrow> rx_remove_first as b s = rest"
  by (cases s) simp_all

lemma rx_remove_first_literal: "rx_remove_first (map Lit p) b (p @ s) = s"
  by (rule rx_remove_first_match) (rule rx_match_here_literal)

lemma replace_RegExp_empty_literal:
  "literal_pattern p \<Longrightarrow> replace_RegExp_empty rt p (p @ s) = Inr s"
  by (simp add: replace_RegExp_empty_def rx_parse_literal rx_remove_first_literal)

lemma literal_pattern_append [simp]:
  "literal_pattern (p @ q) = (literal_pattern p \<and> literal_pattern q)"
  by (simp add: literal_pattern_def)

lemma literal_addPrefix_fill: "literal_pattern p \<Longrightarrow> literal_pattern (addPrefix p ''fill'')"
  by (simp add: addPrefix_def upperFirst_def toUpperCase_char_def)
    (simp add: literal_pattern_def regexp_syntax_chars_def)

lemma literal_addPrefix_stroke: "literal_pattern p \<Longrightarrow> literal_pattern (addPrefix p ''stroke'')"
  by (simp add: addPrefix_def upperFirst_def toUpperCase_char_def)
    (simp add: literal_pattern_def regexp_syntax_chars_def)

lemma addPrefix_fillColor: "addPrefix p ''fillColor'' = addPrefix p ''fill'' @ ''Color''"
  by (simp add: addPrefix_def upperFirst_def)

lemma addPrefix_stroke_keys:
  "addPrefix p ''strokeColor'' = addPrefix p ''stroke'' @ ''Color''"
  "addPrefix p ''strokeWidth'' = addPrefix p ''stroke'' @ ''Width''"
  "addPrefix p ''strokeMiterLimit'' = addPrefix p ''stroke'' @ ''MiterLimit''"
  "addPrefix p ''strokeCap'' = addPrefix p ''stroke'' @ ''Cap''"
  "addPrefix p ''strokeJoin'' = addPrefix p ''stroke'' @ ''Join''"
  "addPrefix p ''strokeDash'' = addPrefix p ''stroke'' @ ''Dash''"
  "addPrefix p ''strokeDashOffset'' = addPrefix p ''stroke'' @ ''DashOffset''"
  by (simp_all add: addPrefix_def upperFirst_def)

lemma lowerFirst_names:
  "lowerFirst ''Color'' = ''color''"
  "lowerFirst ''Width'' = ''width''"
  "lowerFirst ''MiterLimit'' = ''miterLimit''"
  by (simp_all add: lowerFirst_def toLowerCase_char_def)

lemma fill_entry_literal:
  "literal_pattern p \<Longrightarrow>
   fill_entry rt p v k =
     Inr (if k = addPrefix p ''fillColor'' then Some (''color'', normalizeColor rt v) else None)"
  by (simp add: fill_entry_def fill_keys_def addPrefix_fillColor
      replace_RegExp_empty_literal literal_addPrefix_fill lowerFirst_names)

text \<open>The table of \<open>createStrokeStyle\<close>: flat key (without prefix) and option name.\<close>

lemma stroke_option_name_literal:
  assumes "literal_pattern p"
  shows "stroke_option_name rt p (addPrefix p ''strokeColor'') = Inr ''color''"
    and "stroke_option_name rt p (addPrefix p ''strokeWidth'') = Inr ''width''"
    and "stroke_option_name rt p (addPrefix p ''strokeMiterLimit'') = Inr ''miterLimit''"
    and "stroke_option_name rt p (addPrefix p ''strokeCap'') = Inr ''lineCap''"
    and "stroke_option_name rt p (addPrefix p ''strokeJoin'') = Inr ''lineJoin''"
    and "stroke_option_name rt p (addPrefix p ''strokeDash'') = Inr ''lineDash''"
    and "stroke_option_name rt p (addPrefix p ''strokeDashOffset'') = Inr ''lineDashOffset''"
  using assms
  by (simp_all add: stroke_option_name_def addPrefix_stroke_keys
      replace_RegExp_empty_literal literal_addPrefix_stroke lowerFirst_names)

lemma stroke_entry_literal:
  assumes "literal_pattern p"
  shows "stroke_entry rt p v k =
     Inr (if k = addPrefix p ''strokeColor'' then Some (''color'', normalizeColor rt v)
          else if k = addPrefix p ''strokeWidth'' then Some (''width'', v)
          else if k = addPrefix p ''strokeMiterLimit'' then Some (''miterLimit'', v)
          else if k = addPrefix p ''strokeCap'' then Some (''lineCap'', v)
          else if k = addPrefix p ''strokeJoin'' then Some (''lineJoin'', v)
          else if k = addPrefix p ''strokeDash'' then Some (''lineDash'', v)
          else if k = addPrefix p ''strokeDashOffset'' then Some (''lineDashOffset'', v)
          else None)"
proof (cases "k \<in> set (stroke_keys p)")
  case False
  then show ?thesis by (auto simp: stroke_entry_def stroke_keys_def)
next
  case True
  then consider "k = addPrefix p ''strokeColor''" | "k = addPrefix p ''strokeWidth''"
    | "k = addPrefix p ''strokeMiterLimit''" | "k = addPrefix p ''strokeCap''"
    | "k = addPrefix p ''strokeJoin''" | "k = addPrefix p ''strokeDash''"
    | "k = addPrefix p ''strokeDashOffset''"
    by (auto simp: stroke_keys_def)
  then show ?thesis
    using True
    by cases (simp_all add: stroke_entry_def stroke_option_name_literal [OF assms],
        simp_all add: addPrefix_stroke_keys)
qed

subsection \<open>What a loop gathers\<close>

lemma collect_total:
  "(\<And>v k. \<exists>r. g v k = Inr r) \<Longrightarrow> fst (collect g look ks ps) = None"
proof (induction ks arbitrary: ps)
  case Nil
  then show ?case by simp
next
  case (Cons k ks)
  from Cons.prems obtain r where r: "g (look k) k = Inr r" by blast
  show ?case
    using r Cons.IH [OF Cons.prems] by (cases r) auto
qed

lemma collect_irrelevant:
  "(\<And>k. k \<in> set ks \<Longrightarrow> g (look k) k = Inr None) \<Longrightarrow> collect g look ks ps = (None, ps)"
  by (induction ks arbitrary: ps) auto

text \<open>Every option gathered was there at the start or is the entry of a key visited.\<close>

lemma collect_entries:
  "(n, w) \<in> set (snd (collect g look ks ps)) \<Longrightarrow>
   (n, w) \<in> set ps \<or> (\<exists>k \<in> set ks. g (look k) k = Inr (Some (n, w)))"
proof (induction ks arbitrary: ps)
  case Nil
  then show ?case by simp
next
  case (Cons k ks)
  show ?case
  proof (cases "g (look k) k")
    case (Inl e)
    with Cons.prems show ?thesis by simp
  next
    case (Inr r)
    show ?thesis
    proof (cases r)
      case None
      with Inr Cons show ?thesis by auto
    next
      case (Some nw)
      obtain n' w' where nw: "nw = (n', w')" by (cases nw)
      have "(n, w) \<in> set (snd (collect g look ks (AList.update n' w' ps)))"
        using Cons.prems Inr Some nw by simp
      from Cons.IH [OF this]
      have "(n, w) \<in> set (AList.update n' w' ps) \<or>
            (\<exists>k \<in> set ks. g (look k) k = Inr (Some (n, w)))" .
      moreover have "set (AList.update n' w' ps) \<subseteq> insert (n', w') (set ps)"
        by (induction ps) auto
      ultimately show ?thesis using Inr Some nw by auto
    qed
  qed
qed

text \<open>A loop that gathers nothing has met no key with an entry.\<close>

lemma update_not_Nil [simp]: "AList.update n w ps \<noteq> []"
  by (cases ps) auto

lemma collect_not_Nil: "ps \<noteq> [] \<Longrightarrow> snd (collect g look ks ps) \<noteq> []"
proof (induction ks arbitrary: ps)
  case Nil
  then show ?case by simp
next
  case (Cons k ks)
  then show ?case
    by (cases "g (look k) k") (auto split: option.splits)
qed

lemma collect_Nil_iff:
  "fst (collect g look ks []) = None \<Longrightarrow>
   (snd (collect g look ks []) = []) = (\<forall>k \<in> set ks. g (look k) k = Inr None)"
proof (induction ks)
  case Nil
  then show ?case by simp
next
  case (Cons k ks)
  show ?case
  proof (cases "g (look k) k")
    case (Inl e)
    with Cons.prems show ?thesis by simp
  next
    case (Inr r)
    show ?thesis
    proof (cases r)
      case None
      with Inr Cons show ?thesis by auto
    next
      case (Some nw)
      obtain n w where nw: "nw = (n, w)" by (cases nw)
      have "snd (collect g look ks (AList.update n w [])) \<noteq> []"
        by (rule collect_not_Nil) simp
      with Inr Some nw show ?thesis by simp
    qed
  qed
qed

text \<open>
  The option stored under a name, when the entries are given by a table from keys to
  names: it is the (possibly converted) value of the last key visited that maps to the
  name.
\<close>

lemma map_of_collect:
  assumes "\<And>k. g (look k) k = Inr (e k)"
  shows "map_of (snd (collect g look ks ps)) n =
     (case filter (\<lambda>k. \<exists>w. e k = Some (n, w)) (rev ks) of
        [] \<Rightarrow> map_of ps n
      | k # _ \<Rightarrow> map_option snd (e k))"
proof (induction ks arbitrary: ps)
  case Nil
  then show ?case by simp
next
  case (Cons k ks)
  show ?case
  proof (cases "e k")
    case None
    then show ?thesis using Cons [of ps] assms [of k] by (simp split: list.splits)
  next
    case (Some nw)
    obtain n' w' where nw: "nw = (n', w')" by (cases nw)
    show ?thesis
      using Cons [of "AList.update n' w' ps"] assms [of k] Some nw
      by (auto simp: update_conv' split: list.splits)
  qed
qed

subsection \<open>The compilers only add objects to the store\<close>

lemma extends_set_prop:
  "extends h h1 \<Longrightarrow> length h \<le> a \<Longrightarrow> extends h (set_prop h1 a k v)"
  by (rule prefix_set_prop)

lemma extends_construct: "extends h h1 \<Longrightarrow> extends h (snd (construct c r h1))"
  by (auto simp: extends_iff construct_def alloc_def)

lemma extends_construct_image:
  "extends h h1 \<Longrightarrow> extends h (snd (construct_image rt c r h1))"
  by (auto simp: construct_image_def extends_construct split: option.splits)

lemma extends_createFillStyle: "extends h (snd (createFillStyle rt h a p))"
  by (simp add: createFillStyle_closed split: prod.splits option.splits)

lemma extends_createStrokeStyle: "extends h (snd (createStrokeStyle rt h a p))"
  by (simp add: createStrokeStyle_closed split: prod.splits option.splits)

lemma extends_Inr [simp]: "extends h (snd (Inr v, h1)) = extends h h1"
  by simp

lemma extends_if:
  "(c \<Longrightarrow> extends h (snd x)) \<Longrightarrow> (\<not> c \<Longrightarrow> extends h (snd y)) \<Longrightarrow>
   extends h (snd (if c then x else y))"
  by simp

lemma extends_more: "extends h h1 \<Longrightarrow> extends h (h1 @ xs)"
  by (auto simp: extends_iff)

lemma extends_fill: "extends h h1 \<Longrightarrow> extends h (snd (createFillStyle rt h1 a p))"
  by (rule extends_trans [OF _ extends_createFillStyle])

lemma extends_stroke: "extends h h1 \<Longrightarrow> extends h (snd (createStrokeStyle rt h1 a p))"
  by (rule extends_trans [OF _ extends_createStrokeStyle])

lemma extends_or_else:
  "extends h (snd m) \<Longrightarrow> (\<And>h1. extends h h1 \<Longrightarrow> extends h (snd (f h1))) \<Longrightarrow>
   extends h (snd (or_else m f))"
  by (cases m) (auto simp: or_else_def split: sum.splits)

lemma extends_bind_outcome:
  "extends h (snd m) \<Longrightarrow> (\<And>x h1. extends h h1 \<Longrightarrow> extends h (snd (f x h1))) \<Longrightarrow>
   extends h (snd (bind_outcome m f))"
  by (cases m) (auto simp: bind_outcome_def split: sum.splits)

lemma length_foldl_set_prop [simp]:
  "length (foldl (\<lambda>h' x. set_prop h' t (key x) (val h' x)) h1 xs) = length h1"
  by (induction xs arbitrary: h1) auto

lemma extends_foldl_set_prop:
  "extends h h1 \<Longrightarrow> length h \<le> t \<Longrightarrow>
   extends h (foldl (\<lambda>h' x. set_prop h' t (key x) (val h' x)) h1 xs)"
  by (induction xs arbitrary: h1) (auto intro: extends_set_prop)

lemma length_assign [simp]: "length (assign h1 t src) = length h1"
  unfolding assign_def
  by (rule length_foldl_set_prop [where key = "\<lambda>x. x" and val = "\<lambda>h' x. get_prop h' src x"])

lemma length_pick_heap [simp]:
  "length (foldl (\<lambda>h' key. set_prop h' t key (get_prop h' ob key)) h1 ks) = length h1"
  by (rule length_foldl_set_prop [where key = "\<lambda>x. x" and val = "\<lambda>h' x. get_prop h' ob x"])

lemma extends_pick_heap:
  "extends h h1 \<Longrightarrow> length h \<le> t \<Longrightarrow>
   extends h (foldl (\<lambda>h' key. set_prop h' t key (get_prop h' ob key)) h1 ks)"
  by (rule extends_foldl_set_prop [where key = "\<lambda>x. x" and val = "\<lambda>h' x. get_prop h' ob x"])

lemma extends_assign:
  "extends h h1 \<Longrightarrow> length h \<le> t \<Longrightarrow> extends h (assign h1 t src)"
  unfolding assign_def
  by (rule extends_foldl_set_prop [where key = "\<lambda>x. x" and val = "\<lambda>h' x. get_prop h' src x"])

lemma length_set_text_plain_options [simp]:
  "length (set_text_plain_options h1 t a) = length h1"
  unfolding set_text_plain_options_def
  using length_foldl_set_prop [where key = fst and val = "\<lambda>h' x. get_prop h' a (snd x)"
      and xs = text_plain_options and ?h1.0 = h1 and t = t]
  by (simp add: case_prod_unfold)

lemma extends_set_text_plain_options:
  "extends h h1 \<Longrightarrow> length h \<le> t \<Longrightarrow> extends h (set_text_plain_options h1 t a)"
  unfolding set_text_plain_options_def
  using extends_foldl_set_prop [where key = fst and val = "\<lambda>h' x. get_prop h' a (snd x)"
      and xs = text_plain_options and h = h and ?h1.0 = h1 and t = t]
  by (simp add: case_prod_unfold)

lemma extends_pair: "extends h h1 \<Longrightarrow> extends h (snd (x, h1))"
  by simp

lemmas extends_intros =
  extends_pair extends_if extends_bind_outcome extends_or_else extends_fill extends_stroke
  extends_construct extends_construct_image extends_set_prop extends_assign
  extends_set_text_plain_options
  extends_pick_heap extends_more

lemma extends_createImageStyle: "extends h (snd (createImageStyle rt h a))"
proof -
  obtain Ctor options where ic: "image_ctor h a = (Ctor, options)"
    by (cases "image_ctor h a")
  show ?thesis
    unfolding createImageStyle_def ic alloc_def Let_def prod.case
    by (intro extends_intros; simp)
qed

lemma extends_createTextStyle: "extends h (snd (createTextStyle rt h a))"
  unfolding createTextStyle_def pick_def alloc_def Let_def prod.case
  by (intro extends_intros; simp)

subsection \<open>What a compiler returns is in the record or new\<close>

lemma newly_allocated_throw [simp]: "newly_allocated h (Inl e, h1)"
  by (simp add: newly_allocated_def)

lemma newly_allocated_undefined [simp]: "newly_allocated h (Inr JUndefined, h1)"
  by (simp add: newly_allocated_def)

lemma newly_allocated_construct:
  "extends h h1 \<Longrightarrow> newly_allocated h (construct c r h1)"
  by (auto simp: newly_allocated_def construct_def alloc_def dest: extends_length)

lemma newly_allocated_construct_image:
  "extends h h1 \<Longrightarrow> newly_allocated h (construct_image rt c r h1)"
  by (simp add: construct_image_def newly_allocated_construct split: option.splits)

lemma newly_allocated_if:
  "(c \<Longrightarrow> newly_allocated h x) \<Longrightarrow> (\<not> c \<Longrightarrow> newly_allocated h y) \<Longrightarrow>
   newly_allocated h (if c then x else y)"
  by simp

lemma newly_allocated_bind_outcome:
  "extends h (snd m) \<Longrightarrow> (\<And>x h1. extends h h1 \<Longrightarrow> newly_allocated h (f x h1)) \<Longrightarrow>
   newly_allocated h (bind_outcome m f)"
  by (cases m) (auto simp: bind_outcome_def split: sum.splits)

lemmas newly_allocated_intros =
  newly_allocated_if newly_allocated_bind_outcome newly_allocated_construct
  newly_allocated_construct_image newly_allocated_undefined newly_allocated_throw

lemma newly_allocated_createFillStyle:
  "\<not> instance_of h (get_prop h a (addPrefix p ''fill'')) Fill \<Longrightarrow>
   newly_allocated h (createFillStyle rt h a p)"
  by (simp add: createFillStyle_closed newly_allocated_def split: prod.splits option.splits)

lemma newly_allocated_createStrokeStyle:
  "\<not> instance_of h (get_prop h a (addPrefix p ''stroke'')) Stroke \<Longrightarrow>
   newly_allocated h (createStrokeStyle rt h a p)"
  by (simp add: createStrokeStyle_closed newly_allocated_def split: prod.splits option.splits)

lemma newly_allocated_createImageStyle:
  assumes "\<not> instance_of_ImageStyle h (get_prop h a ''image'')"
  shows "newly_allocated h (createImageStyle rt h a)"
proof -
  obtain Ctor options where ic: "image_ctor h a = (Ctor, options)"
    by (cases "image_ctor h a")
  show ?thesis
    unfolding createImageStyle_def ic alloc_def Let_def prod.case
    using assms
    by (intro newly_allocated_intros extends_intros; simp)
qed

lemma newly_allocated_createTextStyle:
  assumes "\<not> instance_of h (get_prop h a ''text'') Text"
  shows "newly_allocated h (createTextStyle rt h a)"
  unfolding createTextStyle_def pick_def alloc_def Let_def prod.case
  using assms
  by (intro newly_allocated_intros extends_intros; simp)

lemma newly_allocated_not_old:
  "newly_allocated h m \<Longrightarrow> m = (Inr (JRef r), h') \<Longrightarrow> r < length h \<Longrightarrow> False"
  by (auto simp: newly_allocated_def)

section \<open>Claims about style identity\<close>

text \<open>
  Claim C4. \<open>getStyleId\<close> and \<open>setStyleId\<close> throw \<open>Error('Illegal style argument')\<close>
  if and only if the style object has no \<open>id\<close> property. When it has one, \<open>getStyleId\<close>
  returns its value, and \<open>setStyleId\<close> returns the same object after assigning the new
  id: the \<open>id\<close> then reads as the value given, the keys of the object, its other
  properties and all other objects are as before. On the error path the store is
  unchanged.
\<close>

theorem styleId_accessors:
  "(\<not> hasProp h style ''id'' \<longrightarrow>
      getStyleId h style = Inl (Error ''Illegal style argument'') \<and>
      setStyleId h style styleId = (Inl (Error ''Illegal style argument''), h)) \<and>
   (hasProp h style ''id'' \<longrightarrow>
      getStyleId h style = Inr (get_prop h style ''id'') \<and>
      fst (setStyleId h style styleId) = Inr (JRef style) \<and>
      get_prop (snd (setStyleId h style styleId)) style ''id'' = styleId \<and>
      keys_at (snd (setStyleId h style styleId)) style = keys_at h style \<and>
      (\<forall>k. k \<noteq> ''id'' \<longrightarrow>
         get_prop (snd (setStyleId h style styleId)) style k = get_prop h style k) \<and>
      (\<forall>b. b \<noteq> style \<longrightarrow> obj_at (snd (setStyleId h style styleId)) b = obj_at h b)) \<and>
   ((\<exists>e. getStyleId h style = Inl e) = (\<not> hasProp h style ''id'')) \<and>
   ((\<exists>e. fst (setStyleId h style styleId) = Inl e) = (\<not> hasProp h style ''id''))"
proof (cases "hasProp h style ''id''")
  case True
  then have valid: "style < length h" by (rule hasProp_valid)
  from True valid show ?thesis
    by (simp add: getStyleId_def setStyleId_def get_prop_set_prop_same
        get_prop_set_prop_other_key keys_at_set_prop_present obj_at_set_prop_other)
next
  case False
  then show ?thesis by (simp add: getStyleId_def setStyleId_def)
qed

theorem styleId_accessors_witness:
  "hasProp [object_literal [(''id'', JNull)]] 0 ''id'' \<and>
   getStyleId [object_literal [(''id'', JNull)]] 0 = Inr JNull \<and>
   setStyleId [object_literal [(''id'', JNull)]] 0 (JStr ''s1'') =
     (Inr (JRef 0), [object_literal [(''id'', JStr ''s1'')]]) \<and>
   \<not> hasProp [object_literal [(''name'', JNull)]] 0 ''id'' \<and>
   getStyleId [object_literal [(''name'', JNull)]] 0 = Inl (Error ''Illegal style argument'') \<and>
   setStyleId [object_literal [(''name'', JNull)]] 0 (JStr ''s1'') =
     (Inl (Error ''Illegal style argument''), [object_literal [(''name'', JNull)]])"
  using styleId_accessors [of "[object_literal [(''id'', JNull)]]" 0 "JStr ''s1''"]
    styleId_accessors [of "[object_literal [(''name'', JNull)]]" 0 "JStr ''s1''"]
  by (simp add: hasProp_def keys_at_def props_at_def obj_at_def object_literal_def
      get_prop_def setStyleId_def set_prop_def)

text \<open>
  Claim C10. For a style object with an \<open>id\<close> property, \<open>initializeStyle\<close> returns that
  same object. If the id was \<open>null\<close> or \<open>undefined\<close>, it is afterwards the
  \<open>defaultStyleId\<close> when that is truthy and the generated uuid otherwise, and in both
  cases not \<open>null\<close> or \<open>undefined\<close>; if the id was set already, nothing is written.
  For an object without an \<open>id\<close> property \<open>initializeStyle\<close> throws, and writes
  nothing.
\<close>

theorem initializeStyle_assigns_id:
  "(hasProp h style ''id'' \<longrightarrow>
      fst (initializeStyle uuid h style defaultStyleId) = Inr (JRef style) \<and>
      (is_nullish (get_prop h style ''id'') \<longrightarrow>
         get_prop (snd (initializeStyle uuid h style defaultStyleId)) style ''id'' =
           (if truthy defaultStyleId then defaultStyleId else JStr uuid) \<and>
         \<not> is_nullish (get_prop (snd (initializeStyle uuid h style defaultStyleId)) style ''id'')) \<and>
      (\<not> is_nullish (get_prop h style ''id'') \<longrightarrow>
         snd (initializeStyle uuid h style defaultStyleId) = h)) \<and>
   (\<not> hasProp h style ''id'' \<longrightarrow>
      initializeStyle uuid h style defaultStyleId = (Inl (Error ''Illegal style argument''), h))"
proof (cases "hasProp h style ''id''")
  case True
  then have valid: "style < length h" by (rule hasProp_valid)
  have nn: "\<not> is_nullish (if truthy defaultStyleId then defaultStyleId else JStr uuid)"
    by (cases defaultStyleId) (auto simp: is_nullish_def)
  from True valid nn show ?thesis
    by (simp add: initializeStyle_def getStyleId_def setStyleId_def get_prop_set_prop_same)
next
  case False
  then show ?thesis by (simp add: initializeStyle_def getStyleId_def)
qed

theorem initializeStyle_assigns_id_witness:
  "initializeStyle ''u-1'' [object_literal [(''id'', JUndefined)]] 0 JUndefined =
     (Inr (JRef 0), [object_literal [(''id'', JStr ''u-1'')]]) \<and>
   initializeStyle ''u-1'' [object_literal [(''id'', JUndefined)]] 0 (JStr ''main'') =
     (Inr (JRef 0), [object_literal [(''id'', JStr ''main'')]]) \<and>
   initializeStyle ''u-1'' [object_literal [(''id'', JNum (Finite 7))]] 0 (JStr ''main'') =
     (Inr (JRef 0), [object_literal [(''id'', JNum (Finite 7))]]) \<and>
   initializeStyle ''u-1'' [object_literal []] 0 (JStr ''main'') =
     (Inl (Error ''Illegal style argument''), [object_literal []])"
  using initializeStyle_assigns_id [of "[object_literal [(''id'', JUndefined)]]" 0 "''u-1''" JUndefined]
    initializeStyle_assigns_id [of "[object_literal [(''id'', JUndefined)]]" 0 "''u-1''" "JStr ''main''"]
    initializeStyle_assigns_id [of "[object_literal [(''id'', JNum (Finite 7))]]" 0 "''u-1''" "JStr ''main''"]
    initializeStyle_assigns_id [of "[object_literal []]" 0 "''u-1''" "JStr ''main''"]
  by (simp add: hasProp_def keys_at_def props_at_def obj_at_def object_literal_def
      get_prop_def setStyleId_def set_prop_def initializeStyle_def getStyleId_def is_nullish_def)

section \<open>Claims about the fill and stroke compilers\<close>

lemma isEmpty_instance:
  "obj_at h r = Some ob \<Longrightarrow> klass ob \<noteq> Object \<Longrightarrow> \<not> isEmpty h (JRef r)"
  by (simp add: isEmpty_def is_nullish_def is_number_def has_zero_length_def no_own_keys_def)

lemma instance_of_ImageStyle_not_empty:
  "instance_of_ImageStyle h v \<Longrightarrow> \<not> isEmpty h v"
  by (cases v)
    (auto simp: instance_of_ImageStyle_def instance_of_def isEmpty_instance
      split: option.splits)

lemma instance_of_not_nullish: "instance_of h v c \<Longrightarrow> \<not> is_nullish v"
  by (cases v) (auto simp: instance_of_def is_nullish_def)

text \<open>
  Claim C2, as the code has it. None of the four sub-style compilers writes to the
  record it is given, nor to any other object that existed before the call: the store a
  compiler leaves is the store it found, followed by the objects it allocated. So nothing
  is cached on the record. A compiler that does not find an instance of its class under
  its compiled key throws, returns \<open>undefined\<close> or returns an object it has allocated
  itself; and an object it returns that existed before the call is the instance the
  record holds under the compiled key, which the caller put there, and nothing has been
  allocated then.
\<close>

theorem compilers_do_not_write_to_the_record:
  "(\<forall>h' \<in> {snd (createFillStyle rt h vlStyle prefix), snd (createStrokeStyle rt h vlStyle prefix),
             snd (createImageStyle rt h vlStyle), snd (createTextStyle rt h vlStyle)}.
      extends h h' \<and> (\<forall>r. r < length h \<longrightarrow> obj_at h' r = obj_at h r)) \<and>
   (\<not> instance_of h (get_prop h vlStyle (addPrefix prefix ''fill'')) Fill \<longrightarrow>
      newly_allocated h (createFillStyle rt h vlStyle prefix)) \<and>
   (\<not> instance_of h (get_prop h vlStyle (addPrefix prefix ''stroke'')) Stroke \<longrightarrow>
      newly_allocated h (createStrokeStyle rt h vlStyle prefix)) \<and>
   (\<not> instance_of_ImageStyle h (get_prop h vlStyle ''image'') \<longrightarrow>
      newly_allocated h (createImageStyle rt h vlStyle)) \<and>
   (\<not> instance_of h (get_prop h vlStyle ''text'') Text \<longrightarrow>
      newly_allocated h (createTextStyle rt h vlStyle)) \<and>
   (\<forall>r h'. r < length h \<and> createFillStyle rt h vlStyle prefix = (Inr (JRef r), h') \<longrightarrow>
      get_prop h vlStyle (addPrefix prefix ''fill'') = JRef r \<and> instance_of h (JRef r) Fill \<and>
      h' = h) \<and>
   (\<forall>r h'. r < length h \<and> createStrokeStyle rt h vlStyle prefix = (Inr (JRef r), h') \<longrightarrow>
      get_prop h vlStyle (addPrefix prefix ''stroke'') = JRef r \<and> instance_of h (JRef r) Stroke \<and>
      h' = h) \<and>
   (\<forall>r h'. r < length h \<and> createImageStyle rt h vlStyle = (Inr (JRef r), h') \<longrightarrow>
      get_prop h vlStyle ''image'' = JRef r \<and> instance_of_ImageStyle h (JRef r) \<and> h' = h) \<and>
   (\<forall>r h'. r < length h \<and> createTextStyle rt h vlStyle = (Inr (JRef r), h') \<longrightarrow>
      get_prop h vlStyle ''text'' = JRef r \<and> instance_of h (JRef r) Text \<and> h' = h)"
proof (intro conjI ballI allI impI)
  fix h' assume "h' \<in> {snd (createFillStyle rt h vlStyle prefix),
      snd (createStrokeStyle rt h vlStyle prefix), snd (createImageStyle rt h vlStyle),
      snd (createTextStyle rt h vlStyle)}"
  then show e: "extends h h'"
    using extends_createFillStyle [of h rt vlStyle prefix]
      extends_createStrokeStyle [of h rt vlStyle prefix]
      extends_createImageStyle [of h rt vlStyle] extends_createTextStyle [of h rt vlStyle]
    by auto
  show "obj_at h' r = obj_at h r" if "r < length h" for r
    by (rule obj_at_prefix [OF e that])
next
  assume "\<not> instance_of h (get_prop h vlStyle (addPrefix prefix ''fill'')) Fill"
  then show "newly_allocated h (createFillStyle rt h vlStyle prefix)"
    by (rule newly_allocated_createFillStyle)
next
  assume "\<not> instance_of h (get_prop h vlStyle (addPrefix prefix ''stroke'')) Stroke"
  then show "newly_allocated h (createStrokeStyle rt h vlStyle prefix)"
    by (rule newly_allocated_createStrokeStyle)
next
  assume "\<not> instance_of_ImageStyle h (get_prop h vlStyle ''image'')"
  then show "newly_allocated h (createImageStyle rt h vlStyle)"
    by (rule newly_allocated_createImageStyle)
next
  assume "\<not> instance_of h (get_prop h vlStyle ''text'') Text"
  then show "newly_allocated h (createTextStyle rt h vlStyle)"
    by (rule newly_allocated_createTextStyle)
next
  fix r h' assume a: "r < length h \<and> createFillStyle rt h vlStyle prefix = (Inr (JRef r), h')"
  have i: "instance_of h (get_prop h vlStyle (addPrefix prefix ''fill'')) Fill"
    using a newly_allocated_not_old [OF newly_allocated_createFillStyle, of h vlStyle prefix rt r h']
    by blast
  with a have "get_prop h vlStyle (addPrefix prefix ''fill'') = JRef r \<and> h' = h"
    by (auto simp: createFillStyle_def)
  with i show "get_prop h vlStyle (addPrefix prefix ''fill'') = JRef r"
    "instance_of h (JRef r) Fill" "h' = h" by simp_all
next
  fix r h' assume a: "r < length h \<and> createStrokeStyle rt h vlStyle prefix = (Inr (JRef r), h')"
  have i: "instance_of h (get_prop h vlStyle (addPrefix prefix ''stroke'')) Stroke"
    using a newly_allocated_not_old [OF newly_allocated_createStrokeStyle, of h vlStyle prefix rt r h']
    by blast
  with a have "get_prop h vlStyle (addPrefix prefix ''stroke'') = JRef r \<and> h' = h"
    by (auto simp: createStrokeStyle_def)
  with i show "get_prop h vlStyle (addPrefix prefix ''stroke'') = JRef r"
    "instance_of h (JRef r) Stroke" "h' = h" by simp_all
next
  fix r h' assume a: "r < length h \<and> createImageStyle rt h vlStyle = (Inr (JRef r), h')"
  have i: "instance_of_ImageStyle h (get_prop h vlStyle ''image'')"
    using a newly_allocated_not_old [OF newly_allocated_createImageStyle, of h vlStyle rt r h']
    by blast
  with a have "get_prop h vlStyle ''image'' = JRef r \<and> h' = h"
    by (auto simp: createImageStyle_def instance_of_ImageStyle_not_empty)
  with i show "get_prop h vlStyle ''image'' = JRef r"
    "instance_of_ImageStyle h (JRef r)" "h' = h" by simp_all
next
  fix r h' assume a: "r < length h \<and> createTextStyle rt h vlStyle = (Inr (JRef r), h')"
  have i: "instance_of h (get_prop h vlStyle ''text'') Text"
    using a newly_allocated_not_old [OF newly_allocated_createTextStyle, of h vlStyle rt r h']
    by blast
  with a have "get_prop h vlStyle ''text'' = JRef r \<and> h' = h"
    by (auto simp: createTextStyle_def instance_of_not_nullish)
  with i show "get_prop h vlStyle ''text'' = JRef r"
    "instance_of h (JRef r) Text" "h' = h" by simp_all
qed

lemma sample_fill:
  "createFillStyle sample_runtime sample_heap 0 '''' =
     (Inr (JRef 2),
      sample_heap @
        [object_literal [(''color'', JArr [JNum (Finite 255), JNum (Finite 0), JNum (Finite 0), JNum (Finite 1)])],
         \<lparr>klass = Fill,
          props = [(''color'', JArr [JNum (Finite 255), JNum (Finite 0), JNum (Finite 0), JNum (Finite 1)])]\<rparr>])"
  by (simp add: createFillStyle_closed sample_heap_def instance_of_def get_prop_def props_at_def
      obj_at_def object_literal_def keys_at_def fill_entry_literal literal_pattern_def
      addPrefix_def normalizeColor_def sample_runtime_def)

lemma sample_heap_not_compiled:
  "\<not> instance_of sample_heap (get_prop sample_heap 0 (addPrefix '''' ''fill'')) Fill"
  by (simp add: sample_heap_def instance_of_def get_prop_def props_at_def obj_at_def
      object_literal_def addPrefix_def)

lemma compiled_heap_text_fill:
  "createFillStyle sample_runtime compiled_heap 4 ''text'' = (Inr (JRef 0), compiled_heap)"
  by (simp add: createFillStyle_def compiled_heap_def instance_of_def get_prop_def props_at_def
      obj_at_def object_literal_def addPrefix_def upperFirst_def toUpperCase_char_def)

theorem compilers_do_not_write_to_the_record_witness:
  "extends sample_heap (snd (createFillStyle sample_runtime sample_heap 0 '''')) \<and>
   obj_at (snd (createFillStyle sample_runtime sample_heap 0 '''')) 0 = obj_at sample_heap 0 \<and>
   fst (createFillStyle sample_runtime sample_heap 0 '''') = Inr (JRef 2) \<and>
   newly_allocated sample_heap (createFillStyle sample_runtime sample_heap 0 '''') \<and>
   length sample_heap = 1 \<and>
   createFillStyle sample_runtime compiled_heap 4 ''text'' = (Inr (JRef 0), compiled_heap) \<and>
   get_prop compiled_heap 4 (addPrefix ''text'' ''fill'') = JRef 0 \<and>
   instance_of compiled_heap (JRef 0) Fill"
proof -
  note fresh = compilers_do_not_write_to_the_record [of sample_runtime sample_heap 0 "''''"]
  note reuse = compilers_do_not_write_to_the_record [of sample_runtime compiled_heap 4 "''text''"]
  have l: "length sample_heap = 1" "0 < length sample_heap" "0 < length compiled_heap"
    by (simp_all add: sample_heap_def compiled_heap_def)
  from fresh have 1:
    "extends sample_heap (snd (createFillStyle sample_runtime sample_heap 0 ''''))"
    "obj_at (snd (createFillStyle sample_runtime sample_heap 0 '''')) 0 = obj_at sample_heap 0"
    using l(2) by simp_all
  from fresh sample_heap_not_compiled
  have 2: "newly_allocated sample_heap (createFillStyle sample_runtime sample_heap 0 '''')"
    by blast
  from reuse l(3) compiled_heap_text_fill
  have 3: "get_prop compiled_heap 4 (addPrefix ''text'' ''fill'') = JRef 0 \<and>
      instance_of compiled_heap (JRef 0) Fill"
    by blast
  from 1 2 3 l(1) compiled_heap_text_fill show ?thesis
    by (simp add: sample_fill)
qed

text \<open>
  Against the memoization Claim C2 states: \<open>createFillStyle\<close> compiles the record
  \<open>{fillColor: 'red', strokeWidth: 2}\<close> to a new \<open>Fill\<close>, and the record has no \<open>fill\<close>
  property afterwards; compiling it again builds another \<open>Fill\<close>.
\<close>

theorem compiled_fill_is_not_cached:
  "fst (createFillStyle sample_runtime sample_heap 0 '''') = Inr (JRef 2) \<and>
   get_prop (snd (createFillStyle sample_runtime sample_heap 0 '''')) 0 ''fill'' = JUndefined \<and>
   \<not> hasProp (snd (createFillStyle sample_runtime sample_heap 0 '''')) 0 ''fill'' \<and>
   fst (createFillStyle sample_runtime (snd (createFillStyle sample_runtime sample_heap 0 '''')) 0 '''') =
     Inr (JRef 4)"
  by (simp add: sample_fill)
    (simp add: createFillStyle_closed sample_heap_def get_prop_def props_at_def obj_at_def
      object_literal_def hasProp_def keys_at_def instance_of_def addPrefix_def fill_entry_literal
      literal_pattern_def)

text \<open>
  Claim C3. A sub-style the record already holds compiled is returned as it is, the very
  object, and nothing is allocated or written: \<open>createFillStyle\<close> returns
  \<open>vlStyle[prefix + 'Fill']\<close> (\<open>vlStyle.fill\<close> under the empty prefix) when it is a
  \<open>Fill\<close>, \<open>createStrokeStyle\<close> the value under the prefixed \<open>stroke\<close> key when it is a
  \<open>Stroke\<close>, \<open>createImageStyle\<close> returns \<open>vlStyle.image\<close> when it is an \<open>ImageStyle\<close>
  and \<open>createTextStyle\<close> returns \<open>vlStyle.text\<close> when it is a \<open>Text\<close>.
\<close>

theorem compiled_substyles_are_reused:
  "(instance_of h (get_prop h vlStyle (addPrefix prefix ''fill'')) Fill \<longrightarrow>
      createFillStyle rt h vlStyle prefix = (Inr (get_prop h vlStyle (addPrefix prefix ''fill'')), h)) \<and>
   (instance_of h (get_prop h vlStyle (addPrefix prefix ''stroke'')) Stroke \<longrightarrow>
      createStrokeStyle rt h vlStyle prefix =
        (Inr (get_prop h vlStyle (addPrefix prefix ''stroke'')), h)) \<and>
   (instance_of_ImageStyle h (get_prop h vlStyle ''image'') \<longrightarrow>
      createImageStyle rt h vlStyle = (Inr (get_prop h vlStyle ''image''), h)) \<and>
   (instance_of h (get_prop h vlStyle ''text'') Text \<longrightarrow>
      createTextStyle rt h vlStyle = (Inr (get_prop h vlStyle ''text''), h))"
  by (simp add: createFillStyle_def createStrokeStyle_def createImageStyle_def createTextStyle_def
      instance_of_ImageStyle_not_empty instance_of_not_nullish)

theorem compiled_substyles_are_reused_witness:
  "createFillStyle sample_runtime compiled_heap 4 ''text'' = (Inr (JRef 0), compiled_heap) \<and>
   createStrokeStyle sample_runtime compiled_heap 4 ''text'' = (Inr (JRef 1), compiled_heap) \<and>
   createImageStyle sample_runtime compiled_heap 4 = (Inr (JRef 2), compiled_heap) \<and>
   createTextStyle sample_runtime compiled_heap 4 = (Inr (JRef 3), compiled_heap)"
  using compiled_substyles_are_reused [of compiled_heap 4 "''text''" sample_runtime]
  by (simp add: compiled_heap_def instance_of_def instance_of_ImageStyle_def get_prop_def
      props_at_def obj_at_def object_literal_def addPrefix_def upperFirst_def toUpperCase_char_def)

lemma hasProp_keys: "hasProp h a k = (k \<in> set (keys_at h a))"
  by (simp add: hasProp_def)

lemma fill_entry_other: "k \<noteq> addPrefix p ''fillColor'' \<Longrightarrow> fill_entry rt p v k = Inr None"
  by (simp add: fill_entry_def fill_keys_def)

lemma stroke_entry_other: "k \<notin> set (stroke_keys p) \<Longrightarrow> stroke_entry rt p v k = Inr None"
  by (simp add: stroke_entry_def)

lemma fill_gathers_nothing:
  "\<not> hasProp h a (addPrefix p ''fillColor'') \<Longrightarrow>
   collect (fill_entry rt p) (get_prop h a) (keys_at h a) [] = (None, [])"
  by (rule collect_irrelevant) (auto simp: hasProp_keys intro: fill_entry_other)

lemma stroke_gathers_nothing:
  "\<forall>k \<in> set (stroke_keys p). \<not> hasProp h a k \<Longrightarrow>
   collect (stroke_entry rt p) (get_prop h a) (keys_at h a) [] = (None, [])"
  by (rule collect_irrelevant) (auto simp: hasProp_keys intro: stroke_entry_other)

text \<open>
  Claim C6. \<open>createFillStyle\<close> returns \<open>undefined\<close> when the record holds no prefixed
  \<open>fillColor\<close> key and no compiled fill, \<open>createStrokeStyle\<close> when it holds none of the
  seven prefixed stroke keys and no compiled stroke, whatever the prefix. And a fill or
  stroke that is constructed (returned without having been found compiled in the record)
  is an instance of its class built from an options object that is not empty.
\<close>

theorem empty_substyles_are_elided:
  "(\<not> instance_of h (get_prop h vlStyle (addPrefix prefix ''fill'')) Fill \<and>
    \<not> hasProp h vlStyle (addPrefix prefix ''fillColor'') \<longrightarrow>
      fst (createFillStyle rt h vlStyle prefix) = Inr JUndefined) \<and>
   (\<not> instance_of h (get_prop h vlStyle (addPrefix prefix ''stroke'')) Stroke \<and>
    (\<forall>k \<in> set (stroke_keys prefix). \<not> hasProp h vlStyle k) \<longrightarrow>
      fst (createStrokeStyle rt h vlStyle prefix) = Inr JUndefined) \<and>
   (\<not> instance_of h (get_prop h vlStyle (addPrefix prefix ''fill'')) Fill \<and>
    fst (createFillStyle rt h vlStyle prefix) = Inr (JRef r) \<longrightarrow>
      (\<exists>ps. ps \<noteq> [] \<and>
         obj_at (snd (createFillStyle rt h vlStyle prefix)) r = Some \<lparr>klass = Fill, props = ps\<rparr>)) \<and>
   (\<not> instance_of h (get_prop h vlStyle (addPrefix prefix ''stroke'')) Stroke \<and>
    fst (createStrokeStyle rt h vlStyle prefix) = Inr (JRef r) \<longrightarrow>
      (\<exists>ps. ps \<noteq> [] \<and>
         obj_at (snd (createStrokeStyle rt h vlStyle prefix)) r = Some \<lparr>klass = Stroke, props = ps\<rparr>))"
proof (intro conjI impI)
  assume "\<not> instance_of h (get_prop h vlStyle (addPrefix prefix ''fill'')) Fill \<and>
    \<not> hasProp h vlStyle (addPrefix prefix ''fillColor'')"
  then show "fst (createFillStyle rt h vlStyle prefix) = Inr JUndefined"
    by (simp add: createFillStyle_closed fill_gathers_nothing)
next
  assume "\<not> instance_of h (get_prop h vlStyle (addPrefix prefix ''stroke'')) Stroke \<and>
    (\<forall>k \<in> set (stroke_keys prefix). \<not> hasProp h vlStyle k)"
  then show "fst (createStrokeStyle rt h vlStyle prefix) = Inr JUndefined"
    by (simp add: createStrokeStyle_closed stroke_gathers_nothing)
next
  assume "\<not> instance_of h (get_prop h vlStyle (addPrefix prefix ''fill'')) Fill \<and>
    fst (createFillStyle rt h vlStyle prefix) = Inr (JRef r)"
  then show "\<exists>ps. ps \<noteq> [] \<and>
         obj_at (snd (createFillStyle rt h vlStyle prefix)) r = Some \<lparr>klass = Fill, props = ps\<rparr>"
    by (auto simp: createFillStyle_closed obj_at_def nth_append
        split: prod.splits option.splits if_splits)
next
  assume "\<not> instance_of h (get_prop h vlStyle (addPrefix prefix ''stroke'')) Stroke \<and>
    fst (createStrokeStyle rt h vlStyle prefix) = Inr (JRef r)"
  then show "\<exists>ps. ps \<noteq> [] \<and>
         obj_at (snd (createStrokeStyle rt h vlStyle prefix)) r = Some \<lparr>klass = Stroke, props = ps\<rparr>"
    by (auto simp: createStrokeStyle_closed obj_at_def nth_append
        split: prod.splits option.splits if_splits)
qed

lemma sample_stroke:
  "createStrokeStyle sample_runtime sample_heap 0 '''' =
     (Inr (JRef 2),
      sample_heap @
        [object_literal [(''width'', JNum (Finite 2))],
         \<lparr>klass = Stroke, props = [(''width'', JNum (Finite 2))]\<rparr>])"
  by (simp add: createStrokeStyle_closed sample_heap_def instance_of_def get_prop_def props_at_def
      obj_at_def object_literal_def keys_at_def stroke_entry_literal literal_pattern_def
      addPrefix_def normalizeColor_def sample_runtime_def)

lemma sample_text_prefix:
  "\<not> hasProp sample_heap 0 (addPrefix ''text'' ''fillColor'')"
  "\<forall>k \<in> set (stroke_keys ''text''). \<not> hasProp sample_heap 0 k"
  "\<not> instance_of sample_heap (get_prop sample_heap 0 (addPrefix ''text'' ''fill'')) Fill"
  "\<not> instance_of sample_heap (get_prop sample_heap 0 (addPrefix ''text'' ''stroke'')) Stroke"
  "\<not> instance_of sample_heap (get_prop sample_heap 0 (addPrefix [] ''fill'')) Fill"
  "\<not> instance_of sample_heap (get_prop sample_heap 0 (addPrefix [] ''stroke'')) Stroke"
  by (simp_all add: sample_heap_def hasProp_def keys_at_def props_at_def obj_at_def
      object_literal_def addPrefix_def upperFirst_def toUpperCase_char_def stroke_keys_def
      instance_of_def get_prop_def)

theorem empty_substyles_are_elided_witness:
  "fst (createFillStyle sample_runtime sample_heap 0 ''text'') = Inr JUndefined \<and>
   fst (createStrokeStyle sample_runtime sample_heap 0 ''text'') = Inr JUndefined \<and>
   (\<exists>ps. ps \<noteq> [] \<and>
      obj_at (snd (createFillStyle sample_runtime sample_heap 0 '''')) 2 =
        Some \<lparr>klass = Fill, props = ps\<rparr>) \<and>
   (\<exists>ps. ps \<noteq> [] \<and>
      obj_at (snd (createStrokeStyle sample_runtime sample_heap 0 '''')) 2 =
        Some \<lparr>klass = Stroke, props = ps\<rparr>)"
  using empty_substyles_are_elided [of sample_heap 0 "''text''" sample_runtime 2]
    empty_substyles_are_elided [of sample_heap 0 "''''" sample_runtime 2]
  by (simp add: sample_text_prefix sample_fill sample_stroke)

lemma fill_entry_value:
  "fill_entry rt p v k = Inr (Some (n, w)) \<Longrightarrow>
   k \<in> set (fill_keys p) \<and> w = (if n = ''color'' then normalizeColor rt v else v)"
  by (auto simp: fill_entry_def split: if_splits sum.splits)

lemma stroke_entry_value:
  "stroke_entry rt p v k = Inr (Some (n, w)) \<Longrightarrow>
   k \<in> set (stroke_keys p) \<and> w = (if n = ''color'' then normalizeColor rt v else v)"
  by (auto simp: stroke_entry_def split: if_splits sum.splits)

lemma fill_options_from_record:
  assumes "\<not> instance_of h (get_prop h a (addPrefix p ''fill'')) Fill"
    and "createFillStyle rt h a p = (Inr (JRef r), h')"
    and "(n, w) \<in> set (props_at h' r)"
  shows "\<exists>k \<in> set (fill_keys p). hasProp h a k \<and>
           w = (if n = ''color'' then normalizeColor rt (get_prop h a k) else get_prop h a k)"
proof -
  obtain eo ps where c: "collect (fill_entry rt p) (get_prop h a) (keys_at h a) [] = (eo, ps)"
    by (cases "collect (fill_entry rt p) (get_prop h a) (keys_at h a) []")
  from assms(1,2) c have "(n, w) \<in> set ps"
    using assms(3)
    by (auto simp: createFillStyle_closed props_at_def obj_at_def nth_append
        split: option.splits if_splits)
  then have "(n, w) \<in> set (snd (collect (fill_entry rt p) (get_prop h a) (keys_at h a) []))"
    using c by simp
  from collect_entries [OF this]
  obtain k where "k \<in> set (keys_at h a)" "fill_entry rt p (get_prop h a k) k = Inr (Some (n, w))"
    by auto
  then show ?thesis
    using fill_entry_value [of rt p "get_prop h a k" k n w] by (auto simp: hasProp_keys)
qed

lemma stroke_options_from_record:
  assumes "\<not> instance_of h (get_prop h a (addPrefix p ''stroke'')) Stroke"
    and "createStrokeStyle rt h a p = (Inr (JRef r), h')"
    and "(n, w) \<in> set (props_at h' r)"
  shows "\<exists>k \<in> set (stroke_keys p). hasProp h a k \<and>
           w = (if n = ''color'' then normalizeColor rt (get_prop h a k) else get_prop h a k)"
proof -
  obtain eo ps where c: "collect (stroke_entry rt p) (get_prop h a) (keys_at h a) [] = (eo, ps)"
    by (cases "collect (stroke_entry rt p) (get_prop h a) (keys_at h a) []")
  from assms(1,2) c have "(n, w) \<in> set ps"
    using assms(3)
    by (auto simp: createStrokeStyle_closed props_at_def obj_at_def nth_append
        split: option.splits if_splits)
  then have "(n, w) \<in> set (snd (collect (stroke_entry rt p) (get_prop h a) (keys_at h a) []))"
    using c by simp
  from collect_entries [OF this]
  obtain k where "k \<in> set (keys_at h a)" "stroke_entry rt p (get_prop h a k) k = Inr (Some (n, w))"
    by auto
  then show ?thesis
    using stroke_entry_value [of rt p "get_prop h a k" k n w] by (auto simp: hasProp_keys)
qed

text \<open>With a prefix free of syntax characters, a record that has the prefixed
  \<open>fillColor\<close> key compiles to a fill whose only option is the normalized colour.\<close>

lemma filter_key_case:
  "(case filter (\<lambda>k. k = K) xs of [] \<Rightarrow> A | k # _ \<Rightarrow> B k) = (if K \<in> set xs then B K else A)"
  by (induction xs) auto

lemma get_prop_present:
  "k \<in> set (keys_at h a) \<Longrightarrow> map_of (props_at h a) k = Some (get_prop h a k)"
proof -
  assume "k \<in> set (keys_at h a)"
  then have "map_of (props_at h a) k \<noteq> None"
    by (simp add: keys_at_def map_of_eq_None_iff)
  then show ?thesis by (auto simp: get_prop_def)
qed

lemma get_prop_absent:
  "k \<notin> set (keys_at h a) \<Longrightarrow> map_of (props_at h a) k = None"
  by (simp add: keys_at_def map_of_eq_None_iff)

lemma fill_collect_literal:
  assumes "literal_pattern p"
  shows "collect (fill_entry rt p) look ks ps =
     (None, if addPrefix p ''fillColor'' \<in> set ks
            then AList.update ''color'' (normalizeColor rt (look (addPrefix p ''fillColor''))) ps
            else ps)"
  by (induction ks arbitrary: ps) (auto simp: fill_entry_literal [OF assms])

lemma createFillStyle_literal:
  assumes "literal_pattern p"
    and "\<not> instance_of h (get_prop h a (addPrefix p ''fill'')) Fill"
    and "hasProp h a (addPrefix p ''fillColor'')"
  shows "createFillStyle rt h a p =
     (Inr (JRef (Suc (length h))),
      h @ [object_literal [(''color'', normalizeColor rt (get_prop h a (addPrefix p ''fillColor'')))],
           \<lparr>klass = Fill,
            props = [(''color'', normalizeColor rt (get_prop h a (addPrefix p ''fillColor'')))]\<rparr>])"
  using assms(2,3)
  by (simp add: createFillStyle_closed fill_collect_literal [OF assms(1)] hasProp_keys)

lemma compiled_fresh:
  "compiled (Inr (JRef (Suc (length h))), h @ [x, y]) = Some y"
  by (simp add: compiled_def pointee_def obj_at_def nth_append)

subsection \<open>The stroke table\<close>

lemma stroke_key_distinct:
  "addPrefix p ''strokeColor'' \<noteq> addPrefix p ''strokeWidth''"
  "addPrefix p ''strokeColor'' \<noteq> addPrefix p ''strokeMiterLimit''"
  "addPrefix p ''strokeColor'' \<noteq> addPrefix p ''strokeCap''"
  "addPrefix p ''strokeColor'' \<noteq> addPrefix p ''strokeJoin''"
  "addPrefix p ''strokeColor'' \<noteq> addPrefix p ''strokeDash''"
  "addPrefix p ''strokeColor'' \<noteq> addPrefix p ''strokeDashOffset''"
  "addPrefix p ''strokeWidth'' \<noteq> addPrefix p ''strokeMiterLimit''"
  "addPrefix p ''strokeWidth'' \<noteq> addPrefix p ''strokeCap''"
  "addPrefix p ''strokeWidth'' \<noteq> addPrefix p ''strokeJoin''"
  "addPrefix p ''strokeWidth'' \<noteq> addPrefix p ''strokeDash''"
  "addPrefix p ''strokeWidth'' \<noteq> addPrefix p ''strokeDashOffset''"
  "addPrefix p ''strokeMiterLimit'' \<noteq> addPrefix p ''strokeCap''"
  "addPrefix p ''strokeMiterLimit'' \<noteq> addPrefix p ''strokeJoin''"
  "addPrefix p ''strokeMiterLimit'' \<noteq> addPrefix p ''strokeDash''"
  "addPrefix p ''strokeMiterLimit'' \<noteq> addPrefix p ''strokeDashOffset''"
  "addPrefix p ''strokeCap'' \<noteq> addPrefix p ''strokeJoin''"
  "addPrefix p ''strokeCap'' \<noteq> addPrefix p ''strokeDash''"
  "addPrefix p ''strokeCap'' \<noteq> addPrefix p ''strokeDashOffset''"
  "addPrefix p ''strokeJoin'' \<noteq> addPrefix p ''strokeDash''"
  "addPrefix p ''strokeJoin'' \<noteq> addPrefix p ''strokeDashOffset''"
  "addPrefix p ''strokeDash'' \<noteq> addPrefix p ''strokeDashOffset''"
  by (simp_all add: addPrefix_stroke_keys)

lemma stroke_entry_table:
  "literal_pattern p \<Longrightarrow> stroke_entry rt p (look k) k = Inr (stroke_table rt p look k)"
  by (simp add: stroke_entry_literal stroke_table_def)

lemma stroke_table_names:
  "(\<lambda>k. \<exists>w. stroke_table rt p look k = Some (''color'', w)) = (\<lambda>k. k = addPrefix p ''strokeColor'')"
  "(\<lambda>k. \<exists>w. stroke_table rt p look k = Some (''width'', w)) = (\<lambda>k. k = addPrefix p ''strokeWidth'')"
  "(\<lambda>k. \<exists>w. stroke_table rt p look k = Some (''miterLimit'', w)) =
     (\<lambda>k. k = addPrefix p ''strokeMiterLimit'')"
  "(\<lambda>k. \<exists>w. stroke_table rt p look k = Some (''lineCap'', w)) = (\<lambda>k. k = addPrefix p ''strokeCap'')"
  "(\<lambda>k. \<exists>w. stroke_table rt p look k = Some (''lineJoin'', w)) = (\<lambda>k. k = addPrefix p ''strokeJoin'')"
  "(\<lambda>k. \<exists>w. stroke_table rt p look k = Some (''lineDash'', w)) = (\<lambda>k. k = addPrefix p ''strokeDash'')"
  "(\<lambda>k. \<exists>w. stroke_table rt p look k = Some (''lineDashOffset'', w)) =
     (\<lambda>k. k = addPrefix p ''strokeDashOffset'')"
  by (auto simp: stroke_table_def stroke_key_distinct fun_eq_iff)

lemma stroke_table_other:
  "n \<notin> set [''color'', ''width'', ''miterLimit'', ''lineCap'', ''lineJoin'', ''lineDash'',
             ''lineDashOffset''] \<Longrightarrow>
   (\<lambda>k. \<exists>w. stroke_table rt p look k = Some (n, w)) = (\<lambda>k. False)"
  by (auto simp: stroke_table_def fun_eq_iff)

lemma stroke_table_at:
  "stroke_table rt p look (addPrefix p ''strokeColor'') =
     Some (''color'', normalizeColor rt (look (addPrefix p ''strokeColor'')))"
  "stroke_table rt p look (addPrefix p ''strokeWidth'') =
     Some (''width'', look (addPrefix p ''strokeWidth''))"
  "stroke_table rt p look (addPrefix p ''strokeMiterLimit'') =
     Some (''miterLimit'', look (addPrefix p ''strokeMiterLimit''))"
  "stroke_table rt p look (addPrefix p ''strokeCap'') =
     Some (''lineCap'', look (addPrefix p ''strokeCap''))"
  "stroke_table rt p look (addPrefix p ''strokeJoin'') =
     Some (''lineJoin'', look (addPrefix p ''strokeJoin''))"
  "stroke_table rt p look (addPrefix p ''strokeDash'') =
     Some (''lineDash'', look (addPrefix p ''strokeDash''))"
  "stroke_table rt p look (addPrefix p ''strokeDashOffset'') =
     Some (''lineDashOffset'', look (addPrefix p ''strokeDashOffset''))"
  by (simp_all add: stroke_table_def stroke_key_distinct stroke_key_distinct [THEN not_sym])

lemma map_of_record:
  "map_of (props_at h a) k = (if k \<in> set (keys_at h a) then Some (get_prop h a k) else None)"
  by (simp add: get_prop_present get_prop_absent)

lemma stroke_options_literal:
  assumes "literal_pattern p"
    and ps_def: "ps = snd (collect (stroke_entry rt p) (get_prop h a) (keys_at h a) [])"
  shows "map_of ps ''color'' =
           map_option (normalizeColor rt) (map_of (props_at h a) (addPrefix p ''strokeColor''))"
    and "map_of ps ''width'' = map_of (props_at h a) (addPrefix p ''strokeWidth'')"
    and "map_of ps ''miterLimit'' = map_of (props_at h a) (addPrefix p ''strokeMiterLimit'')"
    and "map_of ps ''lineCap'' = map_of (props_at h a) (addPrefix p ''strokeCap'')"
    and "map_of ps ''lineJoin'' = map_of (props_at h a) (addPrefix p ''strokeJoin'')"
    and "map_of ps ''lineDash'' = map_of (props_at h a) (addPrefix p ''strokeDash'')"
    and "map_of ps ''lineDashOffset'' = map_of (props_at h a) (addPrefix p ''strokeDashOffset'')"
    and "n \<notin> set [''color'', ''width'', ''miterLimit'', ''lineCap'', ''lineJoin'', ''lineDash'',
                   ''lineDashOffset''] \<Longrightarrow> map_of ps n = None"
proof -
  note m = map_of_collect [of "stroke_entry rt p" "get_prop h a" "stroke_table rt p (get_prop h a)",
      OF stroke_entry_table [OF assms(1)], of "keys_at h a" "[]"]
  show "map_of ps ''color'' =
           map_option (normalizeColor rt) (map_of (props_at h a) (addPrefix p ''strokeColor''))"
    unfolding ps_def m by (simp add: stroke_table_names filter_key_case stroke_table_at map_of_record)
  show "map_of ps ''width'' = map_of (props_at h a) (addPrefix p ''strokeWidth'')"
    unfolding ps_def m by (simp add: stroke_table_names filter_key_case stroke_table_at map_of_record)
  show "map_of ps ''miterLimit'' = map_of (props_at h a) (addPrefix p ''strokeMiterLimit'')"
    unfolding ps_def m by (simp add: stroke_table_names filter_key_case stroke_table_at map_of_record)
  show "map_of ps ''lineCap'' = map_of (props_at h a) (addPrefix p ''strokeCap'')"
    unfolding ps_def m by (simp add: stroke_table_names filter_key_case stroke_table_at map_of_record)
  show "map_of ps ''lineJoin'' = map_of (props_at h a) (addPrefix p ''strokeJoin'')"
    unfolding ps_def m by (simp add: stroke_table_names filter_key_case stroke_table_at map_of_record)
  show "map_of ps ''lineDash'' = map_of (props_at h a) (addPrefix p ''strokeDash'')"
    unfolding ps_def m by (simp add: stroke_table_names filter_key_case stroke_table_at map_of_record)
  show "map_of ps ''lineDashOffset'' = map_of (props_at h a) (addPrefix p ''strokeDashOffset'')"
    unfolding ps_def m by (simp add: stroke_table_names filter_key_case stroke_table_at map_of_record)
  show "map_of ps n = None"
    if "n \<notin> set [''color'', ''width'', ''miterLimit'', ''lineCap'', ''lineJoin'', ''lineDash'',
                   ''lineDashOffset'']"
    unfolding ps_def m by (simp add: stroke_table_other [OF that])
qed

lemma stroke_entry_total: "literal_pattern p \<Longrightarrow> \<exists>r. stroke_entry rt p v k = Inr r"
  by (simp add: stroke_entry_literal)

lemma stroke_collect_literal:
  assumes "literal_pattern p"
  shows "fst (collect (stroke_entry rt p) look ks ps) = None"
  by (rule collect_total) (rule stroke_entry_total [OF assms])

lemma stroke_options_Nil_iff:
  assumes "literal_pattern p"
  shows "(snd (collect (stroke_entry rt p) (get_prop h a) (keys_at h a) []) = []) =
         (\<forall>k \<in> set (stroke_keys p). \<not> hasProp h a k)"
proof -
  have "(snd (collect (stroke_entry rt p) (get_prop h a) (keys_at h a) []) = []) =
        (\<forall>k \<in> set (keys_at h a). stroke_entry rt p (get_prop h a k) k = Inr None)"
    by (rule collect_Nil_iff) (rule stroke_collect_literal [OF assms])
  also have "\<dots> = (\<forall>k \<in> set (keys_at h a). k \<notin> set (stroke_keys p))"
    by (auto simp: stroke_entry_literal [OF assms] stroke_keys_def split: if_splits)
  also have "\<dots> = (\<forall>k \<in> set (stroke_keys p). \<not> hasProp h a k)"
    by (auto simp: hasProp_keys)
  finally show ?thesis .
qed

lemma createStrokeStyle_literal:
  assumes "literal_pattern p"
    and "\<not> instance_of h (get_prop h a (addPrefix p ''stroke'')) Stroke"
  shows "createStrokeStyle rt h a p =
     (let ps = snd (collect (stroke_entry rt p) (get_prop h a) (keys_at h a) [])
      in if ps = [] then (Inr JUndefined, h @ [object_literal []])
         else (Inr (JRef (Suc (length h))), h @ [object_literal ps, \<lparr>klass = Stroke, props = ps\<rparr>]))"
proof -
  obtain eo ps where c: "collect (stroke_entry rt p) (get_prop h a) (keys_at h a) [] = (eo, ps)"
    by (cases "collect (stroke_entry rt p) (get_prop h a) (keys_at h a) []")
  with stroke_collect_literal [OF assms(1), of rt "get_prop h a" "keys_at h a" "[]"]
  have "eo = None" by simp
  with c assms(2) show ?thesis by (simp add: createStrokeStyle_closed)
qed

lemma sample_heap_facts:
  "\<not> instance_of sample_heap (get_prop sample_heap 0 (addPrefix '''' ''fill'')) Fill"
  "\<not> instance_of sample_heap (get_prop sample_heap 0 (addPrefix '''' ''stroke'')) Stroke"
  "hasProp sample_heap 0 (addPrefix '''' ''fillColor'')"
  "literal_pattern ''''"
  by (simp_all add: sample_heap_def instance_of_def get_prop_def props_at_def obj_at_def
      object_literal_def addPrefix_def hasProp_def keys_at_def literal_pattern_def)

lemma stroked_heap_facts:
  "\<not> instance_of stroked_heap (get_prop stroked_heap 0 (addPrefix '''' ''stroke'')) Stroke"
  "hasProp stroked_heap 0 (addPrefix '''' ''strokeColor'')"
  "get_prop stroked_heap 0 (addPrefix '''' ''strokeColor'') = JStr ''red''"
  "\<exists>k \<in> set (stroke_keys ''''). hasProp stroked_heap 0 k"
  by (simp_all add: stroked_heap_def instance_of_def get_prop_def props_at_def obj_at_def
      object_literal_def addPrefix_def hasProp_def keys_at_def stroke_keys_def)

lemma sample_stroked:
  "compiled (createStrokeStyle sample_runtime stroked_heap 0 '''') =
     Some \<lparr>klass = Stroke,
           props =
             [(''color'', JArr [JNum (Finite 255), JNum (Finite 0), JNum (Finite 0), JNum (Finite 1)]),
              (''lineCap'', JStr ''round'')]\<rparr>"
  by (simp add: createStrokeStyle_closed stroked_heap_def instance_of_def get_prop_def props_at_def
      obj_at_def object_literal_def keys_at_def stroke_entry_literal literal_pattern_def
      addPrefix_def normalizeColor_def sample_runtime_def compiled_def pointee_def)

text \<open>
  With a prefix free of syntax characters, a record that has one of the prefixed stroke
  keys and no compiled stroke compiles to a new \<open>Stroke\<close>. It has a \<open>color\<close> exactly
  when the record has the prefixed \<open>strokeColor\<close>, and the \<open>color\<close> is the normalized
  value of that key.
\<close>

lemma createStrokeStyle_color:
  assumes "literal_pattern p"
    and "\<not> instance_of h (get_prop h a (addPrefix p ''stroke'')) Stroke"
    and "\<exists>k \<in> set (stroke_keys p). hasProp h a k"
  shows "\<exists>ps.
      createStrokeStyle rt h a p =
        (Inr (JRef (Suc (length h))), h @ [object_literal ps, \<lparr>klass = Stroke, props = ps\<rparr>]) \<and>
      map_of ps ''color'' =
        (if hasProp h a (addPrefix p ''strokeColor'')
         then Some (normalizeColor rt (get_prop h a (addPrefix p ''strokeColor''))) else None)"
proof -
  define ps where "ps = snd (collect (stroke_entry rt p) (get_prop h a) (keys_at h a) [])"
  from assms(3) have ne: "ps \<noteq> []"
    unfolding ps_def stroke_options_Nil_iff [OF assms(1)] by blast
  have c: "createStrokeStyle rt h a p =
        (Inr (JRef (Suc (length h))), h @ [object_literal ps, \<lparr>klass = Stroke, props = ps\<rparr>])"
    using createStrokeStyle_literal [OF assms(1,2), of rt] ne by (simp add: ps_def Let_def)
  have col: "map_of ps ''color'' =
        (if hasProp h a (addPrefix p ''strokeColor'')
         then Some (normalizeColor rt (get_prop h a (addPrefix p ''strokeColor''))) else None)"
    using stroke_options_literal(1) [OF assms(1) ps_def]
    by (simp add: map_of_record hasProp_keys)
  from c col show ?thesis by blast
qed

text \<open>
  Claim C7. \<open>normalizeColor\<close> maps a string \<open>s\<close> to \<open>parseColor(s).rgba\<close> and returns any
  other value unchanged. In the options from which \<open>createFillStyle\<close> and
  \<open>createStrokeStyle\<close> construct a fill or stroke, every value is the record's value of
  one of the compiler's keys, normalized if it is stored under the name \<open>color\<close> and
  unchanged otherwise. For a prefix free of pattern syntax characters, the options of the
  fill are exactly \<open>color\<close>, holding the normalized value of the prefixed \<open>fillColor\<close>;
  and a record with one of the prefixed stroke keys and no compiled stroke compiles to
  a \<open>Stroke\<close>, which has a \<open>color\<close> exactly when the record has the prefixed
  \<open>strokeColor\<close>, the normalized value of that key, every other option being the value
  of one of the stroke keys as the record has it.
\<close>

theorem color_is_normalized:
  "normalizeColor rt (JStr s) = parseColor_rgba rt s \<and>
   ((\<forall>s. color \<noteq> JStr s) \<longrightarrow> normalizeColor rt color = color) \<and>
   (\<not> instance_of h (get_prop h vlStyle (addPrefix prefix ''fill'')) Fill \<and>
    createFillStyle rt h vlStyle prefix = (Inr (JRef r), h') \<longrightarrow>
      (\<forall>(n, w) \<in> set (props_at h' r).
         \<exists>k \<in> set (fill_keys prefix). hasProp h vlStyle k \<and>
           w = (if n = ''color'' then normalizeColor rt (get_prop h vlStyle k)
                else get_prop h vlStyle k))) \<and>
   (\<not> instance_of h (get_prop h vlStyle (addPrefix prefix ''stroke'')) Stroke \<and>
    createStrokeStyle rt h vlStyle prefix = (Inr (JRef r), h') \<longrightarrow>
      (\<forall>(n, w) \<in> set (props_at h' r).
         \<exists>k \<in> set (stroke_keys prefix). hasProp h vlStyle k \<and>
           w = (if n = ''color'' then normalizeColor rt (get_prop h vlStyle k)
                else get_prop h vlStyle k))) \<and>
   (literal_pattern prefix \<and>
    \<not> instance_of h (get_prop h vlStyle (addPrefix prefix ''fill'')) Fill \<and>
    hasProp h vlStyle (addPrefix prefix ''fillColor'') \<longrightarrow>
      compiled (createFillStyle rt h vlStyle prefix) =
        Some \<lparr>klass = Fill,
              props = [(''color'',
                        normalizeColor rt (get_prop h vlStyle (addPrefix prefix ''fillColor'')))]\<rparr>) \<and>
   (literal_pattern prefix \<and>
    \<not> instance_of h (get_prop h vlStyle (addPrefix prefix ''stroke'')) Stroke \<and>
    (\<exists>k \<in> set (stroke_keys prefix). hasProp h vlStyle k) \<longrightarrow>
      (\<exists>ps.
         compiled (createStrokeStyle rt h vlStyle prefix) = Some \<lparr>klass = Stroke, props = ps\<rparr> \<and>
         map_of ps ''color'' =
           (if hasProp h vlStyle (addPrefix prefix ''strokeColor'')
            then Some (normalizeColor rt (get_prop h vlStyle (addPrefix prefix ''strokeColor'')))
            else None) \<and>
         (\<forall>(n, w) \<in> set ps.
            \<exists>k \<in> set (stroke_keys prefix). hasProp h vlStyle k \<and>
              w = (if n = ''color'' then normalizeColor rt (get_prop h vlStyle k)
                   else get_prop h vlStyle k))))"
proof (intro conjI impI)
  show "normalizeColor rt (JStr s) = parseColor_rgba rt s"
    by (simp add: normalizeColor_def)
  show "normalizeColor rt color = color" if "\<forall>s. color \<noteq> JStr s"
    using that by (cases color) (simp_all add: normalizeColor_def)
  show "\<forall>(n, w) \<in> set (props_at h' r).
         \<exists>k \<in> set (fill_keys prefix). hasProp h vlStyle k \<and>
           w = (if n = ''color'' then normalizeColor rt (get_prop h vlStyle k)
                else get_prop h vlStyle k)"
    if "\<not> instance_of h (get_prop h vlStyle (addPrefix prefix ''fill'')) Fill \<and>
        createFillStyle rt h vlStyle prefix = (Inr (JRef r), h')"
    using that fill_options_from_record [of h vlStyle prefix rt r h'] by blast
  show "\<forall>(n, w) \<in> set (props_at h' r).
         \<exists>k \<in> set (stroke_keys prefix). hasProp h vlStyle k \<and>
           w = (if n = ''color'' then normalizeColor rt (get_prop h vlStyle k)
                else get_prop h vlStyle k)"
    if "\<not> instance_of h (get_prop h vlStyle (addPrefix prefix ''stroke'')) Stroke \<and>
        createStrokeStyle rt h vlStyle prefix = (Inr (JRef r), h')"
    using that stroke_options_from_record [of h vlStyle prefix rt r h'] by blast
  show "compiled (createFillStyle rt h vlStyle prefix) =
        Some \<lparr>klass = Fill,
              props = [(''color'',
                        normalizeColor rt (get_prop h vlStyle (addPrefix prefix ''fillColor'')))]\<rparr>"
    if "literal_pattern prefix \<and>
        \<not> instance_of h (get_prop h vlStyle (addPrefix prefix ''fill'')) Fill \<and>
        hasProp h vlStyle (addPrefix prefix ''fillColor'')"
    using that by (simp add: createFillStyle_literal compiled_fresh)
  show "\<exists>ps.
         compiled (createStrokeStyle rt h vlStyle prefix) = Some \<lparr>klass = Stroke, props = ps\<rparr> \<and>
         map_of ps ''color'' =
           (if hasProp h vlStyle (addPrefix prefix ''strokeColor'')
            then Some (normalizeColor rt (get_prop h vlStyle (addPrefix prefix ''strokeColor'')))
            else None) \<and>
         (\<forall>(n, w) \<in> set ps.
            \<exists>k \<in> set (stroke_keys prefix). hasProp h vlStyle k \<and>
              w = (if n = ''color'' then normalizeColor rt (get_prop h vlStyle k)
                   else get_prop h vlStyle k))"
    if hyp: "literal_pattern prefix \<and>
        \<not> instance_of h (get_prop h vlStyle (addPrefix prefix ''stroke'')) Stroke \<and>
        (\<exists>k \<in> set (stroke_keys prefix). hasProp h vlStyle k)"
  proof -
    from hyp have lit: "literal_pattern prefix"
      and ni: "\<not> instance_of h (get_prop h vlStyle (addPrefix prefix ''stroke'')) Stroke"
      and hp: "\<exists>k \<in> set (stroke_keys prefix). hasProp h vlStyle k"
      by simp_all
    let ?h' = "\<lambda>ps. h @ [object_literal ps, \<lparr>klass = Stroke, props = ps\<rparr>]"
    from createStrokeStyle_color [OF lit ni hp, of rt]
    obtain ps where c: "createStrokeStyle rt h vlStyle prefix = (Inr (JRef (Suc (length h))), ?h' ps)"
      and col: "map_of ps ''color'' =
           (if hasProp h vlStyle (addPrefix prefix ''strokeColor'')
            then Some (normalizeColor rt (get_prop h vlStyle (addPrefix prefix ''strokeColor'')))
            else None)"
      by blast
    have at: "props_at (?h' ps) (Suc (length h)) = ps"
      by (simp add: props_at_def obj_at_def nth_append)
    have comp: "compiled (createStrokeStyle rt h vlStyle prefix) = Some \<lparr>klass = Stroke, props = ps\<rparr>"
      by (simp only: c compiled_fresh)
    have every: "\<exists>k \<in> set (stroke_keys prefix). hasProp h vlStyle k \<and>
              w = (if n = ''color'' then normalizeColor rt (get_prop h vlStyle k)
                   else get_prop h vlStyle k)"
      if "(n, w) \<in> set ps" for n w
      using stroke_options_from_record [OF ni c, of n w] that by (simp only: at)
    from comp col every show ?thesis by blast
  qed
qed

theorem color_is_normalized_witness:
  "normalizeColor sample_runtime (JStr ''red'') =
     JArr [JNum (Finite 255), JNum (Finite 0), JNum (Finite 0), JNum (Finite 1)] \<and>
   normalizeColor sample_runtime (JNum (Finite 2)) = JNum (Finite 2) \<and>
   (\<exists>k \<in> set (fill_keys ''''). hasProp sample_heap 0 k \<and>
      JArr [JNum (Finite 255), JNum (Finite 0), JNum (Finite 0), JNum (Finite 1)] =
        normalizeColor sample_runtime (get_prop sample_heap 0 k)) \<and>
   (\<exists>k \<in> set (stroke_keys ''''). hasProp sample_heap 0 k \<and>
      JNum (Finite 2) = get_prop sample_heap 0 k) \<and>
   compiled (createFillStyle sample_runtime sample_heap 0 '''') =
     Some \<lparr>klass = Fill,
           props = [(''color'', normalizeColor sample_runtime (get_prop sample_heap 0 ''fillColor''))]\<rparr> \<and>
   (\<exists>ps. compiled (createStrokeStyle sample_runtime stroked_heap 0 '''') =
            Some \<lparr>klass = Stroke, props = ps\<rparr> \<and>
          map_of ps ''color'' =
            Some (JArr [JNum (Finite 255), JNum (Finite 0), JNum (Finite 0), JNum (Finite 1)]) \<and>
          map_of ps ''lineCap'' = Some (JStr ''round''))"
proof -
  let ?red = "JArr [JNum (Finite 255), JNum (Finite 0), JNum (Finite 0), JNum (Finite 1)]"
  let ?hf = "snd (createFillStyle sample_runtime sample_heap 0 [])"
  let ?hs = "snd (createStrokeStyle sample_runtime sample_heap 0 [])"
  note fill = color_is_normalized [where rt = sample_runtime and s = "''red''"
      and color = "JNum (Finite 2)" and h = sample_heap and vlStyle = 0 and prefix = "[]" and r = 2
      and h' = ?hf]
  note stroke = color_is_normalized [where rt = sample_runtime and s = "''red''"
      and color = "JNum (Finite 2)" and h = sample_heap and vlStyle = 0 and prefix = "[]" and r = 2
      and h' = ?hs]
  note stroked = color_is_normalized [where rt = sample_runtime and s = "''red''"
      and color = "JNum (Finite 2)" and h = stroked_heap and vlStyle = 0 and prefix = "[]" and r = 2
      and h' = stroked_heap]
  have cf: "createFillStyle sample_runtime sample_heap 0 [] = (Inr (JRef 2), ?hf)"
    by (simp add: sample_fill)
  have cs: "createStrokeStyle sample_runtime sample_heap 0 [] = (Inr (JRef 2), ?hs)"
    by (simp add: sample_stroke)
  have pf: "props_at ?hf 2 = [(''color'', ?red)]"
    by (simp add: sample_fill) (simp add: sample_heap_def props_at_def obj_at_def)
  have ps: "props_at ?hs 2 = [(''width'', JNum (Finite 2))]"
    by (simp add: sample_stroke) (simp add: sample_heap_def props_at_def obj_at_def)
  have red: "parseColor_rgba sample_runtime ''red'' = ?red"
    by (simp add: sample_runtime_def)
  have 1: "\<exists>k \<in> set (fill_keys []). hasProp sample_heap 0 k \<and>
      ?red = normalizeColor sample_runtime (get_prop sample_heap 0 k)"
    using fill sample_heap_facts(1) cf unfolding pf by simp
  have 2: "\<exists>k \<in> set (stroke_keys []). hasProp sample_heap 0 k \<and>
      JNum (Finite 2) = get_prop sample_heap 0 k"
    using stroke sample_heap_facts(2) cs unfolding ps by simp
  have 3: "compiled (createFillStyle sample_runtime sample_heap 0 []) =
     Some \<lparr>klass = Fill,
           props = [(''color'', normalizeColor sample_runtime (get_prop sample_heap 0 ''fillColor''))]\<rparr>"
    using fill sample_heap_facts by (simp add: addPrefix_def)
  from stroked sample_heap_facts(4) stroked_heap_facts(1,4)
  have "\<exists>qs.
      compiled (createStrokeStyle sample_runtime stroked_heap 0 []) =
        Some \<lparr>klass = Stroke, props = qs\<rparr> \<and>
      map_of qs ''color'' =
        (if hasProp stroked_heap 0 (addPrefix [] ''strokeColor'')
         then Some (normalizeColor sample_runtime (get_prop stroked_heap 0 (addPrefix [] ''strokeColor'')))
         else None)"
    by blast
  then obtain qs where q:
    "compiled (createStrokeStyle sample_runtime stroked_heap 0 []) = Some \<lparr>klass = Stroke, props = qs\<rparr>"
    "map_of qs ''color'' =
       Some (normalizeColor sample_runtime (get_prop stroked_heap 0 (addPrefix [] ''strokeColor'')))"
    using stroked_heap_facts(2) by auto
  have qcap: "map_of qs ''lineCap'' = Some (JStr ''round'')"
    using q(1) by (auto simp: sample_stroked)
  have 4: "\<exists>ps. compiled (createStrokeStyle sample_runtime stroked_heap 0 []) =
            Some \<lparr>klass = Stroke, props = ps\<rparr> \<and>
          map_of ps ''color'' = Some ?red \<and> map_of ps ''lineCap'' = Some (JStr ''round'')"
    using q qcap by (simp add: stroked_heap_facts(3) normalizeColor_def red)
  show ?thesis
    using fill 1 2 3 4 by (simp add: red)
qed

text \<open>
  Claim C8, for prefixes free of pattern syntax characters. Unless the record holds a
  compiled stroke, \<open>createStrokeStyle\<close> gathers options \<open>ps\<close>, returns \<open>undefined\<close> if
  there are none and a new \<open>Stroke\<close> built from them otherwise; there are none exactly
  when the record has none of the seven prefixed keys; and the options are the values of
  those keys under the names \<open>color\<close> (normalized), \<open>width\<close>, \<open>miterLimit\<close>,
  \<open>lineCap\<close>, \<open>lineJoin\<close>, \<open>lineDash\<close> and \<open>lineDashOffset\<close>, with no option
  under any other name.
\<close>

theorem stroke_keys_are_renamed:
  assumes "literal_pattern prefix"
    and "\<not> instance_of h (get_prop h vlStyle (addPrefix prefix ''stroke'')) Stroke"
  shows "\<exists>ps.
     createStrokeStyle rt h vlStyle prefix =
       (if ps = [] then (Inr JUndefined, h @ [object_literal []])
        else (Inr (JRef (Suc (length h))), h @ [object_literal ps, \<lparr>klass = Stroke, props = ps\<rparr>])) \<and>
     (ps = []) = (\<forall>k \<in> set (stroke_keys prefix). \<not> hasProp h vlStyle k) \<and>
     map_of ps ''color'' =
       map_option (normalizeColor rt) (map_of (props_at h vlStyle) (addPrefix prefix ''strokeColor'')) \<and>
     map_of ps ''width'' = map_of (props_at h vlStyle) (addPrefix prefix ''strokeWidth'') \<and>
     map_of ps ''miterLimit'' = map_of (props_at h vlStyle) (addPrefix prefix ''strokeMiterLimit'') \<and>
     map_of ps ''lineCap'' = map_of (props_at h vlStyle) (addPrefix prefix ''strokeCap'') \<and>
     map_of ps ''lineJoin'' = map_of (props_at h vlStyle) (addPrefix prefix ''strokeJoin'') \<and>
     map_of ps ''lineDash'' = map_of (props_at h vlStyle) (addPrefix prefix ''strokeDash'') \<and>
     map_of ps ''lineDashOffset'' =
       map_of (props_at h vlStyle) (addPrefix prefix ''strokeDashOffset'') \<and>
     (\<forall>n. n \<notin> set [''color'', ''width'', ''miterLimit'', ''lineCap'', ''lineJoin'', ''lineDash'',
                    ''lineDashOffset''] \<longrightarrow> map_of ps n = None)"
proof -
  define ps where "ps = snd (collect (stroke_entry rt prefix) (get_prop h vlStyle) (keys_at h vlStyle) [])"
  note t = stroke_options_literal [OF assms(1) ps_def]
  have "createStrokeStyle rt h vlStyle prefix =
       (if ps = [] then (Inr JUndefined, h @ [object_literal []])
        else (Inr (JRef (Suc (length h))), h @ [object_literal ps, \<lparr>klass = Stroke, props = ps\<rparr>]))"
    using createStrokeStyle_literal [OF assms, of rt] by (simp add: ps_def Let_def)
  moreover have "(ps = []) = (\<forall>k \<in> set (stroke_keys prefix). \<not> hasProp h vlStyle k)"
    unfolding ps_def by (rule stroke_options_Nil_iff [OF assms(1)])
  ultimately show ?thesis
    using t by blast
qed

theorem stroke_keys_are_renamed_witness:
  "literal_pattern ''text'' \<and>
   createStrokeStyle sample_runtime
     [object_literal [(''textStrokeColor'', JStr ''red''), (''textStrokeDash'', JArr [JNum (Finite 4)]),
                      (''strokeWidth'', JNum (Finite 2))]] 0 ''text'' =
     (Inr (JRef 2),
      [object_literal [(''textStrokeColor'', JStr ''red''), (''textStrokeDash'', JArr [JNum (Finite 4)]),
                       (''strokeWidth'', JNum (Finite 2))],
       object_literal
         [(''color'', JArr [JNum (Finite 255), JNum (Finite 0), JNum (Finite 0), JNum (Finite 1)]),
          (''lineDash'', JArr [JNum (Finite 4)])],
       \<lparr>klass = Stroke,
        props =
          [(''color'', JArr [JNum (Finite 255), JNum (Finite 0), JNum (Finite 0), JNum (Finite 1)]),
           (''lineDash'', JArr [JNum (Finite 4)])]\<rparr>])"
  using stroke_keys_are_renamed [of "''text''"
      "[object_literal [(''textStrokeColor'', JStr ''red''), (''textStrokeDash'', JArr [JNum (Finite 4)]),
                        (''strokeWidth'', JNum (Finite 2))]]" 0 sample_runtime]
  by (simp add: literal_pattern_def regexp_syntax_chars_def createStrokeStyle_closed instance_of_def
      get_prop_def props_at_def obj_at_def object_literal_def keys_at_def stroke_entry_literal
      addPrefix_def upperFirst_def toUpperCase_char_def normalizeColor_def sample_runtime_def)

text \<open>
  Under the prefix \<open>$\<close> the pattern \<open>$Stroke\<close> asks for the end of the input before an
  \<open>S\<close> and matches nowhere: the key \<open>$StrokeColor\<close> is stored under its own name, and
  its value is not normalized.
\<close>

theorem stroke_key_kept_under_dollar_prefix:
  "createStrokeStyle sample_runtime [object_literal [(''$StrokeColor'', JStr ''red'')]] 0 ''$'' =
     (Inr (JRef 2),
      [object_literal [(''$StrokeColor'', JStr ''red'')],
       object_literal [(''$StrokeColor'', JStr ''red'')],
       \<lparr>klass = Stroke, props = [(''$StrokeColor'', JStr ''red'')]\<rparr>])"
  by (simp add: createStrokeStyle_closed instance_of_def get_prop_def props_at_def obj_at_def
      object_literal_def keys_at_def stroke_entry_def stroke_keys_def stroke_option_name_def
      addPrefix_def upperFirst_def toUpperCase_char_def lowerFirst_def toLowerCase_char_def
      replace_RegExp_empty_def rx_atom_of_def regexp_syntax_chars_def)

section \<open>Claims about the whole style\<close>

text \<open>
  Claim C1 fails on the code. A record that holds only a key no compiler reads, here
  \<open>{foo: 1}\<close>, is not empty, so \<open>createStyle\<close> goes on; every sub-style compiles to
  \<open>undefined\<close>; but the object literal \<open>olStyle\<close> has its seven keys all the same, so
  the test \<open>!isEmpty(olStyle)\<close> holds and a \<open>Style\<close> is constructed from seven
  \<open>undefined\<close> options.
\<close>

theorem createStyle_builds_style_from_irrelevant_keys:
  "createStyle sample_runtime irrelevant_heap (JRef 0) =
     (Inr (JRef 4),
      [object_literal [(''foo'', JNum (Finite 1))],
       object_literal
         [(''text'', JUndefined), (''fill'', JUndefined), (''stroke'', JUndefined),
          (''image'', JUndefined), (''geometry'', JUndefined), (''zIndex'', JUndefined),
          (''renderer'', JUndefined)],
       object_literal [],
       object_literal [],
       \<lparr>klass = Style,
        props =
          [(''text'', JUndefined), (''fill'', JUndefined), (''stroke'', JUndefined),
           (''image'', JUndefined), (''geometry'', JUndefined), (''zIndex'', JUndefined),
           (''renderer'', JUndefined)]\<rparr>])"
  by (simp add: createStyle_def createTextStyle_def createImageStyle_def createFillStyle_closed
      createStrokeStyle_closed createGeomStyle_def irrelevant_heap_def object_literal_def
      alloc_def bind_outcome_def construct_def set_prop_def get_prop_def props_at_def obj_at_def
      keys_at_def instance_of_def isEmpty_def is_nullish_def is_number_def has_zero_length_def
      no_own_keys_def isFunction_def addPrefix_def fill_entry_def stroke_entry_def fill_keys_def
      stroke_keys_def sample_runtime_def)


section \<open>Claims about the image and text compilers\<close>

lemma literal_module_prefixes [simp]:
  "literal_pattern []" "literal_pattern ''image''" "literal_pattern ''text''"
  "literal_pattern ''textBackground''"
  by (simp_all add: literal_pattern_def regexp_syntax_chars_def)

lemma fill_collect_total:
  "literal_pattern p \<Longrightarrow> fst (collect (fill_entry rt p) look ks ps) = None"
  by (simp add: fill_collect_literal)

text \<open>Under a prefix free of syntax characters a compiler does not throw.\<close>

lemma createFillStyle_total:
  assumes "literal_pattern p"
  shows "\<exists>v h'. createFillStyle rt h a p = (Inr v, h') \<and> extends h h'"
proof -
  obtain m h' where r: "createFillStyle rt h a p = (m, h')"
    by (cases "createFillStyle rt h a p")
  have "extends h h'" using extends_createFillStyle [of h rt a p] r by simp
  moreover have "\<exists>v. m = Inr v"
    using r fill_collect_total [OF assms, of rt "get_prop h a" "keys_at h a" "[]"]
    by (auto simp: createFillStyle_closed split: if_splits prod.splits option.splits)
  ultimately show ?thesis using r by auto
qed

lemma createStrokeStyle_total:
  assumes "literal_pattern p"
  shows "\<exists>v h'. createStrokeStyle rt h a p = (Inr v, h') \<and> extends h h'"
proof -
  obtain m h' where r: "createStrokeStyle rt h a p = (m, h')"
    by (cases "createStrokeStyle rt h a p")
  have "extends h h'" using extends_createStrokeStyle [of h rt a p] r by simp
  moreover have "\<exists>v. m = Inr v"
    using r stroke_collect_literal [OF assms, of rt "get_prop h a" "keys_at h a" "[]"]
    by (auto simp: createStrokeStyle_closed split: if_splits prod.splits option.splits)
  ultimately show ?thesis using r by auto
qed

lemma fill_or_total:
  assumes "literal_pattern p" "literal_pattern q"
  shows "\<exists>v h'. or_else (createFillStyle rt h a p) (\<lambda>h'. createFillStyle rt h' a q) = (Inr v, h') \<and>
           extends h h'"
proof -
  from createFillStyle_total [OF assms(1), of rt h a]
  obtain v h1 where 1: "createFillStyle rt h a p = (Inr v, h1)" "extends h h1" by blast
  from createFillStyle_total [OF assms(2), of rt h1 a]
  obtain w h2 where 2: "createFillStyle rt h1 a q = (Inr w, h2)" "extends h1 h2" by blast
  show ?thesis
    using 1 2 by (auto simp: or_else_def intro: extends_trans)
qed

lemma stroke_or_total:
  assumes "literal_pattern p" "literal_pattern q"
  shows "\<exists>v h'. or_else (createStrokeStyle rt h a p) (\<lambda>h'. createStrokeStyle rt h' a q) = (Inr v, h') \<and>
           extends h h'"
proof -
  from createStrokeStyle_total [OF assms(1), of rt h a]
  obtain v h1 where 1: "createStrokeStyle rt h a p = (Inr v, h1)" "extends h h1" by blast
  from createStrokeStyle_total [OF assms(2), of rt h1 a]
  obtain w h2 where 2: "createStrokeStyle rt h1 a q = (Inr w, h2)" "extends h1 h2" by blast
  show ?thesis
    using 1 2 by (auto simp: or_else_def intro: extends_trans)
qed

lemma props_at_set_prop_same:
  "a < length h \<Longrightarrow> props_at (set_prop h a k v) a = AList.update k v (props_at h a)"
  by (simp add: props_at_def obj_at_def set_prop_def)

lemma obj_at_set_prop_same:
  "obj_at h a = Some ob \<Longrightarrow>
   obj_at (set_prop h a k v) a = Some (ob\<lparr>props := AList.update k v (props ob)\<rparr>)"
  by (auto simp: obj_at_def set_prop_def split: if_splits)

lemma isEmpty_object:
  "obj_at h r = Some ob \<Longrightarrow> props ob \<noteq> [] \<Longrightarrow> \<not> isEmpty h (JRef r)"
  by (simp add: isEmpty_def is_nullish_def is_number_def has_zero_length_def no_own_keys_def)

lemma construct_at:
  "construct c r h = (Inr (JRef (length h)), h @ [\<lparr>klass = c, props = props_at h r\<rparr>])"
  by (simp add: construct_def alloc_def)

lemma construct_image_at:
  "construct_image rt c r h =
     (case image_constructor_throws rt h c r of
        Some e \<Rightarrow> (Inl e, h)
      | None \<Rightarrow> (Inr (JRef (length h)), h @ [\<lparr>klass = c, props = props_at h r\<rparr>]))"
  by (simp add: construct_image_def construct_at split: option.splits)

text \<open>
  The second half of \<open>createImageStyle\<close>, from the second options object on: it ends in
  the call of the constructor of the chosen class, on the first options with \<open>fill\<close>,
  \<open>stroke\<close> and \<open>snapToPixel\<close> defined after them.
\<close>

lemma image_tail:
  assumes i: "obj_at h2 i = Some (object_literal ps0)"
    and grow: "extends h h2" and new: "length h \<le> i"
  shows "\<exists>fill stroke h5.
     bind_outcome
       (or_else (createFillStyle rt h2 a ''image'') (\<lambda>h'. createFillStyle rt h' a ''''))
       (\<lambda>fill h3.
          bind_outcome
            (or_else (createStrokeStyle rt (set_prop h3 i ''fill'' fill) a ''image'')
               (\<lambda>h'. createStrokeStyle rt h' a ''''))
            (\<lambda>stroke h4.
               if \<not> isEmpty (set_prop (set_prop h4 i ''stroke'' stroke) i ''snapToPixel'' (JBool True))
                        (JRef i)
               then construct_image rt Ctor i
                      (set_prop (set_prop h4 i ''stroke'' stroke) i ''snapToPixel'' (JBool True))
               else (Inr JUndefined,
                     set_prop (set_prop h4 i ''stroke'' stroke) i ''snapToPixel'' (JBool True))))
     = construct_image rt Ctor i h5 \<and>
     extends h h5 \<and>
     props_at h5 i =
       AList.update ''snapToPixel'' (JBool True)
         (AList.update ''stroke'' stroke (AList.update ''fill'' fill ps0))"
proof -
  have il: "i < length h2" using i by (auto simp: obj_at_def split: if_splits)
  from fill_or_total [of "''image''" "''''" rt h2 a]
  obtain fill h3 where f:
    "or_else (createFillStyle rt h2 a ''image'') (\<lambda>h'. createFillStyle rt h' a '''') = (Inr fill, h3)"
    "extends h2 h3" by auto
  have o3: "obj_at h3 i = Some (object_literal ps0)"
    using obj_at_prefix [OF f(2) il] i by simp
  let ?h3 = "set_prop h3 i ''fill'' fill"
  have o3': "obj_at ?h3 i = Some (object_literal (AList.update ''fill'' fill ps0))"
    using obj_at_set_prop_same [OF o3] by (simp add: object_literal_def)
  have il3: "i < length ?h3" using o3' by (auto simp: obj_at_def split: if_splits)
  have e3: "extends h ?h3"
    by (rule extends_set_prop [OF extends_trans [OF grow f(2)] new])
  from stroke_or_total [of "''image''" "''''" rt ?h3 a]
  obtain stroke h4 where s:
    "or_else (createStrokeStyle rt ?h3 a ''image'') (\<lambda>h'. createStrokeStyle rt h' a '''') =
       (Inr stroke, h4)"
    "extends ?h3 h4" by auto
  have o4: "obj_at h4 i = Some (object_literal (AList.update ''fill'' fill ps0))"
    using obj_at_prefix [OF s(2) il3] o3' by simp
  let ?h5 = "set_prop (set_prop h4 i ''stroke'' stroke) i ''snapToPixel'' (JBool True)"
  let ?ps = "AList.update ''snapToPixel'' (JBool True)
               (AList.update ''stroke'' stroke (AList.update ''fill'' fill ps0))"
  have o5: "obj_at ?h5 i = Some (object_literal ?ps)"
    using obj_at_set_prop_same [OF obj_at_set_prop_same [OF o4]]
    by (simp add: object_literal_def)
  have ne: "\<not> isEmpty ?h5 (JRef i)"
    by (rule isEmpty_object [OF o5]) (simp add: object_literal_def)
  have p5: "props_at ?h5 i = ?ps"
    using o5 by (simp add: props_at_def object_literal_def)
  have e5: "extends h ?h5"
    by (intro extends_set_prop extends_trans [OF e3 s(2)] new)
  show ?thesis
    unfolding f(1) bind_outcome_def prod.case sum.case s(1)
    apply (rule exI [of _ fill])
    apply (rule exI [of _ stroke])
    apply (rule exI [of _ ?h5])
    apply (simp only: ne if_True p5 e5)
    apply simp
    done
qed

lemma map_of_spread:
  "map_of (spread ps es) k = (case map_of (rev es) k of Some v \<Rightarrow> Some v | None \<Rightarrow> map_of ps k)"
proof (induction es arbitrary: ps)
  case Nil
  then show ?case by (simp add: spread_def)
next
  case (Cons e es)
  obtain k' v' where e: "e = (k', v')" by (cases e)
  have "spread ps (e # es) = spread (AList.update k' v' ps) es"
    by (simp add: spread_def e)
  then show ?case
    using Cons [of "AList.update k' v' ps"]
    by (auto simp: e update_conv' map_add_def split: option.splits)
qed

text \<open>
  Claim C9. \<open>createImageStyle\<close> returns \<open>undefined\<close> when \<open>imageSrc\<close>, \<open>image\<close> and
  \<open>imagePoints\<close> are all empty and \<open>imageRadius\<close> is not numeric. Otherwise, unless
  \<open>image\<close> is an \<open>ImageStyle\<close> already, it ends in one call \<open>new C(options)\<close>, in a store
  \<open>h5\<close> that has grown from the one it was given: \<open>C\<close> is \<open>Icon\<close> (with \<open>src\<close>, \<open>img\<close>
  and \<open>imgSize\<close> taken from \<open>imageSrc\<close>, \<open>image\<close> and \<open>imageImgSize\<close>) if \<open>imageSrc\<close> or
  \<open>image\<close> is not empty; else \<open>RegularShape\<close> (with \<open>points\<close> from \<open>imagePoints\<close>) if
  \<open>imagePoints\<close> is not \<open>null\<close> or \<open>undefined\<close>; else \<open>Circle\<close>, whose \<open>radius\<close> is
  \<open>imageRadius\<close>, which is numeric then. In each case the options hold \<open>snapToPixel\<close>
  set to \<open>true\<close>. What \<open>createImageStyle\<close> does is what this call does: it throws what
  the constructor throws on these options, and otherwise returns the new object of
  class \<open>C\<close>, which holds the options.
\<close>

theorem image_style_dispatch:
  "(isEmpty h (get_prop h vlStyle ''imageSrc'') \<and> isEmpty h (get_prop h vlStyle ''image'') \<and>
    isEmpty h (get_prop h vlStyle ''imagePoints'') \<and>
    \<not> isNumeric rt (get_prop h vlStyle ''imageRadius'') \<longrightarrow>
      createImageStyle rt h vlStyle = (Inr JUndefined, h)) \<and>
   (\<not> (isEmpty h (get_prop h vlStyle ''imageSrc'') \<and> isEmpty h (get_prop h vlStyle ''image'') \<and>
       isEmpty h (get_prop h vlStyle ''imagePoints'') \<and>
       \<not> isNumeric rt (get_prop h vlStyle ''imageRadius'')) \<and>
    \<not> instance_of_ImageStyle h (get_prop h vlStyle ''image'') \<longrightarrow>
      (\<exists>C h5 options ps.
         C = (if \<not> isEmpty h (get_prop h vlStyle ''imageSrc'') \<or>
                 \<not> isEmpty h (get_prop h vlStyle ''image'') then Icon
              else if \<not> is_nullish (get_prop h vlStyle ''imagePoints'') then RegularShape
              else Circle) \<and>
         extends h h5 \<and> length h \<le> options \<and> props_at h5 options = ps \<and>
         createImageStyle rt h vlStyle =
           (case image_constructor_throws rt h5 C options of
              Some e \<Rightarrow> (Inl e, h5)
            | None \<Rightarrow> (Inr (JRef (length h5)), h5 @ [\<lparr>klass = C, props = ps\<rparr>])) \<and>
         map_of ps ''snapToPixel'' = Some (JBool True) \<and>
         (if \<not> isEmpty h (get_prop h vlStyle ''imageSrc'') \<or>
             \<not> isEmpty h (get_prop h vlStyle ''image'')
          then map_of ps ''src'' = Some (get_prop h vlStyle ''imageSrc'') \<and>
               map_of ps ''img'' = Some (get_prop h vlStyle ''image'') \<and>
               map_of ps ''imgSize'' = Some (get_prop h vlStyle ''imageImgSize'')
          else if \<not> is_nullish (get_prop h vlStyle ''imagePoints'')
          then map_of ps ''points'' = Some (get_prop h vlStyle ''imagePoints'')
          else map_of ps ''radius'' = Some (get_prop h vlStyle ''imageRadius'') \<and>
               isNumeric rt (get_prop h vlStyle ''imageRadius''))))"
proof (intro conjI impI)
  assume "isEmpty h (get_prop h vlStyle ''imageSrc'') \<and> isEmpty h (get_prop h vlStyle ''image'') \<and>
    isEmpty h (get_prop h vlStyle ''imagePoints'') \<and>
    \<not> isNumeric rt (get_prop h vlStyle ''imageRadius'')"
  then show "createImageStyle rt h vlStyle = (Inr JUndefined, h)"
    by (simp add: createImageStyle_def)
next
  assume a: "\<not> (isEmpty h (get_prop h vlStyle ''imageSrc'') \<and> isEmpty h (get_prop h vlStyle ''image'') \<and>
       isEmpty h (get_prop h vlStyle ''imagePoints'') \<and>
       \<not> isNumeric rt (get_prop h vlStyle ''imageRadius'')) \<and>
    \<not> instance_of_ImageStyle h (get_prop h vlStyle ''image'')"
  obtain Ctor options where ic: "image_ctor h vlStyle = (Ctor, options)"
    by (cases "image_ctor h vlStyle")
  let ?h2 = "(h @ [object_literal options]) @
             [object_literal (props_at (h @ [object_literal options]) (length h))]"
  let ?i = "length (h @ [object_literal options])"
  have i: "obj_at ?h2 ?i = Some (object_literal options)"
    by (simp add: obj_at_def nth_append object_literal_def)
  have g2: "extends h ?h2" by (simp add: extends_iff)
  have new: "length h \<le> ?i" by simp
  from image_tail [OF i g2 new, of rt vlStyle Ctor]
  obtain fill stroke h5 where t:
    "createImageStyle rt h vlStyle = construct_image rt Ctor ?i h5"
    "extends h h5"
    "props_at h5 ?i =
       AList.update ''snapToPixel'' (JBool True)
         (AList.update ''stroke'' stroke (AList.update ''fill'' fill options))"
    using a unfolding createImageStyle_def ic alloc_def Let_def prod.case fst_conv snd_conv
    by (auto simp only: if_False)
  let ?ps = "AList.update ''snapToPixel'' (JBool True)
               (AList.update ''stroke'' stroke (AList.update ''fill'' fill options))"
  have nullish_empty: "is_nullish v \<Longrightarrow> isEmpty h v" for v
    by (simp add: isEmpty_def)
  have k: "Ctor =
      (if \<not> isEmpty h (get_prop h vlStyle ''imageSrc'') \<or>
          \<not> isEmpty h (get_prop h vlStyle ''image'') then Icon
       else if \<not> is_nullish (get_prop h vlStyle ''imagePoints'') then RegularShape
       else Circle)"
    using ic by (auto simp: image_ctor_def split: if_splits)
  have res: "createImageStyle rt h vlStyle =
           (case image_constructor_throws rt h5 Ctor ?i of
              Some e \<Rightarrow> (Inl e, h5)
            | None \<Rightarrow> (Inr (JRef (length h5)), h5 @ [\<lparr>klass = Ctor, props = ?ps\<rparr>]))"
    unfolding t(1) construct_image_at t(3) ..
  have snap: "map_of ?ps ''snapToPixel'' = Some (JBool True)"
    by (simp add: update_conv')
  have rest: "if \<not> isEmpty h (get_prop h vlStyle ''imageSrc'') \<or>
             \<not> isEmpty h (get_prop h vlStyle ''image'')
          then map_of ?ps ''src'' = Some (get_prop h vlStyle ''imageSrc'') \<and>
               map_of ?ps ''img'' = Some (get_prop h vlStyle ''image'') \<and>
               map_of ?ps ''imgSize'' = Some (get_prop h vlStyle ''imageImgSize'')
          else if \<not> is_nullish (get_prop h vlStyle ''imagePoints'')
          then map_of ?ps ''points'' = Some (get_prop h vlStyle ''imagePoints'')
          else map_of ?ps ''radius'' = Some (get_prop h vlStyle ''imageRadius'') \<and>
               isNumeric rt (get_prop h vlStyle ''imageRadius'')"
    using ic a nullish_empty [of "get_prop h vlStyle ''imagePoints''"]
    by (auto simp: image_ctor_def update_conv' icon_options_def regular_shape_options_def
        circle_options_def map_of_spread split: if_splits)
  show "\<exists>C h5 options ps.
         C = (if \<not> isEmpty h (get_prop h vlStyle ''imageSrc'') \<or>
                 \<not> isEmpty h (get_prop h vlStyle ''image'') then Icon
              else if \<not> is_nullish (get_prop h vlStyle ''imagePoints'') then RegularShape
              else Circle) \<and>
         extends h h5 \<and> length h \<le> options \<and> props_at h5 options = ps \<and>
         createImageStyle rt h vlStyle =
           (case image_constructor_throws rt h5 C options of
              Some e \<Rightarrow> (Inl e, h5)
            | None \<Rightarrow> (Inr (JRef (length h5)), h5 @ [\<lparr>klass = C, props = ps\<rparr>])) \<and>
         map_of ps ''snapToPixel'' = Some (JBool True) \<and>
         (if \<not> isEmpty h (get_prop h vlStyle ''imageSrc'') \<or>
             \<not> isEmpty h (get_prop h vlStyle ''image'')
          then map_of ps ''src'' = Some (get_prop h vlStyle ''imageSrc'') \<and>
               map_of ps ''img'' = Some (get_prop h vlStyle ''image'') \<and>
               map_of ps ''imgSize'' = Some (get_prop h vlStyle ''imageImgSize'')
          else if \<not> is_nullish (get_prop h vlStyle ''imagePoints'')
          then map_of ps ''points'' = Some (get_prop h vlStyle ''imagePoints'')
          else map_of ps ''radius'' = Some (get_prop h vlStyle ''imageRadius'') \<and>
               isNumeric rt (get_prop h vlStyle ''imageRadius''))"
    apply (rule exI [of _ Ctor])
    apply (rule exI [of _ h5])
    apply (rule exI [of _ ?i])
    apply (rule exI [of _ ?ps])
    apply (intro conjI)
          apply (rule k)
         apply (rule t(2))
        apply simp
       apply (rule t(3))
      apply (rule res)
     apply (rule snap)
    apply (rule rest)
    done
qed

subsection \<open>Compiling in a store that has grown\<close>

lemma closed_record_ref:
  "closed_record h a \<Longrightarrow> get_prop h a k = JRef r \<Longrightarrow> r < length h"
proof -
  assume c: "closed_record h a" and g: "get_prop h a k = JRef r"
  from g have "map_of (props_at h a) k = Some (JRef r)"
    by (auto simp: get_prop_def split: option.splits)
  then have "(k, JRef r) \<in> set (props_at h a)" by (rule map_of_SomeD)
  with c show ?thesis by (auto simp: closed_record_def list_all_iff)
qed

lemma instance_of_extends:
  assumes "extends h hk" and "\<And>r. v = JRef r \<Longrightarrow> r < length h"
  shows "instance_of hk v c = instance_of h v c"
  using assms by (cases v) (auto simp: instance_of_def obj_at_prefix)

lemma pointee_extends:
  assumes "extends h hk" and "\<And>r. v = JRef r \<Longrightarrow> r < length h"
  shows "pointee hk v = pointee h v"
  using assms by (cases v) (auto simp: pointee_def obj_at_prefix)

lemma pointee_undefined [simp]: "pointee h JUndefined = None"
  by (simp add: pointee_def)

lemma apart_undefined [simp]: "apart S n JUndefined"
  by (simp add: apart_def)

lemma apart_mono: "apart S n v \<Longrightarrow> n \<le> m \<Longrightarrow> apart S m v"
  by (cases v) (auto simp: apart_def)

text \<open>
  A compiler run on the record \<open>a\<close> in a store \<open>hk\<close> that extends \<open>h\<close> beyond the record
  gives what it gives in \<open>h\<close>: the same object, or \<open>undefined\<close> in both. What it returns
  is truthy exactly when it is an object, and the object is an old one of \<open>h\<close> or a new
  one beyond \<open>hk\<close>.
\<close>

lemma compile_in_extension:
  assumes lit: "literal_pattern p" and grow: "extends h hk" and a: "a < length h"
    and cl: "closed_record h a"
    and S: "\<And>r. r \<in> S \<Longrightarrow> length h \<le> r \<and> r < length hk"
  shows "\<exists>v hk'. createFillStyle rt hk a p = (Inr v, hk') \<and> extends hk hk' \<and>
           pointee hk' v = compiled (createFillStyle rt h a p) \<and>
           truthy v = (compiled (createFillStyle rt h a p) \<noteq> None) \<and>
           apart S (length hk') v"
    and "\<exists>v hk'. createStrokeStyle rt hk a p = (Inr v, hk') \<and> extends hk hk' \<and>
           pointee hk' v = compiled (createStrokeStyle rt h a p) \<and>
           truthy v = (compiled (createStrokeStyle rt h a p) \<noteq> None) \<and>
           apart S (length hk') v"
proof -
  have look: "get_prop hk a = get_prop h a"
    by (intro ext) (rule get_prop_prefix [OF grow a])
  have keys: "keys_at hk a = keys_at h a" by (rule keys_at_prefix [OF grow a])
  have len: "length h \<le> length hk" by (rule extends_length [OF grow])
  have Sn: "r \<notin> S" if "r < length h" for r using S [of r] that by auto
  have Sn': "r \<notin> S" if "length hk \<le> r" for r using S [of r] that by auto
  {
    fix c :: klass and key :: string and g
    let ?v = "get_prop h a key"
    let ?col = "collect g (get_prop h a) (keys_at h a) []"
    assume total: "fst ?col = None"
    have inst: "instance_of hk ?v c = instance_of h ?v c"
      by (rule instance_of_extends [OF grow]) (rule closed_record_ref [OF cl])
    have pt: "pointee hk ?v = pointee h ?v"
      by (rule pointee_extends [OF grow]) (rule closed_record_ref [OF cl])
    have "\<exists>v hk'.
      (if instance_of hk (get_prop hk a key) c then (Inr (get_prop hk a key), hk)
       else
        (case collect g (get_prop hk a) (keys_at hk a) [] of
           (Some e, ps) \<Rightarrow> (Inl e, hk @ [object_literal ps])
         | (None, ps) \<Rightarrow>
             if ps = [] then (Inr JUndefined, hk @ [object_literal []])
             else (Inr (JRef (Suc (length hk))), hk @ [object_literal ps, \<lparr>klass = c, props = ps\<rparr>])))
        = (Inr v, hk') \<and> extends hk hk' \<and>
      pointee hk' v = compiled
        (if instance_of h (get_prop h a key) c then (Inr (get_prop h a key), h)
         else
          (case collect g (get_prop h a) (keys_at h a) [] of
             (Some e, ps) \<Rightarrow> (Inl e, h @ [object_literal ps])
           | (None, ps) \<Rightarrow>
               if ps = [] then (Inr JUndefined, h @ [object_literal []])
               else (Inr (JRef (Suc (length h))), h @ [object_literal ps, \<lparr>klass = c, props = ps\<rparr>]))) \<and>
      truthy v = (compiled
        (if instance_of h (get_prop h a key) c then (Inr (get_prop h a key), h)
         else
          (case collect g (get_prop h a) (keys_at h a) [] of
             (Some e, ps) \<Rightarrow> (Inl e, h @ [object_literal ps])
           | (None, ps) \<Rightarrow>
               if ps = [] then (Inr JUndefined, h @ [object_literal []])
               else (Inr (JRef (Suc (length h))), h @ [object_literal ps, \<lparr>klass = c, props = ps\<rparr>])))
         \<noteq> None) \<and>
      apart S (length hk') v"
    proof (cases "instance_of h ?v c")
      case True
      then obtain r ob where r: "?v = JRef r" "obj_at h r = Some ob"
        by (cases ?v) (auto simp: instance_of_def split: option.splits)
      have rl: "r < length h" using r(2) by (auto simp: obj_at_def split: if_splits)
      show ?thesis
        using True r rl pt inst Sn [OF rl] len
        by (simp add: look compiled_def pointee_def apart_def)
    next
      case False
      obtain ps where c: "?col = (None, ps)" using total by (cases ?col) auto
      show ?thesis
      proof (cases "ps = []")
        case True
        with False c show ?thesis by (simp add: look keys inst compiled_def)
      next
        case ne: False
        have "Suc (length hk) \<notin> S" by (rule Sn') simp
        with False c ne show ?thesis
          by (simp add: look keys inst compiled_def pointee_def obj_at_def nth_append apart_def)
      qed
    qed
  }
  note gen = this
  show "\<exists>v hk'. createFillStyle rt hk a p = (Inr v, hk') \<and> extends hk hk' \<and>
           pointee hk' v = compiled (createFillStyle rt h a p) \<and>
           truthy v = (compiled (createFillStyle rt h a p) \<noteq> None) \<and>
           apart S (length hk') v"
    unfolding createFillStyle_closed
    by (rule gen) (rule fill_collect_total [OF lit])
  show "\<exists>v hk'. createStrokeStyle rt hk a p = (Inr v, hk') \<and> extends hk hk' \<and>
           pointee hk' v = compiled (createStrokeStyle rt h a p) \<and>
           truthy v = (compiled (createStrokeStyle rt h a p) \<noteq> None) \<and>
           apart S (length hk') v"
    unfolding createStrokeStyle_closed
    by (rule gen) (rule stroke_collect_literal [OF lit])
qed

lemma compile_or_in_extension:
  assumes lit: "literal_pattern p" "literal_pattern q" and grow: "extends h hk"
    and a: "a < length h" and cl: "closed_record h a"
    and S: "\<And>r. r \<in> S \<Longrightarrow> length h \<le> r \<and> r < length hk"
  shows "\<exists>v hk'. or_else (createFillStyle rt hk a p) (\<lambda>h'. createFillStyle rt h' a q) = (Inr v, hk') \<and>
           extends hk hk' \<and>
           pointee hk' v =
             first_of (compiled (createFillStyle rt h a p)) (compiled (createFillStyle rt h a q)) \<and>
           apart S (length hk') v"
    and "\<exists>v hk'. or_else (createStrokeStyle rt hk a p) (\<lambda>h'. createStrokeStyle rt h' a q) = (Inr v, hk') \<and>
           extends hk hk' \<and>
           pointee hk' v =
             first_of (compiled (createStrokeStyle rt h a p)) (compiled (createStrokeStyle rt h a q)) \<and>
           apart S (length hk') v"
proof -
  from compile_in_extension(1) [OF lit(1) grow a cl S, of S rt]
  obtain v1 h1 where 1: "createFillStyle rt hk a p = (Inr v1, h1)" "extends hk h1"
    "pointee h1 v1 = compiled (createFillStyle rt h a p)"
    "truthy v1 = (compiled (createFillStyle rt h a p) \<noteq> None)" "apart S (length h1) v1"
    by blast
  have g1: "extends h h1" by (rule extends_trans [OF grow 1(2)])
  have S1: "length h \<le> r \<and> r < length h1" if "r \<in> S" for r
    using S [OF that] extends_length [OF 1(2)] by auto
  from compile_in_extension(1) [OF lit(2) g1 a cl S1, of S rt]
  obtain v2 h2 where 2: "createFillStyle rt h1 a q = (Inr v2, h2)" "extends h1 h2"
    "pointee h2 v2 = compiled (createFillStyle rt h a q)" "apart S (length h2) v2"
    by blast
  show "\<exists>v hk'. or_else (createFillStyle rt hk a p) (\<lambda>h'. createFillStyle rt h' a q) = (Inr v, hk') \<and>
           extends hk hk' \<and>
           pointee hk' v =
             first_of (compiled (createFillStyle rt h a p)) (compiled (createFillStyle rt h a q)) \<and>
           apart S (length hk') v"
  proof (cases "truthy v1")
    case True
    with 1 show ?thesis by (auto simp: or_else_def first_of_def)
  next
    case False
    with 1 2 extends_trans [OF 1(2) 2(2)] show ?thesis
      by (auto simp: or_else_def first_of_def)
  qed
  from compile_in_extension(2) [OF lit(1) grow a cl S, of S rt]
  obtain w1 k1 where 3: "createStrokeStyle rt hk a p = (Inr w1, k1)" "extends hk k1"
    "pointee k1 w1 = compiled (createStrokeStyle rt h a p)"
    "truthy w1 = (compiled (createStrokeStyle rt h a p) \<noteq> None)" "apart S (length k1) w1"
    by blast
  have g3: "extends h k1" by (rule extends_trans [OF grow 3(2)])
  have S3: "length h \<le> r \<and> r < length k1" if "r \<in> S" for r
    using S [OF that] extends_length [OF 3(2)] by auto
  from compile_in_extension(2) [OF lit(2) g3 a cl S3, of S rt]
  obtain w2 k2 where 4: "createStrokeStyle rt k1 a q = (Inr w2, k2)" "extends k1 k2"
    "pointee k2 w2 = compiled (createStrokeStyle rt h a q)" "apart S (length k2) w2"
    by blast
  show "\<exists>v hk'. or_else (createStrokeStyle rt hk a p) (\<lambda>h'. createStrokeStyle rt h' a q) = (Inr v, hk') \<and>
           extends hk hk' \<and>
           pointee hk' v =
             first_of (compiled (createStrokeStyle rt h a p)) (compiled (createStrokeStyle rt h a q)) \<and>
           apart S (length hk') v"
  proof (cases "truthy w1")
    case True
    with 3 show ?thesis by (auto simp: or_else_def first_of_def)
  next
    case False
    with 3 4 extends_trans [OF 3(2) 4(2)] show ?thesis
      by (auto simp: or_else_def first_of_def)
  qed
qed

subsection \<open>Values that stay where they are\<close>

lemma pointee_set_prop:
  "apart S n v \<Longrightarrow> x \<in> S \<Longrightarrow> pointee (set_prop h x k w) v = pointee h v"
  by (cases v) (auto simp: apart_def pointee_def intro!: obj_at_set_prop_other)

lemma pointee_grow:
  "apart S (length h1) v \<Longrightarrow> extends h1 h2 \<Longrightarrow> pointee h2 v = pointee h1 v"
  by (cases v) (auto simp: apart_def pointee_def obj_at_prefix)

lemma obj_at_foldl_set_prop_other:
  "r \<noteq> t \<Longrightarrow> obj_at (foldl (\<lambda>h' x. set_prop h' t (key x) (val h' x)) h xs) r = obj_at h r"
  by (induction xs arbitrary: h) (auto simp: obj_at_set_prop_other)

lemma obj_at_assign_other: "r \<noteq> t \<Longrightarrow> obj_at (assign h t s) r = obj_at h r"
  unfolding assign_def
  by (rule obj_at_foldl_set_prop_other [where key = "\<lambda>x. x" and val = "\<lambda>h' x. get_prop h' s x"])

lemma obj_at_plain_other: "r \<noteq> t \<Longrightarrow> obj_at (set_text_plain_options h t a) r = obj_at h r"
  unfolding set_text_plain_options_def
  using obj_at_foldl_set_prop_other [where key = fst and val = "\<lambda>h' x. get_prop h' a (snd x)"
      and xs = text_plain_options and h = h and t = t and r = r]
  by (simp add: case_prod_unfold)

lemma pointee_assign:
  "apart S n v \<Longrightarrow> t \<in> S \<Longrightarrow> pointee (assign h t s) v = pointee h v"
  by (cases v) (auto simp: apart_def pointee_def intro!: obj_at_assign_other)

lemma pointee_plain:
  "apart S n v \<Longrightarrow> t \<in> S \<Longrightarrow> pointee (set_text_plain_options h t a) v = pointee h v"
  by (cases v) (auto simp: apart_def pointee_def intro!: obj_at_plain_other)

lemma get_prop_obj_at: "obj_at h' a = obj_at h a \<Longrightarrow> get_prop h' a = get_prop h a"
  by (intro ext) (simp add: get_prop_def props_at_def)

lemma hasProp_obj_at: "obj_at h' a = obj_at h a \<Longrightarrow> hasProp h' a = hasProp h a"
  by (intro ext) (simp add: hasProp_def keys_at_def props_at_def)

lemma hasProp_set_prop:
  "x < length h \<Longrightarrow> hasProp (set_prop h x k v) x k' = (k' = k \<or> hasProp h x k')"
  by (auto simp: hasProp_def keys_at_def props_at_set_prop_same update_keys)

lemma hasProp_plain:
  "hasProp h t k \<Longrightarrow> hasProp (set_text_plain_options h t a) t k"
proof -
  assume hp: "hasProp h t k"
  then have t: "t < length h" by (rule hasProp_valid)
  have "hasProp (foldl (\<lambda>h' x. set_prop h' t (fst x) (get_prop h' a (snd x))) h xs) t k" for xs
    using hp t
  proof (induction xs arbitrary: h)
    case Nil
    then show ?case by simp
  next
    case (Cons x xs)
    show ?case
      using Cons.prems by (auto intro!: Cons.IH simp: hasProp_set_prop)
  qed
  then show ?thesis
    by (simp add: set_text_plain_options_def case_prod_unfold)
qed

lemma get_prop_plain:
  "k \<notin> fst ` set text_plain_options \<Longrightarrow>
   get_prop (set_text_plain_options h t a) t k = get_prop h t k"
proof -
  assume k: "k \<notin> fst ` set text_plain_options"
  have "k \<notin> fst ` set xs \<Longrightarrow>
        get_prop (foldl (\<lambda>h' x. set_prop h' t (fst x) (get_prop h' a (snd x))) h xs) t k =
        get_prop h t k" for xs
  proof (induction xs arbitrary: h)
    case Nil
    then show ?case by simp
  next
    case (Cons x xs)
    then show ?case by (auto simp: get_prop_set_prop_other_key)
  qed
  from this [OF k] show ?thesis
    by (simp add: set_text_plain_options_def case_prod_unfold)
qed

lemma assign_target:
  assumes "t \<noteq> s" and "t < length h"
  shows "get_prop (assign h t s) t k = (if hasProp h s k then get_prop h s k else get_prop h t k)"
    and "hasProp (assign h t s) t k = (hasProp h s k \<or> hasProp h t k)"
proof -
  have gen: "get_prop (foldl (\<lambda>h' key. set_prop h' t key (get_prop h' s key)) h ks) t k =
          (if k \<in> set ks then get_prop h s k else get_prop h t k) \<and>
        hasProp (foldl (\<lambda>h' key. set_prop h' t key (get_prop h' s key)) h ks) t k =
          (k \<in> set ks \<or> hasProp h t k)" for ks
    using assms(2)
  proof (induction ks arbitrary: h)
    case Nil
    then show ?case by simp
  next
    case (Cons key ks)
    let ?h = "set_prop h t key (get_prop h s key)"
    have l: "t < length ?h" using Cons.prems by simp
    have s: "get_prop ?h s = get_prop h s"
      using assms(1) by (simp add: get_prop_set_prop_other)
    show ?case
      using Cons.IH [OF l] Cons.prems
      by (auto simp: s get_prop_set_prop_same get_prop_set_prop_other_key hasProp_set_prop)
  qed
  show "get_prop (assign h t s) t k = (if hasProp h s k then get_prop h s k else get_prop h t k)"
    using gen [of "keys_at h s"] by (simp add: assign_def hasProp_def)
  show "hasProp (assign h t s) t k = (hasProp h s k \<or> hasProp h t k)"
    using gen [of "keys_at h s"] by (simp add: assign_def hasProp_def)
qed


subsection \<open>Properties that stay as they are\<close>

lemma has_value_valid: "has_value h a k v \<Longrightarrow> a < length h"
  by (auto simp: has_value_def dest: hasProp_valid)

lemma has_value_set_same: "a < length h \<Longrightarrow> has_value (set_prop h a k v) a k v"
  by (simp add: has_value_def hasProp_set_prop get_prop_set_prop_same)

lemma has_value_set_other:
  "has_value h a k v \<Longrightarrow> k' \<noteq> k \<Longrightarrow> has_value (set_prop h a k' v') a k v"
  by (frule has_value_valid)
    (auto simp: has_value_def hasProp_set_prop get_prop_set_prop_other_key)

lemma has_value_obj_at: "has_value h a k v \<Longrightarrow> obj_at h' a = obj_at h a \<Longrightarrow> has_value h' a k v"
proof -
  assume v: "has_value h a k v" and e: "obj_at h' a = obj_at h a"
  have "get_prop h' a = get_prop h a" using e by (rule get_prop_obj_at)
  moreover have "hasProp h' a = hasProp h a" using e by (rule hasProp_obj_at)
  ultimately show ?thesis using v by (simp add: has_value_def)
qed

lemma has_value_extends: "has_value h a k v \<Longrightarrow> extends h h' \<Longrightarrow> has_value h' a k v"
proof -
  assume v: "has_value h a k v" and e: "extends h h'"
  have "obj_at h' a = obj_at h a"
    by (rule obj_at_prefix [OF e has_value_valid [OF v]])
  with v show ?thesis by (rule has_value_obj_at)
qed

lemma has_value_plain:
  "has_value h t k v \<Longrightarrow> k \<notin> fst ` set text_plain_options \<Longrightarrow>
   has_value (set_text_plain_options h t a) t k v"
  by (simp add: has_value_def hasProp_plain get_prop_plain)

lemma has_value_assign_other:
  "has_value h a k v \<Longrightarrow> a \<noteq> t \<Longrightarrow> has_value (assign h t s) a k v"
proof -
  assume v: "has_value h a k v" and n: "a \<noteq> t"
  have "obj_at (assign h t s) a = obj_at h a"
    by (rule obj_at_assign_other [OF n])
  with v show ?thesis by (rule has_value_obj_at)
qed

lemma has_value_assign:
  "has_value h s k v \<Longrightarrow> t \<noteq> s \<Longrightarrow> t < length h \<Longrightarrow> has_value (assign h t s) t k v"
  by (simp add: has_value_def assign_target)

lemma has_value_not_empty: "has_value h r k v \<Longrightarrow> \<not> isEmpty h (JRef r)"
  by (frule has_value_valid)
    (auto simp: has_value_def hasProp_def keys_at_def props_at_def obj_at_def isEmpty_def
      is_nullish_def is_number_def has_zero_length_def no_own_keys_def)

lemma has_value_constructed:
  "has_value h r k v \<Longrightarrow> get_prop (h @ [\<lparr>klass = c, props = props_at h r\<rparr>]) (length h) k = v"
  by (simp add: has_value_def get_prop_def)

lemma plain_keys:
  "''fill'' \<notin> fst ` set text_plain_options" "''stroke'' \<notin> fst ` set text_plain_options"
  "''backgroundFill'' \<notin> fst ` set text_plain_options"
  "''backgroundStroke'' \<notin> fst ` set text_plain_options"
  unfolding text_plain_options_def list.set image_insert image_empty fst_conv
  by simp_all

lemma pick_result:
  "fst (pick h ob ks) = length h \<and> length (snd (pick h ob ks)) = Suc (length h) \<and>
   extends h (snd (pick h ob ks))"
  unfolding pick_def alloc_def Let_def prod.case fst_conv snd_conv
  by (intro conjI refl extends_pick_heap) simp_all


subsection \<open>The text style\<close>

lemma text_scoping:
  assumes a: "a < length h" and cl: "closed_record h a"
    and t1: "\<not> is_nullish (get_prop h a ''text'')"
    and t2: "\<not> instance_of h (get_prop h a ''text'') Text"
  shows "\<exists>t h'. createTextStyle rt h a = (Inr (JRef t), h') \<and>
      pointee h' (get_prop h' t ''fill'') =
        first_of (compiled (createFillStyle rt h a ''text'')) (compiled (createFillStyle rt h a '''')) \<and>
      pointee h' (get_prop h' t ''stroke'') =
        first_of (compiled (createStrokeStyle rt h a ''text''))
          (compiled (createStrokeStyle rt h a '''')) \<and>
      pointee h' (get_prop h' t ''backgroundFill'') =
        compiled (createFillStyle rt h a ''textBackground'') \<and>
      pointee h' (get_prop h' t ''backgroundStroke'') =
        compiled (createStrokeStyle rt h a ''textBackground'')"
proof -
  let ?h1 = "h @ [object_literal [(''text'', get_prop h a ''text'')]]"
  obtain picked h2 where pk: "pick ?h1 a [''textAlign'', ''textBaseline''] = (picked, h2)"
    by (cases "pick ?h1 a [''textAlign'', ''textBaseline'']")
  from pick_result [of ?h1 a "[''textAlign'', ''textBaseline'']"] pk
  have picked: "picked = Suc (length h)" and l2: "length h2 = Suc (Suc (length h))"
    and e12: "extends ?h1 h2"
    by simp_all
  have e2: "extends h h2" by (rule extends_trans [OF _ e12]) simp
  let ?ts = "length h"
  let ?o = "length h2"
  let ?h3 = "h2 @ [object_literal [(''font'', JStr (text_font rt ?h1 a))]]"
  define S where "S = {?ts, picked, ?o}"
  have tsS: "?ts \<in> S" and oS: "?o \<in> S" by (simp_all add: S_def)
  have Sbound: "length h \<le> r \<and> r < length ?h3" if "r \<in> S" for r
    using that by (auto simp: S_def picked l2)
  have e3: "extends h ?h3" by (rule extends_more [OF e2])
  have lit: "literal_pattern ''text''" "literal_pattern ''''" "literal_pattern ''textBackground''"
    by simp_all
  \<comment> \<open>fill\<close>
  from compile_or_in_extension(1) [OF lit(1) lit(2) e3 a cl Sbound, of S rt]
  obtain vf h4 where f:
    "or_else (createFillStyle rt ?h3 a ''text'') (\<lambda>h'. createFillStyle rt h' a '''') = (Inr vf, h4)"
    "extends ?h3 h4"
    "pointee h4 vf =
       first_of (compiled (createFillStyle rt h a ''text'')) (compiled (createFillStyle rt h a ''''))"
    "apart S (length h4) vf"
    by blast
  let ?h4 = "set_prop h4 ?o ''fill'' vf"
  have l4: "length ?h3 \<le> length h4" by (rule extends_length [OF f(2)])
  have o4: "?o < length h4" using l4 by simp
  have e4: "extends h ?h4"
    by (rule extends_set_prop [OF extends_trans [OF e3 f(2)]]) (simp add: l2)
  have S4: "length h \<le> r \<and> r < length ?h4" if "r \<in> S" for r
    using Sbound [OF that] l4 by simp
  have vfill4: "has_value ?h4 ?o ''fill'' vf" by (rule has_value_set_same [OF o4])
  have pf4: "pointee ?h4 vf = pointee h4 vf" by (rule pointee_set_prop [OF f(4) oS])
  \<comment> \<open>stroke\<close>
  from compile_or_in_extension(2) [OF lit(1) lit(2) e4 a cl S4, of S rt]
  obtain vs h5 where s:
    "or_else (createStrokeStyle rt ?h4 a ''text'') (\<lambda>h'. createStrokeStyle rt h' a '''') = (Inr vs, h5)"
    "extends ?h4 h5"
    "pointee h5 vs =
       first_of (compiled (createStrokeStyle rt h a ''text''))
         (compiled (createStrokeStyle rt h a ''''))"
    "apart S (length h5) vs"
    by blast
  let ?h5 = "set_text_plain_options (set_prop h5 ?o ''stroke'' vs) ?o a"
  have l5: "length h4 \<le> length h5" using extends_length [OF s(2)] by simp
  have o5: "?o < length h5" using o4 l5 by simp
  have e5: "extends h ?h5"
    by (intro extends_set_text_plain_options extends_set_prop extends_trans [OF e4 s(2)])
      (simp_all add: l2)
  have S5: "length h \<le> r \<and> r < length ?h5" if "r \<in> S" for r
    using Sbound [OF that] l4 l5 by simp
  have vfill5: "has_value ?h5 ?o ''fill'' vf"
    by (intro has_value_plain has_value_set_other has_value_extends [OF vfill4 s(2)] plain_keys)
      simp
  have vstroke5: "has_value ?h5 ?o ''stroke'' vs"
    by (intro has_value_plain has_value_set_same o5 plain_keys)
  have pf5: "pointee ?h5 vf = pointee h4 vf"
    using pointee_plain [OF f(4) oS, of "set_prop h5 ?o ''stroke'' vs" a]
      pointee_set_prop [OF f(4) oS, of h5 "''stroke''" vs]
      pointee_grow [OF _ s(2), of S vf] f(4) pf4
    by simp
  have ps5: "pointee ?h5 vs = pointee h5 vs"
    using pointee_plain [OF s(4) oS, of "set_prop h5 ?o ''stroke'' vs" a]
      pointee_set_prop [OF s(4) oS, of h5 "''stroke''" vs]
    by simp
  \<comment> \<open>background fill\<close>
  from compile_in_extension(1) [OF lit(3) e5 a cl S5, of S rt]
  obtain vbf h6 where bf:
    "createFillStyle rt ?h5 a ''textBackground'' = (Inr vbf, h6)"
    "extends ?h5 h6"
    "pointee h6 vbf = compiled (createFillStyle rt h a ''textBackground'')"
    "apart S (length h6) vbf"
    by blast
  let ?h6 = "set_prop h6 ?o ''backgroundFill'' vbf"
  have l6: "length h5 \<le> length h6" using extends_length [OF bf(2)] by simp
  have o6: "?o < length h6" using o5 l6 by simp
  have e6: "extends h ?h6"
    by (rule extends_set_prop [OF extends_trans [OF e5 bf(2)]]) (simp add: l2)
  have S6: "length h \<le> r \<and> r < length ?h6" if "r \<in> S" for r
    using Sbound [OF that] l4 l5 l6 by simp
  have vfill6: "has_value ?h6 ?o ''fill'' vf"
    by (intro has_value_set_other has_value_extends [OF vfill5 bf(2)]) simp
  have vstroke6: "has_value ?h6 ?o ''stroke'' vs"
    by (intro has_value_set_other has_value_extends [OF vstroke5 bf(2)]) simp
  have vbf6: "has_value ?h6 ?o ''backgroundFill'' vbf" by (rule has_value_set_same [OF o6])
  have a5f: "apart S (length ?h5) vf" by (rule apart_mono [OF f(4)]) (use l5 in simp)
  have a5s: "apart S (length ?h5) vs" by (rule apart_mono [OF s(4)]) simp
  have pf6: "pointee ?h6 vf = pointee h4 vf"
    using pointee_set_prop [OF f(4) oS, of h6 "''backgroundFill''" vbf]
      pointee_grow [OF a5f bf(2)] pf5
    by simp
  have ps6: "pointee ?h6 vs = pointee h5 vs"
    using pointee_set_prop [OF s(4) oS, of h6 "''backgroundFill''" vbf]
      pointee_grow [OF a5s bf(2)] ps5
    by simp
  have pbf6: "pointee ?h6 vbf = pointee h6 vbf" by (rule pointee_set_prop [OF bf(4) oS])
  \<comment> \<open>background stroke\<close>
  from compile_in_extension(2) [OF lit(3) e6 a cl S6, of S rt]
  obtain vbs h7 where bs:
    "createStrokeStyle rt ?h6 a ''textBackground'' = (Inr vbs, h7)"
    "extends ?h6 h7"
    "pointee h7 vbs = compiled (createStrokeStyle rt h a ''textBackground'')"
    "apart S (length h7) vbs"
    by blast
  let ?h8 = "set_prop h7 ?o ''backgroundStroke'' vbs"
  let ?h9 = "assign (assign ?h8 ?ts picked) ?ts ?o"
  have l7: "length h6 \<le> length h7" using extends_length [OF bs(2)] by simp
  have o7: "?o < length h7" using o6 l7 by simp
  have vfill8: "has_value ?h8 ?o ''fill'' vf"
    by (intro has_value_set_other has_value_extends [OF vfill6 bs(2)]) simp
  have vstroke8: "has_value ?h8 ?o ''stroke'' vs"
    by (intro has_value_set_other has_value_extends [OF vstroke6 bs(2)]) simp
  have vbf8: "has_value ?h8 ?o ''backgroundFill'' vbf"
    by (intro has_value_set_other has_value_extends [OF vbf6 bs(2)]) simp
  have vbs8: "has_value ?h8 ?o ''backgroundStroke'' vbs" by (rule has_value_set_same [OF o7])
  have a6f: "apart S (length ?h6) vf" by (rule apart_mono [OF f(4)]) (use l5 l6 in simp)
  have a6s: "apart S (length ?h6) vs" by (rule apart_mono [OF s(4)]) (use l6 in simp)
  have a6b: "apart S (length ?h6) vbf" by (rule apart_mono [OF bf(4)]) simp
  have ts_o: "?ts \<noteq> ?o" by (simp add: l2)
  have tsl: "?ts < length (assign ?h8 ?ts picked)" using o7 l2 by simp
  have to9: "has_value ?h9 ?ts k v" if "has_value ?h8 ?o k v" for k v
    by (rule has_value_assign [OF has_value_assign_other [OF that ts_o [symmetric]] ts_o tsl])
  have p9: "pointee ?h9 v = pointee ?h8 v" if "apart S n v" for v n
    using pointee_assign [OF that tsS, of "assign ?h8 ?ts picked" ?o]
      pointee_assign [OF that tsS, of ?h8 picked]
    by simp
  have pf9: "pointee ?h9 vf = pointee h4 vf"
    using p9 [OF f(4)] pointee_set_prop [OF f(4) oS, of h7 "''backgroundStroke''" vbs]
      pointee_grow [OF a6f bs(2)] pf6
    by simp
  have ps9: "pointee ?h9 vs = pointee h5 vs"
    using p9 [OF s(4)] pointee_set_prop [OF s(4) oS, of h7 "''backgroundStroke''" vbs]
      pointee_grow [OF a6s bs(2)] ps6
    by simp
  have pbf9: "pointee ?h9 vbf = pointee h6 vbf"
    using p9 [OF bf(4)] pointee_set_prop [OF bf(4) oS, of h7 "''backgroundStroke''" vbs]
      pointee_grow [OF a6b bs(2)] pbf6
    by simp
  have pbs9: "pointee ?h9 vbs = pointee h7 vbs"
    using p9 [OF bs(4)] pointee_set_prop [OF bs(4) oS, of h7 "''backgroundStroke''" vbs]
    by simp
  have l9: "length ?h9 = length h7" by simp
  have ne: "isEmpty ?h9 (JRef ?ts) = False"
    using has_value_not_empty [OF to9 [OF vfill8]] by simp
  let ?t = "\<lparr>klass = Text, props = props_at ?h9 ?ts\<rparr>"
  have res: "createTextStyle rt h a = (Inr (JRef (length ?h9)), ?h9 @ [?t])"
    by (simp only: createTextStyle_def t1 t2 if_False alloc_def Let_def prod.case pk
        bind_outcome_def f(1) s(1) bf(1) bs(1) sum.case ne not_False_eq_True if_True construct_at)
  have grow9: "extends ?h9 (?h9 @ [?t])" by simp
  have fin: "pointee (?h9 @ [?t]) v = pointee ?h9 v" if "apart S n v" "n \<le> length ?h9" for v n
    by (rule pointee_grow [OF apart_mono [OF that] grow9])
  have n4: "length h4 \<le> length ?h9" using l5 l6 l7 by simp
  have n5: "length h5 \<le> length ?h9" using l6 l7 by simp
  have n6: "length h6 \<le> length ?h9" using l7 by simp
  have n7: "length h7 \<le> length ?h9" by simp
  show ?thesis
    apply (rule exI [of _ "length ?h9"])
    apply (rule exI [of _ "?h9 @ [?t]"])
    apply (simp only: res has_value_constructed [OF to9 [OF vfill8]]
        has_value_constructed [OF to9 [OF vstroke8]] has_value_constructed [OF to9 [OF vbf8]]
        has_value_constructed [OF to9 [OF vbs8]]
        fin [OF f(4) n4] fin [OF s(4) n5] fin [OF bf(4) n6] fin [OF bs(4) n7]
        pf9 ps9 pbf9 pbs9 f(3) s(3) bf(3) bs(3))
    done
qed

subsection \<open>The image style\<close>

lemma image_scoping:
  assumes a: "a < length h" and cl: "closed_record h a"
    and g: "\<not> (isEmpty h (get_prop h a ''imageSrc'') \<and> isEmpty h (get_prop h a ''image'') \<and>
              isEmpty h (get_prop h a ''imagePoints'') \<and>
              \<not> isNumeric rt (get_prop h a ''imageRadius''))"
    and i2: "\<not> instance_of_ImageStyle h (get_prop h a ''image'')"
  shows "\<exists>options h5.
      extends h h5 \<and> length h \<le> options \<and>
      createImageStyle rt h a =
        (case image_constructor_throws rt h5 (fst (image_ctor h a)) options of
           Some e \<Rightarrow> (Inl e, h5)
         | None \<Rightarrow>
             (Inr (JRef (length h5)),
              h5 @ [\<lparr>klass = fst (image_ctor h a), props = props_at h5 options\<rparr>])) \<and>
      pointee h5 (get_prop h5 options ''fill'') =
        first_of (compiled (createFillStyle rt h a ''image'')) (compiled (createFillStyle rt h a '''')) \<and>
      pointee h5 (get_prop h5 options ''stroke'') =
        first_of (compiled (createStrokeStyle rt h a ''image''))
          (compiled (createStrokeStyle rt h a '''')) \<and>
      (\<forall>r h'. createImageStyle rt h a = (Inr (JRef r), h') \<longrightarrow>
         pointee h' (get_prop h' r ''fill'') =
           first_of (compiled (createFillStyle rt h a ''image''))
             (compiled (createFillStyle rt h a '''')) \<and>
         pointee h' (get_prop h' r ''stroke'') =
           first_of (compiled (createStrokeStyle rt h a ''image''))
             (compiled (createStrokeStyle rt h a '''')))"
proof -
  obtain Ctor options where ic: "image_ctor h a = (Ctor, options)"
    by (cases "image_ctor h a")
  have Ctor: "fst (image_ctor h a) = Ctor" by (simp add: ic)
  let ?h1 = "h @ [object_literal options]"
  let ?h2 = "?h1 @ [object_literal (props_at ?h1 (length h))]"
  let ?i = "length ?h1"
  define S where "S = {length h, ?i}"
  have iS: "?i \<in> S" by (simp add: S_def)
  have Sbound: "length h \<le> r \<and> r < length ?h2" if "r \<in> S" for r
    using that by (auto simp: S_def)
  have e2: "extends h ?h2" by (simp add: extends_iff)
  have lit: "literal_pattern ''image''" "literal_pattern ''''" by simp_all
  from compile_or_in_extension(1) [OF lit e2 a cl Sbound, of S rt]
  obtain vf h3 where f:
    "or_else (createFillStyle rt ?h2 a ''image'') (\<lambda>h'. createFillStyle rt h' a '''') = (Inr vf, h3)"
    "extends ?h2 h3"
    "pointee h3 vf =
       first_of (compiled (createFillStyle rt h a ''image'')) (compiled (createFillStyle rt h a ''''))"
    "apart S (length h3) vf"
    by blast
  let ?h3 = "set_prop h3 ?i ''fill'' vf"
  have l3: "length ?h2 \<le> length h3" by (rule extends_length [OF f(2)])
  have i3: "?i < length h3" using l3 by simp
  have e3: "extends h ?h3"
    by (rule extends_set_prop [OF extends_trans [OF e2 f(2)]]) simp
  have S3: "length h \<le> r \<and> r < length ?h3" if "r \<in> S" for r
    using Sbound [OF that] l3 by simp
  have vfill3: "has_value ?h3 ?i ''fill'' vf" by (rule has_value_set_same [OF i3])
  have pf3: "pointee ?h3 vf = pointee h3 vf" by (rule pointee_set_prop [OF f(4) iS])
  from compile_or_in_extension(2) [OF lit e3 a cl S3, of S rt]
  obtain vs h4 where s:
    "or_else (createStrokeStyle rt ?h3 a ''image'') (\<lambda>h'. createStrokeStyle rt h' a '''') = (Inr vs, h4)"
    "extends ?h3 h4"
    "pointee h4 vs =
       first_of (compiled (createStrokeStyle rt h a ''image''))
         (compiled (createStrokeStyle rt h a ''''))"
    "apart S (length h4) vs"
    by blast
  let ?h5 = "set_prop (set_prop h4 ?i ''stroke'' vs) ?i ''snapToPixel'' (JBool True)"
  have l4: "length h3 \<le> length h4" using extends_length [OF s(2)] by simp
  have i4: "?i < length h4" using i3 l4 by simp
  have vfill5: "has_value ?h5 ?i ''fill'' vf"
    by (intro has_value_set_other has_value_extends [OF vfill3 s(2)]) simp_all
  have vstroke5: "has_value ?h5 ?i ''stroke'' vs"
    by (intro has_value_set_other has_value_set_same i4) simp
  have a3f: "apart S (length ?h3) vf" by (rule apart_mono [OF f(4)]) simp
  have pf5: "pointee ?h5 vf = pointee h3 vf"
    using pointee_set_prop [OF f(4) iS, of "set_prop h4 ?i ''stroke'' vs" "''snapToPixel''" "JBool True"]
      pointee_set_prop [OF f(4) iS, of h4 "''stroke''" vs]
      pointee_grow [OF a3f s(2)] pf3
    by simp
  have ps5: "pointee ?h5 vs = pointee h4 vs"
    using pointee_set_prop [OF s(4) iS, of "set_prop h4 ?i ''stroke'' vs" "''snapToPixel''" "JBool True"]
      pointee_set_prop [OF s(4) iS, of h4 "''stroke''" vs]
    by simp
  have ne: "isEmpty ?h5 (JRef ?i) = False"
    using has_value_not_empty [OF vfill5] by simp
  let ?t = "\<lparr>klass = Ctor, props = props_at ?h5 ?i\<rparr>"
  have res: "createImageStyle rt h a =
      (case image_constructor_throws rt ?h5 Ctor ?i of
         Some e \<Rightarrow> (Inl e, ?h5)
       | None \<Rightarrow> (Inr (JRef (length ?h5)), ?h5 @ [?t]))"
    using g i2
    by (simp only: createImageStyle_def if_False ic alloc_def Let_def prod.case
        bind_outcome_def f(1) s(1) sum.case ne not_False_eq_True if_True construct_image_at)
  have e5: "extends h ?h5"
    by (intro extends_set_prop extends_trans [OF e3 s(2)]) simp_all
  have grow5: "extends ?h5 (?h5 @ [?t])" by simp
  have fin: "pointee (?h5 @ [?t]) v = pointee ?h5 v" if "apart S n v" "n \<le> length ?h5" for v n
    by (rule pointee_grow [OF apart_mono [OF that] grow5])
  have n3: "length h3 \<le> length ?h5" using l4 by simp
  have n4: "length h4 \<le> length ?h5" by simp
  have gf: "get_prop ?h5 ?i ''fill'' = vf" using vfill5 by (simp add: has_value_def)
  have gs: "get_prop ?h5 ?i ''stroke'' = vs" using vstroke5 by (simp add: has_value_def)
  have opt_fill: "pointee ?h5 (get_prop ?h5 ?i ''fill'') =
      first_of (compiled (createFillStyle rt h a ''image'')) (compiled (createFillStyle rt h a ''''))"
    by (simp only: gf pf5 f(3))
  have opt_stroke: "pointee ?h5 (get_prop ?h5 ?i ''stroke'') =
      first_of (compiled (createStrokeStyle rt h a ''image''))
        (compiled (createStrokeStyle rt h a ''''))"
    by (simp only: gs ps5 s(3))
  have built: "pointee h' (get_prop h' r ''fill'') =
           first_of (compiled (createFillStyle rt h a ''image''))
             (compiled (createFillStyle rt h a '''')) \<and>
         pointee h' (get_prop h' r ''stroke'') =
           first_of (compiled (createStrokeStyle rt h a ''image''))
             (compiled (createStrokeStyle rt h a ''''))"
    if ret: "createImageStyle rt h a = (Inr (JRef r), h')" for r h'
  proof (cases "image_constructor_throws rt ?h5 Ctor ?i")
    case (Some e)
    with ret res show ?thesis by simp
  next
    case None
    with ret res have r: "r = length ?h5" and h': "h' = ?h5 @ [?t]" by simp_all
    show ?thesis
      by (simp only: r h' has_value_constructed [OF vfill5] has_value_constructed [OF vstroke5]
          fin [OF f(4) n3] fin [OF s(4) n4] pf5 ps5 f(3) s(3))
  qed
  show ?thesis
    apply (rule exI [of _ ?i])
    apply (rule exI [of _ ?h5])
    apply (intro conjI)
         apply (rule e5)
        apply simp
       apply (simp only: Ctor res)
      apply (rule opt_fill)
     apply (rule opt_stroke)
    apply (intro allI impI)
    apply (rule built, assumption)
    done
qed

text \<open>
  Claim C5. For a record of the store whose references are valid: when a text style is
  compiled, its \<open>fill\<close> is the fill compiled from the \<open>text\<close>-prefixed keys if there is
  one and the fill compiled from the unprefixed keys otherwise, and likewise its
  \<open>stroke\<close>; its \<open>backgroundFill\<close> and \<open>backgroundStroke\<close> are what the
  \<open>textBackground\<close>-prefixed keys compile to, with nothing to fall back on. When an
  image style is compiled, \<open>createImageStyle\<close> ends in the call \<open>new C(options)\<close> of the
  image constructor it has chosen, and throws what that throws or returns the new
  object, which holds the options; the \<open>fill\<close> and \<open>stroke\<close> of these options, and so
  of every image style returned, are those of the \<open>image\<close>-prefixed keys if there are
  any and those of the unprefixed keys otherwise. "The fill compiled from a prefix" is
  what \<open>createFillStyle\<close> gives for the record under that prefix: \<open>compiled\<close> is the
  object it returns, \<open>None\<close> standing for \<open>undefined\<close>.
\<close>

theorem prefix_scoping_with_fallback:
  assumes "vlStyle < length h" and "closed_record h vlStyle"
  shows
   "(\<not> is_nullish (get_prop h vlStyle ''text'') \<and>
     \<not> instance_of h (get_prop h vlStyle ''text'') Text \<longrightarrow>
       (\<exists>t h'. createTextStyle rt h vlStyle = (Inr (JRef t), h') \<and>
          pointee h' (get_prop h' t ''fill'') =
            first_of (compiled (createFillStyle rt h vlStyle ''text''))
              (compiled (createFillStyle rt h vlStyle '''')) \<and>
          pointee h' (get_prop h' t ''stroke'') =
            first_of (compiled (createStrokeStyle rt h vlStyle ''text''))
              (compiled (createStrokeStyle rt h vlStyle '''')) \<and>
          pointee h' (get_prop h' t ''backgroundFill'') =
            compiled (createFillStyle rt h vlStyle ''textBackground'') \<and>
          pointee h' (get_prop h' t ''backgroundStroke'') =
            compiled (createStrokeStyle rt h vlStyle ''textBackground''))) \<and>
    (\<not> (isEmpty h (get_prop h vlStyle ''imageSrc'') \<and> isEmpty h (get_prop h vlStyle ''image'') \<and>
        isEmpty h (get_prop h vlStyle ''imagePoints'') \<and>
        \<not> isNumeric rt (get_prop h vlStyle ''imageRadius'')) \<and>
     \<not> instance_of_ImageStyle h (get_prop h vlStyle ''image'') \<longrightarrow>
       (\<exists>options h5.
          extends h h5 \<and> length h \<le> options \<and>
          createImageStyle rt h vlStyle =
            (case image_constructor_throws rt h5 (fst (image_ctor h vlStyle)) options of
               Some e \<Rightarrow> (Inl e, h5)
             | None \<Rightarrow>
                 (Inr (JRef (length h5)),
                  h5 @ [\<lparr>klass = fst (image_ctor h vlStyle), props = props_at h5 options\<rparr>])) \<and>
          pointee h5 (get_prop h5 options ''fill'') =
            first_of (compiled (createFillStyle rt h vlStyle ''image''))
              (compiled (createFillStyle rt h vlStyle '''')) \<and>
          pointee h5 (get_prop h5 options ''stroke'') =
            first_of (compiled (createStrokeStyle rt h vlStyle ''image''))
              (compiled (createStrokeStyle rt h vlStyle '''')) \<and>
          (\<forall>r h'. createImageStyle rt h vlStyle = (Inr (JRef r), h') \<longrightarrow>
             pointee h' (get_prop h' r ''fill'') =
               first_of (compiled (createFillStyle rt h vlStyle ''image''))
                 (compiled (createFillStyle rt h vlStyle '''')) \<and>
             pointee h' (get_prop h' r ''stroke'') =
               first_of (compiled (createStrokeStyle rt h vlStyle ''image''))
                 (compiled (createStrokeStyle rt h vlStyle '''')))))"
  using text_scoping [OF assms, of rt] image_scoping [OF assms, of rt] by blast

lemma styled_heap_compiled:
  "compiled (createFillStyle sample_runtime styled_heap 0 ''text'') =
     Some \<lparr>klass = Fill,
           props = [(''color'', JArr [JNum (Finite 255), JNum (Finite 0), JNum (Finite 0), JNum (Finite 1)])]\<rparr>"
  "compiled (createFillStyle sample_runtime styled_heap 0 ''image'') = None"
  "compiled (createFillStyle sample_runtime styled_heap 0 ''textBackground'') = None"
  "compiled (createFillStyle sample_runtime styled_heap 0 '''') =
     Some \<lparr>klass = Fill,
           props = [(''color'', JArr [JNum (Finite 0), JNum (Finite 0), JNum (Finite 0), JNum (Finite 1)])]\<rparr>"
  "compiled (createStrokeStyle sample_runtime styled_heap 0 ''text'') = None"
  "compiled (createStrokeStyle sample_runtime styled_heap 0 ''image'') = None"
  "compiled (createStrokeStyle sample_runtime styled_heap 0 ''textBackground'') = None"
  "compiled (createStrokeStyle sample_runtime styled_heap 0 '''') =
     Some \<lparr>klass = Stroke, props = [(''width'', JNum (Finite 2))]\<rparr>"
  by (simp_all add: createFillStyle_closed createStrokeStyle_closed styled_heap_def instance_of_def
      get_prop_def props_at_def obj_at_def object_literal_def keys_at_def fill_entry_literal
      stroke_entry_literal addPrefix_def upperFirst_def toUpperCase_char_def normalizeColor_def
      sample_runtime_def compiled_def pointee_def)

lemma styled_heap_record:
  "0 < length styled_heap" "closed_record styled_heap 0"
  "\<not> is_nullish (get_prop styled_heap 0 ''text'')"
  "\<not> instance_of styled_heap (get_prop styled_heap 0 ''text'') Text"
  "isEmpty styled_heap (get_prop styled_heap 0 ''imageSrc'')"
  "isEmpty styled_heap (get_prop styled_heap 0 ''image'')"
  "isEmpty styled_heap (get_prop styled_heap 0 ''imagePoints'')"
  "isNumeric sample_runtime (get_prop styled_heap 0 ''imageRadius'')"
  "\<not> instance_of_ImageStyle styled_heap (get_prop styled_heap 0 ''image'')"
  "is_nullish (get_prop styled_heap 0 ''imagePoints'')"
  by (simp_all add: styled_heap_def closed_record_def props_at_def obj_at_def object_literal_def
      get_prop_def is_nullish_def instance_of_def instance_of_ImageStyle_def isEmpty_def
      sample_runtime_def)

lemma styled_heap_circle: "fst (image_ctor styled_heap 0) = Circle"
  by (simp add: image_ctor_def styled_heap_record)

lemma sample_runtime_circle: "image_constructor_throws sample_runtime h Circle a = None"
  by (simp add: sample_runtime_def)

theorem prefix_scoping_with_fallback_witness:
  "(\<exists>t h'. createTextStyle sample_runtime styled_heap 0 = (Inr (JRef t), h') \<and>
      pointee h' (get_prop h' t ''fill'') =
        Some \<lparr>klass = Fill,
              props = [(''color'', JArr [JNum (Finite 255), JNum (Finite 0), JNum (Finite 0), JNum (Finite 1)])]\<rparr> \<and>
      pointee h' (get_prop h' t ''stroke'') =
        Some \<lparr>klass = Stroke, props = [(''width'', JNum (Finite 2))]\<rparr> \<and>
      pointee h' (get_prop h' t ''backgroundFill'') = None \<and>
      pointee h' (get_prop h' t ''backgroundStroke'') = None) \<and>
   (\<exists>i h'. createImageStyle sample_runtime styled_heap 0 = (Inr (JRef i), h') \<and>
      pointee h' (get_prop h' i ''fill'') =
        Some \<lparr>klass = Fill,
              props = [(''color'', JArr [JNum (Finite 0), JNum (Finite 0), JNum (Finite 0), JNum (Finite 1)])]\<rparr> \<and>
      pointee h' (get_prop h' i ''stroke'') =
        Some \<lparr>klass = Stroke, props = [(''width'', JNum (Finite 2))]\<rparr>)"
proof -
  note c5 = prefix_scoping_with_fallback [OF styled_heap_record(1,2), of sample_runtime]
  from c5 have text_half:
    "\<exists>t h'. createTextStyle sample_runtime styled_heap 0 = (Inr (JRef t), h') \<and>
      pointee h' (get_prop h' t ''fill'') =
        Some \<lparr>klass = Fill,
              props = [(''color'', JArr [JNum (Finite 255), JNum (Finite 0), JNum (Finite 0), JNum (Finite 1)])]\<rparr> \<and>
      pointee h' (get_prop h' t ''stroke'') =
        Some \<lparr>klass = Stroke, props = [(''width'', JNum (Finite 2))]\<rparr> \<and>
      pointee h' (get_prop h' t ''backgroundFill'') = None \<and>
      pointee h' (get_prop h' t ''backgroundStroke'') = None"
    by (simp add: styled_heap_record styled_heap_compiled first_of_def)
  from c5 have
    "\<exists>options h5.
       createImageStyle sample_runtime styled_heap 0 =
         (Inr (JRef (length h5)), h5 @ [\<lparr>klass = Circle, props = props_at h5 options\<rparr>]) \<and>
       (\<forall>r h'. createImageStyle sample_runtime styled_heap 0 = (Inr (JRef r), h') \<longrightarrow>
          pointee h' (get_prop h' r ''fill'') =
            Some \<lparr>klass = Fill,
                  props = [(''color'', JArr [JNum (Finite 0), JNum (Finite 0), JNum (Finite 0), JNum (Finite 1)])]\<rparr> \<and>
          pointee h' (get_prop h' r ''stroke'') =
            Some \<lparr>klass = Stroke, props = [(''width'', JNum (Finite 2))]\<rparr>)"
    by (simp add: styled_heap_record styled_heap_compiled first_of_def styled_heap_circle
        sample_runtime_circle) blast
  then have image_half:
    "\<exists>i h'. createImageStyle sample_runtime styled_heap 0 = (Inr (JRef i), h') \<and>
      pointee h' (get_prop h' i ''fill'') =
        Some \<lparr>klass = Fill,
              props = [(''color'', JArr [JNum (Finite 0), JNum (Finite 0), JNum (Finite 0), JNum (Finite 1)])]\<rparr> \<and>
      pointee h' (get_prop h' i ''stroke'') =
        Some \<lparr>klass = Stroke, props = [(''width'', JNum (Finite 2))]\<rparr>"
    by blast
  from text_half image_half show ?thesis by (rule conjI)
qed

lemma icon_heap_record:
  "\<not> isEmpty icon_heap (JStr ''marker.png'')"
  "\<not> instance_of_ImageStyle icon_heap JUndefined"
  "get_prop icon_heap 0 ''imageSrc'' = JStr ''marker.png''"
  "get_prop icon_heap 0 ''image'' = JUndefined"
  "get_prop icon_heap 0 ''imageImgSize'' = JUndefined"
  by (simp_all add: icon_heap_def props_at_def obj_at_def object_literal_def get_prop_def
      is_nullish_def instance_of_def instance_of_ImageStyle_def isEmpty_def is_number_def
      has_zero_length_def no_own_keys_def)

lemma bare_image_heap_record:
  "\<not> isEmpty bare_image_heap (JStr ''abc'')"
  "\<not> instance_of_ImageStyle bare_image_heap (JStr ''abc'')"
  "get_prop bare_image_heap 0 ''imageSrc'' = JUndefined"
  "get_prop bare_image_heap 0 ''image'' = JStr ''abc''"
  "get_prop bare_image_heap 0 ''imageImgSize'' = JUndefined"
  by (simp_all add: bare_image_heap_def props_at_def obj_at_def object_literal_def get_prop_def
      is_nullish_def instance_of_def instance_of_ImageStyle_def isEmpty_def is_number_def
      has_zero_length_def no_own_keys_def)

lemma sample_runtime_icon:
  "image_constructor_throws sample_runtime h Icon a =
     (if get_prop h a ''src'' \<noteq> JUndefined \<and> truthy (get_prop h a ''img'')
      then Some (AssertionError 4)
      else if truthy (get_prop h a ''img'') \<and> \<not> truthy (get_prop h a ''imgSize'')
      then Some (AssertionError 5)
      else if \<not> truthy (get_prop h a ''src'') \<and> \<not> truthy (get_prop h a ''img'')
      then Some (AssertionError 6)
      else None)"
  by (simp add: sample_runtime_def)

lemma get_prop_map_of: "map_of (props_at h a) k = Some v \<Longrightarrow> get_prop h a k = v"
  by (simp add: get_prop_def)

theorem image_style_dispatch_witness:
  "createImageStyle sample_runtime irrelevant_heap 0 = (Inr JUndefined, irrelevant_heap) \<and>
   (\<exists>r h' ps.
      createImageStyle sample_runtime styled_heap 0 = (Inr (JRef r), h') \<and>
      obj_at h' r = Some \<lparr>klass = Circle, props = ps\<rparr> \<and>
      map_of ps ''snapToPixel'' = Some (JBool True) \<and>
      map_of ps ''radius'' = Some (JNum (Finite 5))) \<and>
   (\<exists>r h' ps.
      createImageStyle sample_runtime icon_heap 0 = (Inr (JRef r), h') \<and>
      obj_at h' r = Some \<lparr>klass = Icon, props = ps\<rparr> \<and>
      map_of ps ''snapToPixel'' = Some (JBool True) \<and>
      map_of ps ''src'' = Some (JStr ''marker.png'')) \<and>
   (\<exists>h'. createImageStyle sample_runtime bare_image_heap 0 = (Inl (AssertionError 5), h'))"
proof -
  have irr: "isEmpty irrelevant_heap (get_prop irrelevant_heap 0 ''imageSrc'')"
    "isEmpty irrelevant_heap (get_prop irrelevant_heap 0 ''image'')"
    "isEmpty irrelevant_heap (get_prop irrelevant_heap 0 ''imagePoints'')"
    "\<not> isNumeric sample_runtime (get_prop irrelevant_heap 0 ''imageRadius'')"
    by (simp_all add: irrelevant_heap_def props_at_def obj_at_def object_literal_def get_prop_def
        is_nullish_def isEmpty_def sample_runtime_def)
  have radius: "get_prop styled_heap 0 ''imageRadius'' = JNum (Finite 5)"
    by (simp add: styled_heap_def props_at_def obj_at_def object_literal_def get_prop_def)
  have num: "isNumeric sample_runtime (JNum (Finite 5))"
    by (simp add: sample_runtime_def)
  have at: "obj_at (h5 @ [x]) (length h5) = Some x" for h5 :: heap and x
    by (simp add: obj_at_def)
  have none: "createImageStyle sample_runtime irrelevant_heap 0 = (Inr JUndefined, irrelevant_heap)"
    using image_style_dispatch [of irrelevant_heap 0 sample_runtime] by (simp add: irr)
  from image_style_dispatch [of styled_heap 0 sample_runtime]
  obtain h5 ps where circle:
    "createImageStyle sample_runtime styled_heap 0 =
       (Inr (JRef (length h5)), h5 @ [\<lparr>klass = Circle, props = ps\<rparr>])"
    "map_of ps ''snapToPixel'' = Some (JBool True)"
    "map_of ps ''radius'' = Some (JNum (Finite 5))"
    by (simp add: styled_heap_record radius num sample_runtime_circle) blast
  from image_style_dispatch [of icon_heap 0 sample_runtime]
  obtain k5 i where icon0:
    "createImageStyle sample_runtime icon_heap 0 =
       (case image_constructor_throws sample_runtime k5 Icon i of
          Some e \<Rightarrow> (Inl e, k5)
        | None \<Rightarrow> (Inr (JRef (length k5)), k5 @ [\<lparr>klass = Icon, props = props_at k5 i\<rparr>]))"
    "map_of (props_at k5 i) ''snapToPixel'' = Some (JBool True)"
    "map_of (props_at k5 i) ''src'' = Some (JStr ''marker.png'')"
    "map_of (props_at k5 i) ''img'' = Some JUndefined"
    "map_of (props_at k5 i) ''imgSize'' = Some JUndefined"
    by (simp add: icon_heap_record) blast
  have passes: "image_constructor_throws sample_runtime k5 Icon i = None"
    by (simp add: sample_runtime_icon get_prop_map_of [OF icon0(3)] get_prop_map_of [OF icon0(4)]
        get_prop_map_of [OF icon0(5)])
  from image_style_dispatch [of bare_image_heap 0 sample_runtime]
  obtain b5 j where bare0:
    "createImageStyle sample_runtime bare_image_heap 0 =
       (case image_constructor_throws sample_runtime b5 Icon j of
          Some e \<Rightarrow> (Inl e, b5)
        | None \<Rightarrow> (Inr (JRef (length b5)), b5 @ [\<lparr>klass = Icon, props = props_at b5 j\<rparr>]))"
    "map_of (props_at b5 j) ''src'' = Some JUndefined"
    "map_of (props_at b5 j) ''img'' = Some (JStr ''abc'')"
    "map_of (props_at b5 j) ''imgSize'' = Some JUndefined"
    by (simp add: bare_image_heap_record) blast
  have throws: "image_constructor_throws sample_runtime b5 Icon j = Some (AssertionError 5)"
    by (simp add: sample_runtime_icon get_prop_map_of [OF bare0(2)] get_prop_map_of [OF bare0(3)]
        get_prop_map_of [OF bare0(4)])
  have c: "\<exists>r h' ps.
      createImageStyle sample_runtime styled_heap 0 = (Inr (JRef r), h') \<and>
      obj_at h' r = Some \<lparr>klass = Circle, props = ps\<rparr> \<and>
      map_of ps ''snapToPixel'' = Some (JBool True) \<and>
      map_of ps ''radius'' = Some (JNum (Finite 5))"
    using circle at by blast
  have ic: "\<exists>r h' ps.
      createImageStyle sample_runtime icon_heap 0 = (Inr (JRef r), h') \<and>
      obj_at h' r = Some \<lparr>klass = Icon, props = ps\<rparr> \<and>
      map_of ps ''snapToPixel'' = Some (JBool True) \<and>
      map_of ps ''src'' = Some (JStr ''marker.png'')"
    using icon0(1,2,3) at unfolding passes option.case by blast
  have b: "\<exists>h'. createImageStyle sample_runtime bare_image_heap 0 = (Inl (AssertionError 5), h')"
    using bare0(1) unfolding throws option.case by blast
  from none c ic b show ?thesis by blast
qed

end
